(* ===== verification/Monad.thy ===== *)
theory Monad
  imports Prelude
begin

text \<open>
  The error-and-state monad of the stateful code. Rust's \<open>?\<close> is \<open>bindM\<close>: an error stops the
  computation and keeps the state reached. \<open>valid P m Q E\<close> is the Hoare triple used throughout:
  started in \<open>P\<close>, a normal return satisfies \<open>Q\<close> and an error leaves \<open>E\<close>.
\<close>

type_synonym ('s, 'e, 'a) comp = "'s \<Rightarrow> ('e + 'a) \<times> 's"

definition returnM :: "'a \<Rightarrow> ('s, 'e, 'a) comp" where
  "returnM a = (\<lambda>s. (Inr a, s))"

definition throwM :: "'e \<Rightarrow> ('s, 'e, 'a) comp" where
  "throwM e = (\<lambda>s. (Inl e, s))"

definition bindM :: "('s, 'e, 'a) comp \<Rightarrow> ('a \<Rightarrow> ('s, 'e, 'b) comp) \<Rightarrow> ('s, 'e, 'b) comp" where
  "bindM m f = (\<lambda>s. case m s of (Inl e, s') \<Rightarrow> (Inl e, s') | (Inr a, s') \<Rightarrow> f a s')"

text \<open>The pure part: a value that may be an error (\<open>Result\<close>), and a guard that returns early.\<close>

definition liftE :: "'e + 'a \<Rightarrow> ('s, 'e, 'a) comp" where
  "liftE r = (\<lambda>s. (r, s))"

definition ensureM :: "bool \<Rightarrow> 'e \<Rightarrow> ('s, 'e, unit) comp" where
  "ensureM b e = (if b then returnM () else throwM e)"

text \<open>\<open>whenM\<close> is a conditional statement, \<open>map_errM\<close> is \<open>map_err\<close>, \<open>tryM\<close> inspects a result.\<close>

definition whenM :: "bool \<Rightarrow> ('s, 'e, unit) comp \<Rightarrow> ('s, 'e, unit) comp" where
  "whenM b m = (if b then m else returnM ())"

definition map_errM :: "('e \<Rightarrow> 'f) \<Rightarrow> ('s, 'e, 'a) comp \<Rightarrow> ('s, 'f, 'a) comp" where
  "map_errM g m = (\<lambda>s. case m s of (Inl e, s') \<Rightarrow> (Inl (g e), s') | (Inr a, s') \<Rightarrow> (Inr a, s'))"

definition tryM :: "('s, 'e, 'a) comp \<Rightarrow> ('s, 'f, 'e + 'a) comp" where
  "tryM m = (\<lambda>s. case m s of (r, s') \<Rightarrow> (Inr r, s'))"

fun forM :: "'a list \<Rightarrow> ('a \<Rightarrow> ('s, 'e, unit) comp) \<Rightarrow> ('s, 'e, unit) comp" where
  "forM [] f = returnM ()"
| "forM (x # xs) f = bindM (f x) (\<lambda>_. forM xs f)"

text \<open>
  The same two combinators for pure fallible code (\<open>Result\<close> without state): \<open>bindE\<close> is \<open>?\<close>.
\<close>

definition bindE :: "'e + 'a \<Rightarrow> ('a \<Rightarrow> 'e + 'b) \<Rightarrow> 'e + 'b" where
  "bindE r f = (case r of Inl e \<Rightarrow> Inl e | Inr a \<Rightarrow> f a)"

definition ensureE :: "bool \<Rightarrow> 'e \<Rightarrow> 'e + unit" where
  "ensureE b e = (if b then Inr () else Inl e)"

definition ok_orE :: "'a option \<Rightarrow> 'e \<Rightarrow> 'e + 'a" where
  "ok_orE x e = (case x of None \<Rightarrow> Inl e | Some a \<Rightarrow> Inr a)"

fun forE :: "'a list \<Rightarrow> ('a \<Rightarrow> 'e + unit) \<Rightarrow> 'e + unit" where
  "forE [] f = Inr ()"
| "forE (x # xs) f = bindE (f x) (\<lambda>_. forE xs f)"

definition is_ok :: "'e + 'a \<Rightarrow> bool" where
  "is_ok r = (case r of Inl _ \<Rightarrow> False | Inr _ \<Rightarrow> True)"

subsection \<open>Laws\<close>

lemma bindE_Inr [simp]: "bindE r f = Inr b \<longleftrightarrow> (\<exists>a. r = Inr a \<and> f a = Inr b)"
  by (auto simp: bindE_def split: sum.splits)

lemma bindE_simps [simp]: "bindE (Inl e) f = Inl e" "bindE (Inr a) f = f a"
  by (simp_all add: bindE_def)

lemma ensureE_Inr [simp]: "ensureE b e = Inr u \<longleftrightarrow> b"
  by (simp add: ensureE_def)

lemma ensureE_Inl [simp]: "ensureE b e = Inl e' \<longleftrightarrow> \<not> b \<and> e' = e"
  by (auto simp: ensureE_def)

lemma ok_orE_Inr [simp]: "ok_orE x e = Inr a \<longleftrightarrow> x = Some a"
  by (auto simp: ok_orE_def split: option.splits)

lemma ok_orE_Inl [simp]: "ok_orE x e = Inl e' \<longleftrightarrow> x = None \<and> e' = e"
  by (auto simp: ok_orE_def split: option.splits)

lemma forE_Inr [simp]: "forE xs f = Inr u \<longleftrightarrow> (\<forall>x \<in> set xs. f x = Inr ())"
  by (induction xs) auto

lemma is_ok_iff: "is_ok r \<longleftrightarrow> (\<exists>a. r = Inr a)"
  by (auto simp: is_ok_def split: sum.splits)

lemma is_ok_simps [simp]: "is_ok (Inr a)" "\<not> is_ok (Inl e)"
  by (simp_all add: is_ok_def)

lemma returnM_apply [monad_simps]: "returnM a s = (Inr a, s)"
  by (simp add: returnM_def)

lemma throwM_apply [monad_simps]: "throwM e s = (Inl e, s)"
  by (simp add: throwM_def)

lemma liftE_apply [monad_simps]: "liftE r s = (r, s)"
  by (simp add: liftE_def)

lemma ensureM_apply [monad_simps]: "ensureM b e s = (if b then (Inr (), s) else (Inl e, s))"
  by (simp add: ensureM_def returnM_def throwM_def)

lemma bindM_Inl: "m s = (Inl e, s') \<Longrightarrow> bindM m f s = (Inl e, s')"
  by (simp add: bindM_def)

lemma bindM_Inr: "m s = (Inr a, s') \<Longrightarrow> bindM m f s = f a s'"
  by (simp add: bindM_def)

lemma bindM_return_iff:
  "bindM m f s = (Inr b, t) \<longleftrightarrow> (\<exists>a u. m s = (Inr a, u) \<and> f a u = (Inr b, t))"
  by (auto simp: bindM_def split: prod.splits sum.splits)

lemma bindM_throw_iff:
  "bindM m f s = (Inl e, t) \<longleftrightarrow>
     m s = (Inl e, t) \<or> (\<exists>a u. m s = (Inr a, u) \<and> f a u = (Inl e, t))"
  by (auto simp: bindM_def split: prod.splits sum.splits)

lemma bindM_simps [simp]:
  "bindM (returnM a) f = f a" "bindM (throwM e) f = throwM e"
  "bindM (liftE (Inr a)) f = f a" "bindM (liftE (Inl e)) f = throwM e"
  by (simp_all add: bindM_def fun_eq_iff returnM_def throwM_def liftE_def)

lemma bindM_assoc: "bindM (bindM m f) g = bindM m (\<lambda>a. bindM (f a) g)"
  by (auto simp: bindM_def fun_eq_iff split: prod.splits sum.splits)

lemma map_errM_iff [simp]:
  "map_errM g m s = (Inr a, t) \<longleftrightarrow> m s = (Inr a, t)"
  "map_errM g m s = (Inl e, t) \<longleftrightarrow> (\<exists>e'. m s = (Inl e', t) \<and> e = g e')"
  by (auto simp: map_errM_def split: prod.splits sum.splits)

lemma map_errM_Inr: "m s = (Inr a, t) \<Longrightarrow> map_errM g m s = (Inr a, t)"
  by simp

lemma map_errM_Inl: "m s = (Inl e, t) \<Longrightarrow> map_errM g m s = (Inl (g e), t)"
  by simp

lemma tryM_iff [simp]: "tryM m s = (Inr r, t) \<longleftrightarrow> m s = (r, t)" "tryM m s \<noteq> (Inl e, t)"
  by (auto simp: tryM_def split: prod.splits)

lemma tryM_apply: "m s = (r, t) \<Longrightarrow> tryM m s = (Inr r, t)"
  by simp

lemma whenM_simps [simp]: "whenM True m = m" "whenM False m = returnM ()"
  by (simp_all add: whenM_def)

subsection \<open>Hoare triples\<close>

definition valid :: "('s \<Rightarrow> bool) \<Rightarrow> ('s, 'e, 'a) comp \<Rightarrow> ('a \<Rightarrow> 's \<Rightarrow> bool) \<Rightarrow> ('s \<Rightarrow> bool) \<Rightarrow> bool" where
  "valid P m Q E \<longleftrightarrow> (\<forall>s. P s \<longrightarrow> (case m s of (Inl e, s') \<Rightarrow> E s' | (Inr a, s') \<Rightarrow> Q a s'))"

lemma validI:
  assumes "\<And>s a t. P s \<Longrightarrow> m s = (Inr a, t) \<Longrightarrow> Q a t"
    and "\<And>s e t. P s \<Longrightarrow> m s = (Inl e, t) \<Longrightarrow> E t"
  shows "valid P m Q E"
  using assms by (auto simp: valid_def split: prod.splits sum.splits)

lemma valid_InrD: "valid P m Q E \<Longrightarrow> P s \<Longrightarrow> m s = (Inr a, t) \<Longrightarrow> Q a t"
  by (force simp: valid_def)

lemma valid_InlD: "valid P m Q E \<Longrightarrow> P s \<Longrightarrow> m s = (Inl e, t) \<Longrightarrow> E t"
  by (force simp: valid_def)

lemma valid_outcome:
  assumes "valid P m Q E" and "P s" and "m s = (r, t)"
    and "\<And>a. r = Inr a \<Longrightarrow> Q a t \<Longrightarrow> C" and "\<And>e. r = Inl e \<Longrightarrow> E t \<Longrightarrow> C"
  shows C
  using assms by (cases r) (fastforce simp: valid_def)+

lemma valid_snd:
  assumes "valid P m (\<lambda>_. R) R" and "P s"
  shows "R (snd (m s))"
  using assms by (cases "m s"; cases "fst (m s)") (auto simp: valid_def)

lemma valid_conseq:
  assumes "valid P m Q E" and "\<And>s. P' s \<Longrightarrow> P s"
    and "\<And>a s. Q a s \<Longrightarrow> Q' a s" and "\<And>s. E s \<Longrightarrow> E' s"
  shows "valid P' m Q' E'"
  using assms by (fastforce simp: valid_def split: prod.splits sum.splits)

lemma valid_pre: "valid P m Q E \<Longrightarrow> (\<And>s. P' s \<Longrightarrow> P s) \<Longrightarrow> valid P' m Q E"
  by (erule valid_conseq)

lemma valid_post:
  "valid P m Q E \<Longrightarrow> (\<And>a s. Q a s \<Longrightarrow> Q' a s) \<Longrightarrow> (\<And>s. E s \<Longrightarrow> E' s) \<Longrightarrow> valid P m Q' E'"
  by (erule valid_conseq)

lemma valid_return [wp]: "valid (Q a) (returnM a) Q E"
  by (simp add: valid_def monad_simps)

lemma valid_throw [wp]: "valid E (throwM e) Q E"
  by (simp add: valid_def monad_simps)

lemma valid_bind [wp]:
  assumes "valid P m R E" and "\<And>a. valid (R a) (f a) Q E"
  shows "valid P (bindM m f) Q E"
  using assms by (fastforce simp: valid_def bindM_def split: prod.splits sum.splits)

lemma valid_liftE: "(\<And>a. r = Inr a \<Longrightarrow> valid P (returnM a) Q E) \<Longrightarrow> (\<And>s. P s \<Longrightarrow> E s) \<Longrightarrow> valid P (liftE r) Q E"
  by (cases r) (auto simp: valid_def monad_simps)

lemma valid_ensure: "(\<And>s. P s \<Longrightarrow> \<not> b \<Longrightarrow> E s) \<Longrightarrow> valid P (ensureM b e) (\<lambda>_ s. P s \<and> b) E"
  by (auto simp: valid_def ensureM_apply)

lemma valid_if [wp]:
  "(b \<Longrightarrow> valid P m Q E) \<Longrightarrow> (\<not> b \<Longrightarrow> valid P n Q E) \<Longrightarrow> valid P (if b then m else n) Q E"
  by simp

lemma valid_when [wp]:
  "(b \<Longrightarrow> valid P m Q E) \<Longrightarrow> (\<not> b \<Longrightarrow> (\<And>s. P s \<Longrightarrow> Q () s)) \<Longrightarrow> valid P (whenM b m) Q E"
  by (cases b) (auto simp: valid_def monad_simps)

lemma valid_case_option [wp]:
  "(x = None \<Longrightarrow> valid P m Q E) \<Longrightarrow> (\<And>y. x = Some y \<Longrightarrow> valid P (f y) Q E)
   \<Longrightarrow> valid P (case x of None \<Rightarrow> m | Some y \<Rightarrow> f y) Q E"
  by (cases x) auto

lemma valid_case_sum [wp]:
  "(\<And>y. x = Inl y \<Longrightarrow> valid P (f y) Q E) \<Longrightarrow> (\<And>y. x = Inr y \<Longrightarrow> valid P (g y) Q E)
   \<Longrightarrow> valid P (case x of Inl y \<Rightarrow> f y | Inr y \<Rightarrow> g y) Q E"
  by (cases x) auto

lemma valid_map_err [wp]: "valid P m Q E \<Longrightarrow> valid P (map_errM g m) Q E"
  by (fastforce simp: valid_def map_errM_def split: prod.splits sum.splits)

lemma valid_try: "valid P m (\<lambda>a. Q (Inr a)) (\<lambda>s. \<forall>e. Q (Inl e) s) \<Longrightarrow> valid P (tryM m) Q E"
  unfolding valid_def tryM_def by (auto split: prod.splits sum.splits) (metis sum.exhaust)+

lemma valid_forM:
  assumes "\<And>x. x \<in> set xs \<Longrightarrow> valid I (f x) (\<lambda>_. I) E"
  shows "valid I (forM xs f) (\<lambda>_. I) E"
  using assms
proof (induction xs)
  case Nil
  show ?case by (simp add: valid_def monad_simps)
next
  case (Cons x xs)
  have "valid I (f x) (\<lambda>_. I) E" by (rule Cons.prems) simp
  moreover have "valid I (forM xs f) (\<lambda>_. I) E" by (rule Cons.IH) (rule Cons.prems, simp)
  ultimately show ?case by (simp add: valid_bind)
qed

text \<open>A predicate every outcome of a computation keeps.\<close>

definition keeps :: "('s \<Rightarrow> bool) \<Rightarrow> ('s, 'e, 'a) comp \<Rightarrow> bool" where
  "keeps I m \<longleftrightarrow> valid I m (\<lambda>_. I) I"

named_theorems keeps_intros \<open>operations and combinators that keep a predicate\<close>

lemma keeps_bind [keeps_intros]: "keeps I m \<Longrightarrow> (\<And>a. keeps I (f a)) \<Longrightarrow> keeps I (bindM m f)"
  unfolding keeps_def by (rule valid_bind)

lemma keeps_basic [keeps_intros]:
  "keeps I (returnM a)" "keeps I (throwM e)" "keeps I (liftE r)" "keeps I (ensureM b e)"
  by (auto simp: keeps_def valid_def monad_simps split: sum.splits)

lemma keeps_if [keeps_intros]: "(b \<Longrightarrow> keeps I m) \<Longrightarrow> (\<not> b \<Longrightarrow> keeps I n) \<Longrightarrow> keeps I (if b then m else n)"
  by simp

lemma keeps_when [keeps_intros]: "(b \<Longrightarrow> keeps I m) \<Longrightarrow> keeps I (whenM b m)"
  by (simp add: whenM_def keeps_basic)

lemma keeps_option [keeps_intros]:
  "(x = None \<Longrightarrow> keeps I m) \<Longrightarrow> (\<And>y. x = Some y \<Longrightarrow> keeps I (f y)) \<Longrightarrow> keeps I (case x of None \<Rightarrow> m | Some y \<Rightarrow> f y)"
  by (cases x) auto

lemma keeps_sum [keeps_intros]:
  "(\<And>y. x = Inl y \<Longrightarrow> keeps I (f y)) \<Longrightarrow> (\<And>y. x = Inr y \<Longrightarrow> keeps I (g y)) \<Longrightarrow> keeps I (case x of Inl y \<Rightarrow> f y | Inr y \<Rightarrow> g y)"
  by (cases x) auto

lemma keeps_map_err [keeps_intros]: "keeps I m \<Longrightarrow> keeps I (map_errM g m)"
  unfolding keeps_def by (rule valid_map_err)

lemma keeps_try [keeps_intros]: "keeps I m \<Longrightarrow> keeps I (tryM m)"
  unfolding keeps_def by (rule valid_try) simp

lemma keeps_forM [keeps_intros]: "(\<And>x. x \<in> set xs \<Longrightarrow> keeps I (f x)) \<Longrightarrow> keeps I (forM xs f)"
  by (induction xs) (auto intro!: keeps_bind keeps_basic)

lemma keeps_snd: "keeps I m \<Longrightarrow> I s \<Longrightarrow> I (snd (m s))"
  unfolding keeps_def by (rule valid_snd)

end
