(* ===== verification/App.thy ===== *)
theory App
  imports Monad "HOL-Library.Char_ord" "HOL-Library.List_Lexorder"
begin

text \<open>
  The product identity (\<^verbatim>\<open>src/src/app.rs\<close>) and the release targets with the canonical names
  derived from them (\<^verbatim>\<open>src/src/release/target.rs\<close>). The version type \<open>'v\<close> and the operations on it
  come from the crate \<^verbatim>\<open>semver\<close>, and SHA-256 with hexadecimal output from \<^verbatim>\<open>sha2\<close> and \<^verbatim>\<open>hex\<close>;
  all are fields of the record \<open>lib\<close>, an argument of every definition that uses them.
\<close>

subsection \<open>Third-party operations\<close>

record 'v lib =
  version_parse :: "string \<Rightarrow> 'v option"
  version_string :: "'v \<Rightarrow> string"
  version_zero :: 'v
  sha256_hex :: "bytes \<Rightarrow> string"

text \<open>
  Documented behaviour of \<^verbatim>\<open>semver\<close> used by the proofs: \<open>Version::parse\<close> inverts \<open>Display\<close>, and
  the printed form is a nonempty string over ASCII letters, digits, dot, plus and minus.
\<close>

definition semver_char :: "char \<Rightarrow> bool" where
  "semver_char c \<longleftrightarrow> is_ascii_digit c \<or> is_ascii_alphabetic c \<or> c \<in> set ''.+-''"

definition semver_ok :: "('v, 'z) lib_scheme \<Rightarrow> bool" where
  "semver_ok lib \<longleftrightarrow> (\<forall>v. version_parse lib (version_string lib v) = Some v
     \<and> version_string lib v \<noteq> [] \<and> list_all semver_char (version_string lib v)
     \<and> is_ascii_digit (hd (version_string lib v)))"

lemma semver_okD:
  assumes "semver_ok lib"
  shows "version_parse lib (version_string lib v) = Some v"
    and "version_string lib v \<noteq> []"
    and "c \<in> set (version_string lib v) \<Longrightarrow> semver_char c"
    and "is_ascii_digit (hd (version_string lib v))"
  using assms by (auto simp: semver_ok_def list_all_iff)

lemma version_string_inject:
  "semver_ok lib \<Longrightarrow> version_string lib v = version_string lib w \<longleftrightarrow> v = w"
  by (metis option.inject semver_okD(1))

lemma semver_char_not [simp]:
  "\<not> semver_char (CHR ''/'')" "\<not> semver_char (CHR 0x5C)" "\<not> semver_char (CHR 0x00)"
  "\<not> semver_char (CHR '':'')"
  by (simp_all add: semver_char_def is_ascii_digit_def is_ascii_alphabetic_def)

subsection \<open>The application\<close>

datatype activation_strategy = UnixSymlink | WindowsLauncher string u32

record self_test =
  st_args :: "string list"
  st_timeout :: nat

record app =
  app_name :: string
  app_version :: string
  app_repository_url :: string
  app_trust_anchor :: bytes
  app_activation :: activation_strategy
  app_self_test :: "self_test option"

definition payload_name :: "app \<Rightarrow> bool \<Rightarrow> string" where
  "payload_name app windows = (if windows then app_name app @ ''.exe'' else app_name app)"

definition launcher_name :: "app \<Rightarrow> string option" where
  "launcher_name app = (case app_activation app of
       UnixSymlink \<Rightarrow> None | WindowsLauncher n _ \<Rightarrow> Some n)"

definition launcher_protocol :: "app \<Rightarrow> u32 option" where
  "launcher_protocol app = (case app_activation app of
       UnixSymlink \<Rightarrow> None | WindowsLauncher _ p \<Rightarrow> Some p)"

definition metadata_filename :: "app \<Rightarrow> string" where
  "metadata_filename app = app_name app @ ''-release.json''"

definition signature_filename :: "app \<Rightarrow> string" where
  "signature_filename app = app_name app @ ''-release.signatures.json''"

definition root_name :: "('v, 'z) lib_scheme \<Rightarrow> app \<Rightarrow> 'v \<Rightarrow> string \<Rightarrow> string" where
  "root_name lib app version triple =
     app_name app @ ''-'' @ version_string lib version @ ''-'' @ triple"

definition archive_prefix :: "app \<Rightarrow> string" where
  "archive_prefix app = app_name app @ ''-''"

subsection \<open>Targets\<close>

datatype target =
    X86_64UnknownLinuxGnu
  | Aarch64UnknownLinuxGnu
  | X86_64AppleDarwin
  | Aarch64AppleDarwin
  | X86_64PcWindowsMsvc

definition all_targets :: "target list" where
  "all_targets = [Aarch64AppleDarwin, Aarch64UnknownLinuxGnu, X86_64AppleDarwin,
     X86_64PcWindowsMsvc, X86_64UnknownLinuxGnu]"

fun as_str :: "target \<Rightarrow> string" where
  "as_str X86_64UnknownLinuxGnu = ''x86_64-unknown-linux-gnu''"
| "as_str Aarch64UnknownLinuxGnu = ''aarch64-unknown-linux-gnu''"
| "as_str X86_64AppleDarwin = ''x86_64-apple-darwin''"
| "as_str Aarch64AppleDarwin = ''aarch64-apple-darwin''"
| "as_str X86_64PcWindowsMsvc = ''x86_64-pc-windows-msvc''"

definition target_from_str :: "string \<Rightarrow> target option" where
  "target_from_str value =
     (if value = ''x86_64-unknown-linux-gnu'' then Some X86_64UnknownLinuxGnu
      else if value = ''aarch64-unknown-linux-gnu'' then Some Aarch64UnknownLinuxGnu
      else if value = ''x86_64-apple-darwin'' then Some X86_64AppleDarwin
      else if value = ''aarch64-apple-darwin'' then Some Aarch64AppleDarwin
      else if value = ''x86_64-pc-windows-msvc'' then Some X86_64PcWindowsMsvc
      else None)"

definition is_windows :: "target \<Rightarrow> bool" where
  "is_windows t = (case t of X86_64PcWindowsMsvc \<Rightarrow> True | _ \<Rightarrow> False)"

definition archive_suffix :: "target \<Rightarrow> string" where
  "archive_suffix t = (if is_windows t then ''.zip'' else ''.tar.gz'')"

definition archive_format :: "target \<Rightarrow> string" where
  "archive_format t = (if is_windows t then ''zip'' else ''tar.gz'')"

definition target_launcher_protocol :: "target \<Rightarrow> app \<Rightarrow> u32 option" where
  "target_launcher_protocol t app = (if is_windows t then launcher_protocol app else None)"

definition target_payload_name :: "target \<Rightarrow> app \<Rightarrow> string" where
  "target_payload_name t app = payload_name app (is_windows t)"

definition target_launcher_name :: "target \<Rightarrow> app \<Rightarrow> string option" where
  "target_launcher_name t app = (if is_windows t then launcher_name app else None)"

definition target_root_name :: "('v, 'z) lib_scheme \<Rightarrow> target \<Rightarrow> app \<Rightarrow> 'v \<Rightarrow> string" where
  "target_root_name lib t app version = root_name lib app version (as_str t)"

definition archive_name :: "('v, 'z) lib_scheme \<Rightarrow> target \<Rightarrow> app \<Rightarrow> 'v \<Rightarrow> string" where
  "archive_name lib t app version = target_root_name lib t app version @ archive_suffix t"

definition payload_path :: "('v, 'z) lib_scheme \<Rightarrow> target \<Rightarrow> app \<Rightarrow> 'v \<Rightarrow> string" where
  "payload_path lib t app version =
     target_root_name lib t app version @ ''/'' @ target_payload_name t app"

definition launcher_path :: "('v, 'z) lib_scheme \<Rightarrow> target \<Rightarrow> app \<Rightarrow> 'v \<Rightarrow> string option" where
  "launcher_path lib t app version =
     map_option (\<lambda>n. target_root_name lib t app version @ ''/'' @ n) (target_launcher_name t app)"

text \<open>\<open>Target::parse_version\<close>: the canonical spelling only.\<close>

definition parse_version :: "('v, 'z) lib_scheme \<Rightarrow> string \<Rightarrow> 'v option" where
  "parse_version lib s = (case version_parse lib s of None \<Rightarrow> None
     | Some v \<Rightarrow> if version_string lib v \<noteq> s then None else Some v)"

lemma parse_version_Some: "parse_version lib s = Some v \<Longrightarrow> version_string lib v = s"
  by (auto simp: parse_version_def split: option.splits if_splits)

lemma parse_version_string: "semver_ok lib \<Longrightarrow> parse_version lib (version_string lib v) = Some v"
  by (simp add: parse_version_def semver_okD(1))

lemma as_str_inject [simp]: "as_str t = as_str u \<longleftrightarrow> t = u"
  by (cases t; cases u) simp_all

lemma target_from_str_as_str [simp]: "target_from_str (as_str t) = Some t"
  by (cases t) (simp_all add: target_from_str_def)

lemma target_from_str_alt:
  "target_from_str s =
     (if s = as_str X86_64UnknownLinuxGnu then Some X86_64UnknownLinuxGnu
      else if s = as_str Aarch64UnknownLinuxGnu then Some Aarch64UnknownLinuxGnu
      else if s = as_str X86_64AppleDarwin then Some X86_64AppleDarwin
      else if s = as_str Aarch64AppleDarwin then Some Aarch64AppleDarwin
      else if s = as_str X86_64PcWindowsMsvc then Some X86_64PcWindowsMsvc
      else None)"
  by (simp only: target_from_str_def as_str.simps)

lemma target_from_str_Some: "target_from_str s = Some t \<longleftrightarrow> s = as_str t"
proof
  assume "target_from_str s = Some t"
  then show "s = as_str t"
    by (auto simp add: target_from_str_alt simp del: as_str.simps split: if_split_asm)
next
  show "s = as_str t \<Longrightarrow> target_from_str s = Some t"
    by (simp del: as_str.simps)
qed

lemma all_targets_complete: "t \<in> set all_targets"
  by (cases t) (simp_all add: all_targets_def)

text \<open>Targets are ordered by their triple: \<open>cmp\<close> and \<open>partial_cmp\<close> of \<open>Target\<close>, and the order
  that Rust's operators read off them.\<close>

datatype cmp_ordering = CmpLess | CmpEqual | CmpGreater

definition target_cmp :: "target \<Rightarrow> target \<Rightarrow> cmp_ordering" where
  "target_cmp t u =
     (if as_str t < as_str u then CmpLess else if as_str t = as_str u then CmpEqual else CmpGreater)"

definition target_partial_cmp :: "target \<Rightarrow> target \<Rightarrow> cmp_ordering option" where
  "target_partial_cmp t u = Some (target_cmp t u)"

lemma target_cmp_less: "target_partial_cmp t u = Some CmpLess \<longleftrightarrow> as_str t < as_str u"
  by (simp add: target_partial_cmp_def target_cmp_def)

lemma target_cmp_not_greater: "target_cmp t u \<noteq> CmpGreater \<longleftrightarrow> as_str t \<le> as_str u"
  by (auto simp: target_cmp_def order.order_iff_strict)

instantiation target :: linorder
begin

definition less_target :: "target \<Rightarrow> target \<Rightarrow> bool" where
  "less_target t u \<longleftrightarrow> target_partial_cmp t u = Some CmpLess"

definition less_eq_target :: "target \<Rightarrow> target \<Rightarrow> bool" where
  "less_eq_target t u \<longleftrightarrow> target_cmp t u \<noteq> CmpGreater"

instance
  by standard (auto simp: less_eq_target_def less_target_def target_cmp_less target_cmp_not_greater dest: order_antisym)

end

lemma all_targets_sorted: "sorted_wrt (<) all_targets"
  by (simp add: all_targets_def less_target_def target_cmp_less)

text \<open>Separator-free parts of the canonical names.\<close>

lemma as_str_chars: "c \<in> set (as_str t) \<Longrightarrow> c \<noteq> CHR ''/'' \<and> c \<noteq> CHR 0x5C \<and> c \<noteq> CHR 0x00 \<and> c \<noteq> CHR '':''"
  by (cases t) auto

text \<open>An archive name determines its target and version.\<close>

lemma as_str_suffix: "x @ as_str t = y @ as_str u \<Longrightarrow> t = u \<and> x = y"
proof -
  assume eq: "x @ as_str t = y @ as_str u"
  have "rev (as_str t) @ rev x = rev (as_str u) @ rev y"
    using arg_cong [OF eq, of rev] by simp
  then have "t = u" by (cases t; cases u) simp_all
  with eq show ?thesis by simp
qed

lemma archive_name_inject:
  assumes "semver_ok lib" and "archive_name lib t app v = archive_name lib u app w"
  shows "t = u \<and> v = w"
proof -
  have "is_windows t = is_windows u"
    using arg_cong [OF assms(2), of last]
    by (simp add: archive_name_def archive_suffix_def split: if_splits)
  with assms(2) have "target_root_name lib t app v = target_root_name lib u app w"
    by (simp add: archive_name_def archive_suffix_def)
  then have "(version_string lib v @ ''-'') @ as_str t = (version_string lib w @ ''-'') @ as_str u"
    by (simp add: target_root_name_def root_name_def)
  then have "t = u \<and> version_string lib v @ ''-'' = version_string lib w @ ''-''"
    by (rule as_str_suffix)
  then show ?thesis
    using assms(1) by (simp add: version_string_inject)
qed

end
