(* ===== verification/Release.thy ===== *)
theory Release
  imports App
begin

text \<open>
  Limits, errors, bounded readers and byte verification shared by the release modules
  (\<^verbatim>\<open>src/src/release/mod.rs\<close>). A reader is the bytes still to be delivered, an optional I/O error
  raised once they are exhausted, and an arbitrary list that bounds the sizes of the next reads,
  so that every pattern of short reads is covered.
\<close>

definition MAX_ARCHIVE_SIZE :: u64 where "MAX_ARCHIVE_SIZE = 256 * 1024 * 1024"
definition MAX_MEMBER_SIZE :: u64 where "MAX_MEMBER_SIZE = 256 * 1024 * 1024"
definition MAX_UNCOMPRESSED_SIZE :: u64 where "MAX_UNCOMPRESSED_SIZE = 256 * 1024 * 1024"
definition MAX_ARCHIVE_MEMBERS :: nat where "MAX_ARCHIVE_MEMBERS = 4096"
definition MAX_ARCHIVE_MEMBER_NAME :: nat where "MAX_ARCHIVE_MEMBER_NAME = 4096"
definition MAX_ARCHIVE_METADATA_SIZE :: nat where "MAX_ARCHIVE_METADATA_SIZE = 8 * 1024 * 1024"
definition MAX_TAR_METADATA_SIZE :: u64 where "MAX_TAR_METADATA_SIZE = 64 * 1024"
definition MAX_TAR_DECOMPRESSED_SIZE :: u64 where
  "MAX_TAR_DECOMPRESSED_SIZE = MAX_UNCOMPRESSED_SIZE + 32 * 1024 * 1024"
definition MAX_METADATA_SIZE :: nat where "MAX_METADATA_SIZE = 1024 * 1024"

lemmas limit_defs = MAX_ARCHIVE_SIZE_def MAX_MEMBER_SIZE_def MAX_UNCOMPRESSED_SIZE_def
  MAX_ARCHIVE_MEMBERS_def MAX_ARCHIVE_MEMBER_NAME_def MAX_ARCHIVE_METADATA_SIZE_def
  MAX_TAR_METADATA_SIZE_def MAX_TAR_DECOMPRESSED_SIZE_def MAX_METADATA_SIZE_def

text \<open>\<open>io::ErrorKind\<close>, as far as the source distinguishes kinds.\<close>

datatype io_kind = NotFound | AlreadyExists | PermissionDenied | InvalidInput | InvalidData
  | Unsupported | UnexpectedEof | OtherIo

text \<open>The messages are the fixed part of the source's text; interpolated values are dropped.\<close>

datatype release_error = Invalid string | TrustAnchorNotConfigured | Io io_kind | Json
  | Download string | Archive string

subsection \<open>Readers\<close>

record reader =
  r_data :: bytes
  r_error :: "io_kind option"
  r_chunks :: "nat list"

definition reader_of :: "bytes \<Rightarrow> reader" where
  "reader_of b = \<lparr>r_data = b, r_error = None, r_chunks = []\<rparr>"

definition read_bound :: "nat \<Rightarrow> reader \<Rightarrow> nat" where
  "read_bound n r = (case r_chunks r of [] \<Rightarrow> n | c # _ \<Rightarrow> min n (max 1 c))"

definition read :: "nat \<Rightarrow> (reader, io_kind, bytes) comp" where
  "read n r =
     (if n = 0 then (Inr [], r)
      else if r_data r = [] then
        (case r_error r of None \<Rightarrow> (Inr [], r) | Some e \<Rightarrow> (Inl e, r))
      else (Inr (take (read_bound n r) (r_data r)),
            r\<lparr>r_data := drop (read_bound n r) (r_data r), r_chunks := tl (r_chunks r)\<rparr>))"

lemma read_split: "read n r = (Inr c, r') \<Longrightarrow> r_data r = c @ r_data r' \<and> r_error r' = r_error r"
  by (auto simp: read_def split: if_splits option.splits)

lemma read_shrinks [simp]:
  "read n r = (Inr c, r') \<Longrightarrow> c \<noteq> [] \<Longrightarrow> length (r_data r') < length (r_data r)"
  using read_split [of n r c r'] by (cases c) auto

lemma read_shrinks_eq [simp]:
  "(Inr c, r') = read n r \<Longrightarrow> c \<noteq> [] \<Longrightarrow> length (r_data r') < length (r_data r)"
  by (metis read_shrinks)

lemma read_empty:
  "read n r = (Inr [], r') \<Longrightarrow> 0 < n \<Longrightarrow> r_data r = [] \<and> r_error r = None \<and> r' = r"
  by (auto simp: read_def read_bound_def split: if_splits option.splits list.splits)

lemma read_length: "read n r = (Inr c, r') \<Longrightarrow> length c \<le> n"
  by (auto simp: read_def read_bound_def split: if_splits option.splits list.splits)

lemma read_error: "read n r = (Inl e, r') \<Longrightarrow> r_error r = Some e \<and> r_data r = [] \<and> r' = r"
  by (auto simp: read_def split: if_splits option.splits)

definition BUFFER :: nat where "BUFFER = 64 * 1024"

lemma BUFFER_pos [simp]: "0 < BUFFER"
  by (simp add: BUFFER_def)

subsection \<open>Hashing and bounded reading\<close>

definition sha256_bytes :: "('v, 'z) lib_scheme \<Rightarrow> bytes \<Rightarrow> string" where
  "sha256_bytes lib bytes = sha256_hex lib bytes"

text \<open>The incremental hasher is the bytes it was fed; \<open>finalize\<close> hashes them.\<close>

function sha256_loop :: "('v, 'z) lib_scheme \<Rightarrow> bytes \<Rightarrow> (reader, io_kind, string) comp" where
  "sha256_loop lib fed r =
     (case read BUFFER r of
        (Inl e, r') \<Rightarrow> (Inl e, r')
      | (Inr chunk, r') \<Rightarrow>
          if chunk = [] then (Inr (sha256_hex lib fed), r')
          else sha256_loop lib (fed @ chunk) r')"
  by pat_completeness auto
termination
  by (relation "measure (\<lambda>(_, _, r). length (r_data r))") auto

declare sha256_loop.simps [simp del]

definition sha256_reader :: "('v, 'z) lib_scheme \<Rightarrow> (reader, io_kind, string) comp" where
  "sha256_reader lib = sha256_loop lib []"

function read_limited_loop :: "u64 \<Rightarrow> u64 \<Rightarrow> bytes \<Rightarrow> (reader, release_error, bytes) comp" where
  "read_limited_loop limit sofar output r =
     (case read BUFFER r of
        (Inl e, r') \<Rightarrow> (Inl (Io e), r')
      | (Inr chunk, r') \<Rightarrow>
          if chunk = [] then (Inr output, r')
          else (case u64_checked_add sofar (of_nat (length chunk)) of
              None \<Rightarrow> (Inl (Invalid ''release body size overflow''), r')
            | Some sofar' \<Rightarrow>
                if limit < sofar' then (Inl (Invalid ''release body exceeds limit''), r')
                else read_limited_loop limit sofar' (output @ chunk) r'))"
  by pat_completeness auto
termination
  by (relation "measure (\<lambda>(_, _, _, r). length (r_data r))") auto

declare read_limited_loop.simps [simp del]

definition read_limited :: "u64 \<Rightarrow> (reader, release_error, bytes) comp" where
  "read_limited limit = read_limited_loop limit 0 []"

definition verify_bytes :: "('v, 'z) lib_scheme \<Rightarrow> bytes \<Rightarrow> u64 \<Rightarrow> string \<Rightarrow> release_error + unit" where
  "verify_bytes lib bytes expected_size expected_sha256 =
     (if of_nat (length bytes) \<noteq> expected_size then Inl (Invalid ''size mismatch'')
      else if sha256_bytes lib bytes \<noteq> expected_sha256 then Inl (Invalid ''SHA-256 mismatch'')
      else Inr ())"

lemma verify_bytes_Inr:
  "verify_bytes lib b n h = Inr u \<longleftrightarrow> of_nat (length b) = n \<and> sha256_hex lib b = h"
  by (auto simp: verify_bytes_def sha256_bytes_def split: if_splits)

subsection \<open>Correctness of the loops\<close>

lemma sha256_loop_result:
  "sha256_loop lib fed r =
     (case r_error r of None \<Rightarrow> (Inr (sha256_hex lib (fed @ r_data r)), snd (sha256_loop lib fed r))
      | Some e \<Rightarrow> (Inl e, snd (sha256_loop lib fed r)))"
proof (induction lib fed r rule: sha256_loop.induct)
  case (1 lib fed r)
  obtain x r' where rd: "read BUFFER r = (x, r')" by fastforce
  show ?case
  proof (cases x)
    case (Inl e)
    with rd show ?thesis by (simp add: sha256_loop.simps [of lib fed r] read_error)
  next
    case (Inr c)
    show ?thesis
    proof (cases "c = []")
      case True
      with rd Inr show ?thesis
        using read_empty [of BUFFER r r'] by (simp add: sha256_loop.simps [of lib fed r])
    next
      case False
      from rd Inr have s: "r_data r = c @ r_data r'" "r_error r' = r_error r"
        using read_split by blast+
      have "sha256_loop lib fed r = sha256_loop lib (fed @ c) r'"
        using rd Inr False by (simp add: sha256_loop.simps [of lib fed r])
      with "1.IH" [OF rd [symmetric] Inr False] s show ?thesis
        by (metis append.assoc)
    qed
  qed
qed

lemma sha256_reader_result:
  "fst (sha256_reader lib r) =
     (case r_error r of None \<Rightarrow> Inr (sha256_bytes lib (r_data r)) | Some e \<Rightarrow> Inl e)"
  unfolding sha256_reader_def sha256_bytes_def
  by (subst sha256_loop_result) (simp split: option.split)

lemma read_limited_loop_sound:
  "fst (read_limited_loop limit sofar out r) = Inr b \<Longrightarrow> unat sofar = length out \<Longrightarrow> sofar \<le> limit
   \<Longrightarrow> r_error r = None \<and> b = out @ r_data r \<and> length b \<le> unat limit"
proof (induction limit sofar out r rule: read_limited_loop.induct)
  case (1 limit sofar out r)
  obtain x r' where rd: "read BUFFER r = (x, r')" by fastforce
  from "1.prems"(1) rd obtain c where c: "x = Inr c"
    by (cases x) (auto simp: read_limited_loop.simps [of limit sofar out r])
  show ?case
  proof (cases "c = []")
    case True
    with rd c "1.prems" show ?thesis
      using read_empty [of BUFFER r r']
      by (auto simp: read_limited_loop.simps [of limit sofar out r] word_le_nat_alt)
  next
    case False
    with "1.prems"(1) rd c obtain t where t:
      "u64_checked_add sofar (of_nat (length c)) = Some t" "\<not> limit < t"
      by (auto simp: read_limited_loop.simps [of limit sofar out r] split: option.splits if_splits)
    have "length c < 2 ^ 64"
      using read_length [of BUFFER r c r'] rd c by (simp add: BUFFER_def)
    then have "unat (of_nat (length c) :: u64) = length c"
      by (rule unat_u64_of_nat)
    with t(1) "1.prems"(2) have "unat t = length (out @ c)"
      by (simp add: u64_checked_add_Some)
    moreover have "fst (read_limited_loop limit t (out @ c) r') = Inr b"
      using "1.prems"(1) rd c False t by (simp add: read_limited_loop.simps [of limit sofar out r])
    ultimately have "r_error r' = None \<and> b = (out @ c) @ r_data r' \<and> length b \<le> unat limit"
      using "1.IH" [OF rd [symmetric] c False t] t(2) by (auto simp: not_less)
    then show ?thesis using read_split [of BUFFER r c r'] rd c by auto
  qed
qed

lemma read_limited_loop_complete:
  "r_error r = None \<Longrightarrow> unat sofar = length out \<Longrightarrow> length out + length (r_data r) \<le> unat limit
   \<Longrightarrow> fst (read_limited_loop limit sofar out r) = Inr (out @ r_data r)"
proof (induction limit sofar out r rule: read_limited_loop.induct)
  case (1 limit sofar out r)
  obtain x r' where rd: "read BUFFER r = (x, r')" by fastforce
  from "1.prems"(1) rd obtain c where c: "x = Inr c"
    using read_error [of BUFFER r] by (cases x) auto
  show ?case
  proof (cases "c = []")
    case True
    with rd c show ?thesis
      using read_empty [of BUFFER r r'] by (simp add: read_limited_loop.simps [of limit sofar out r])
  next
    case False
    have s: "r_data r = c @ r_data r'" "r_error r' = None"
      using read_split [of BUFFER r c r'] rd c "1.prems"(1) by auto
    have lt: "unat limit < 2 ^ 64" by (rule unat_u64_less)
    with s "1.prems"(3) have "length c < 2 ^ 64" by simp
    then have lc: "unat (of_nat (length c) :: u64) = length c"
      by (rule unat_u64_of_nat)
    obtain t where t: "u64_checked_add sofar (of_nat (length c)) = Some t"
      using lc lt s "1.prems" by (simp add: u64_checked_add_def)
    have ut: "unat t = length (out @ c)"
      using u64_checked_add_Some [OF t] lc "1.prems"(2) by simp
    have nl: "\<not> limit < t" using ut s "1.prems"(3) by (simp add: word_less_nat_alt)
    have "fst (read_limited_loop limit t (out @ c) r') = Inr ((out @ c) @ r_data r')"
      using "1.IH" [OF rd [symmetric] c False t nl] ut s "1.prems"(3) by simp
    then show ?thesis
      using rd c False t nl s by (simp add: read_limited_loop.simps [of limit sofar out r])
  qed
qed

end
