(* ===== verification/Manifest.thy ===== *)
theory Manifest
  imports Release
begin

text \<open>
  The signed release manifest (\<^verbatim>\<open>src/src/release/manifest.rs\<close>): its data, canonical validation,
  expiry and target selection. \<open>serde_json\<close> and \<open>chrono\<close> are the fields \<open>manifest_of_json\<close>,
  \<open>json_of_manifest\<close> and \<open>parse_rfc3339\<close> of the record \<open>mlib\<close>; an instant is its number of
  nanoseconds since the epoch. \<open>manifest_of_json\<close> is deserialisation by the derived code, with the
  version already canonical or rejected (\<open>deserialize_canonical_version\<close>).
\<close>

record payload_info =
  p_path :: string
  p_sha256 :: string
  p_size :: u64

record launcher_info =
  l_path :: string
  l_sha256 :: string
  l_size :: u64
  l_protocol :: u32

record release_asset =
  a_archive :: string
  a_archive_sha256 :: string
  a_archive_size :: u64
  a_payload :: payload_info
  a_launcher :: "launcher_info option"

text \<open>A \<open>BTreeMap\<close> is its list of entries in key order, each key once: \<open>in_key_order\<close> is the invariant of the
  map's type, which the list type does not express. Loops over the map go through the list.\<close>

record 'v release_manifest =
  m_schema_version :: u32
  m_version :: 'v
  m_published_at :: string
  m_expires_at :: string
  m_targets :: "(target \<times> release_asset) list"

record selected_asset =
  sel_target :: target
  sel_asset :: release_asset

record 'v mlib = "'v lib" +
  manifest_of_json :: "bytes \<Rightarrow> 'v release_manifest option"
  json_of_manifest :: "'v release_manifest \<Rightarrow> bytes"
  parse_rfc3339 :: "string \<Rightarrow> int option"

definition in_key_order :: "'v release_manifest \<Rightarrow> bool" where
  "in_key_order m \<longleftrightarrow> sorted_wrt (<) (map fst (m_targets m))"

text \<open>What the derived serialisation code promises: a manifest it wrote is read back.\<close>

definition manifest_json_ok :: "('v, 'z) mlib_scheme \<Rightarrow> bool" where
  "manifest_json_ok lib \<longleftrightarrow> (\<forall>m. in_key_order m \<longrightarrow> manifest_of_json lib (json_of_manifest lib m) = Some m)"

definition MANIFEST_SCHEMA_VERSION :: u32 where "MANIFEST_SCHEMA_VERSION = 2"

definition EXPIRY_CLOCK_SKEW :: int where "EXPIRY_CLOCK_SKEW = 12 * 3600 * 1000000000"

subsection \<open>Field checks\<close>

definition validate_size :: "u64 \<Rightarrow> u64 \<Rightarrow> release_error + unit" where
  "validate_size n maximum =
     (if n = 0 then Inl (Invalid ''size must be nonzero'')
      else if maximum < n then Inl (Invalid ''size exceeds maximum'')
      else Inr ())"

definition validate_sha256 :: "string \<Rightarrow> release_error + unit" where
  "validate_sha256 value =
     (if length value \<noteq> 64 \<or> \<not> list_all is_lower_hex_digit value
      then Inl (Invalid ''invalid SHA-256: expected 64 lowercase hexadecimal characters'')
      else Inr ())"

definition validate_basename :: "string \<Rightarrow> release_error + unit" where
  "validate_basename value =
     (if value = [] \<or> value = ''.'' \<or> value = ''..'' \<or> CHR ''/'' \<in> set value
        \<or> CHR 0x5C \<in> set value \<or> CHR 0x00 \<in> set value \<or> CHR '':'' \<in> set value
      then Inl (Invalid ''noncanonical name'') else Inr ())"

definition validate_member_path :: "string \<Rightarrow> release_error + unit" where
  "validate_member_path value =
     (if value = [] \<or> prefix ''/'' value \<or> CHR 0x5C \<in> set value \<or> CHR 0x00 \<in> set value
        \<or> (\<exists>part \<in> set (split_on (CHR ''/'') value). part = [] \<or> part = ''.'' \<or> part = ''..'')
      then Inl (Invalid ''noncanonical path'')
      else if CHR '':'' \<in> set (hd (split_on (CHR ''/'') value))
      then Inl (Invalid ''noncanonical path'')
      else Inr ())"

subsection \<open>Assets\<close>

definition asset_new ::
  "('v, 'z) lib_scheme \<Rightarrow> app \<Rightarrow> 'v \<Rightarrow> target \<Rightarrow> u64 \<Rightarrow> string \<Rightarrow> u64 \<Rightarrow> string \<Rightarrow> release_asset" where
  "asset_new lib app v t n sha pn psha =
     \<lparr>a_archive = archive_name lib t app v, a_archive_sha256 = sha, a_archive_size = n,
      a_payload = \<lparr>p_path = payload_path lib t app v, p_sha256 = psha, p_size = pn\<rparr>,
      a_launcher = None\<rparr>"

definition with_launcher ::
  "('v, 'z) lib_scheme \<Rightarrow> release_asset \<Rightarrow> app \<Rightarrow> 'v \<Rightarrow> target \<Rightarrow> u32 \<Rightarrow> u64 \<Rightarrow> string \<Rightarrow> release_asset" where
  "with_launcher lib a app v t protocol n sha =
     (case launcher_path lib t app v of
        None \<Rightarrow> a
      | Some path \<Rightarrow> a\<lparr>a_launcher := Some \<lparr>l_path = path, l_sha256 = sha, l_size = n,
                                          l_protocol = protocol\<rparr>\<rparr>)"

definition validate_launcher ::
  "('v, 'z) lib_scheme \<Rightarrow> app \<Rightarrow> 'v \<Rightarrow> target \<Rightarrow> payload_info \<Rightarrow> launcher_info \<Rightarrow> release_error + unit" where
  "validate_launcher lib app v t p l =
     bindE (ok_orE (launcher_path lib t app v)
              (Invalid ''app does not configure a required Windows launcher'')) (\<lambda>expected.
     bindE (ensureE (l_path l = expected) (Invalid ''noncanonical launcher path'')) (\<lambda>_.
     bindE (ensureE (l_protocol l = (case target_launcher_protocol t app of None \<Rightarrow> 0 | Some n \<Rightarrow> n))
              (Invalid ''unsupported launcher protocol'')) (\<lambda>_.
     bindE (validate_member_path (l_path l)) (\<lambda>_.
     bindE (validate_size (l_size l) MAX_MEMBER_SIZE) (\<lambda>_.
     bindE (validate_sha256 (l_sha256 l)) (\<lambda>_.
     ensureE (l_path l \<noteq> p_path p) (Invalid ''payload and launcher paths must be distinct'')))))))"

definition asset_validate ::
  "('v, 'z) lib_scheme \<Rightarrow> release_asset \<Rightarrow> app \<Rightarrow> 'v \<Rightarrow> target \<Rightarrow> release_error + unit" where
  "asset_validate lib a app v t =
     bindE (ensureE (a_archive a = archive_name lib t app v) (Invalid ''noncanonical archive name'')) (\<lambda>_.
     bindE (validate_basename (a_archive a)) (\<lambda>_.
     bindE (validate_size (a_archive_size a) MAX_ARCHIVE_SIZE) (\<lambda>_.
     bindE (validate_sha256 (a_archive_sha256 a)) (\<lambda>_.
     bindE (ensureE (p_path (a_payload a) = payload_path lib t app v)
              (Invalid ''noncanonical payload path'')) (\<lambda>_.
     bindE (validate_member_path (p_path (a_payload a))) (\<lambda>_.
     bindE (validate_size (p_size (a_payload a)) MAX_MEMBER_SIZE) (\<lambda>_.
     bindE (validate_sha256 (p_sha256 (a_payload a))) (\<lambda>_.
     (case (is_windows t, a_launcher a) of
        (True, Some l) \<Rightarrow> validate_launcher lib app v t (a_payload a) l
      | (True, None) \<Rightarrow> Inl (Invalid ''Windows release asset is missing its protocol-1 launcher'')
      | (False, Some _) \<Rightarrow> Inl (Invalid ''non-Windows release asset must not contain a launcher'')
      | (False, None) \<Rightarrow> Inr ())))))))))"

subsection \<open>The manifest\<close>

text \<open>The loop over the targets; \<open>seen\<close> is the source's hash set.\<close>

fun validate_targets ::
  "('v, 'z) lib_scheme \<Rightarrow> app \<Rightarrow> 'v \<Rightarrow> target list \<Rightarrow> (target \<times> release_asset) list
   \<Rightarrow> release_error + unit" where
  "validate_targets lib app v seen [] = Inr ()"
| "validate_targets lib app v seen ((t, a) # rest) =
     (if t \<in> set seen then Inl (Invalid ''duplicate release target'')
      else bindE (asset_validate lib a app v t) (\<lambda>_. validate_targets lib app v (t # seen) rest))"

definition manifest_validate ::
  "('v, 'z) mlib_scheme \<Rightarrow> 'v release_manifest \<Rightarrow> app \<Rightarrow> release_error + unit" where
  "manifest_validate lib m app =
     bindE (ensureE (m_schema_version m = MANIFEST_SCHEMA_VERSION)
              (Invalid ''unsupported release manifest schema_version'')) (\<lambda>_.
     bindE (ensureE (version_string lib (m_version m) \<noteq> []) (Invalid ''release manifest version is empty'')) (\<lambda>_.
     bindE (ok_orE (parse_rfc3339 lib (m_published_at m))
              (Invalid ''invalid published_at RFC3339 timestamp'')) (\<lambda>_.
     bindE (ok_orE (parse_rfc3339 lib (m_expires_at m))
              (Invalid ''invalid expires_at RFC3339 timestamp'')) (\<lambda>_.
     bindE (ensureE (m_targets m \<noteq> []) (Invalid ''release manifest must contain at least one target'')) (\<lambda>_.
     bindE (ensureE (length (m_targets m) \<le> length all_targets)
              (Invalid ''release manifest contains too many targets'')) (\<lambda>_.
     validate_targets lib app (m_version m) [] (m_targets m)))))))"

definition manifest_new ::
  "('v, 'z) mlib_scheme \<Rightarrow> app \<Rightarrow> 'v \<Rightarrow> string \<Rightarrow> string \<Rightarrow> (target \<times> release_asset) list
   \<Rightarrow> release_error + 'v release_manifest" where
  "manifest_new lib app v pub expi ts =
     (let m = \<lparr>m_schema_version = MANIFEST_SCHEMA_VERSION, m_version = v, m_published_at = pub,
               m_expires_at = expi, m_targets = ts\<rparr>
      in bindE (manifest_validate lib m app) (\<lambda>_. Inr m))"

definition manifest_from_bytes ::
  "('v, 'z) mlib_scheme \<Rightarrow> app \<Rightarrow> bytes \<Rightarrow> release_error + 'v release_manifest" where
  "manifest_from_bytes lib app b =
     bindE (ensureE (length b \<le> MAX_METADATA_SIZE) (Invalid ''release manifest exceeds limit'')) (\<lambda>_.
     bindE (ok_orE (manifest_of_json lib b) Json) (\<lambda>m.
     bindE (manifest_validate lib m app) (\<lambda>_. Inr m)))"

definition manifest_to_bytes ::
  "('v, 'z) mlib_scheme \<Rightarrow> 'v release_manifest \<Rightarrow> app \<Rightarrow> release_error + bytes" where
  "manifest_to_bytes lib m app =
     bindE (manifest_validate lib m app) (\<lambda>_. Inr (json_of_manifest lib m))"

definition ensure_not_expired :: "('v, 'z) mlib_scheme \<Rightarrow> 'v release_manifest \<Rightarrow> int \<Rightarrow> release_error + unit" where
  "ensure_not_expired lib m now =
     bindE (ok_orE (parse_rfc3339 lib (m_expires_at m)) (Invalid ''invalid expires_at RFC3339 timestamp'')) (\<lambda>e.
     if e < now - EXPIRY_CLOCK_SKEW then Inl (Invalid ''release manifest has expired'') else Inr ())"

definition asset_for ::
  "('v, 'z) mlib_scheme \<Rightarrow> 'v release_manifest \<Rightarrow> app \<Rightarrow> target \<Rightarrow> release_error + selected_asset" where
  "asset_for lib m app t =
     bindE (manifest_validate lib m app) (\<lambda>_.
     bindE (ok_orE (map_of (m_targets m) t) (Invalid ''release has no asset for target'')) (\<lambda>a.
     Inr \<lparr>sel_target = t, sel_asset = a\<rparr>))"

subsection \<open>Field checks: what they accept\<close>

definition lower_sha256 :: "string \<Rightarrow> bool" where
  "lower_sha256 s \<longleftrightarrow> length s = 64 \<and> list_all is_lower_hex_digit s"

lemma validate_size_Inr [simp]: "validate_size n m = Inr u \<longleftrightarrow> n \<noteq> 0 \<and> n \<le> m"
  by (auto simp: validate_size_def)

lemma validate_sha256_Inr [simp]: "validate_sha256 s = Inr u \<longleftrightarrow> lower_sha256 s"
  by (auto simp: validate_sha256_def lower_sha256_def)

text \<open>A member path that stays below its root: no empty, dot or dot-dot component, no drive letter.\<close>

definition safe_member_path :: "string \<Rightarrow> bool" where
  "safe_member_path s \<longleftrightarrow> s \<noteq> [] \<and> CHR 0x5C \<notin> set s \<and> CHR 0x00 \<notin> set s
     \<and> (\<forall>c \<in> set (split_on (CHR ''/'') s). c \<noteq> [] \<and> c \<noteq> ''.'' \<and> c \<noteq> ''..'')
     \<and> CHR '':'' \<notin> set (hd (split_on (CHR ''/'') s))"

lemma absolute_first_empty: "prefix [c] s \<Longrightarrow> [] \<in> set (split_on c s)"
  by (cases s) auto

lemma validate_member_path_Inr [simp]: "validate_member_path s = Inr u \<longleftrightarrow> safe_member_path s"
  using absolute_first_empty [of "CHR ''/''" s]
  by (auto simp: validate_member_path_def safe_member_path_def)

lemma validate_targets_Inr:
  "validate_targets lib app v seen ts = Inr u \<longleftrightarrow>
     distinct (map fst ts) \<and> set (map fst ts) \<inter> set seen = {}
     \<and> (\<forall>(t, a) \<in> set ts. asset_validate lib a app v t = Inr ())"
  by (induction lib app v seen ts rule: validate_targets.induct) auto

text \<open>What a canonical asset is, as one predicate.\<close>

definition canonical_asset :: "('v, 'z) lib_scheme \<Rightarrow> app \<Rightarrow> 'v \<Rightarrow> target \<Rightarrow> release_asset \<Rightarrow> bool" where
  "canonical_asset lib app v t a \<longleftrightarrow>
     a_archive a = archive_name lib t app v \<and> p_path (a_payload a) = payload_path lib t app v
     \<and> safe_member_path (p_path (a_payload a)) \<and> validate_basename (a_archive a) = Inr ()
     \<and> 0 < a_archive_size a \<and> a_archive_size a \<le> MAX_ARCHIVE_SIZE \<and> lower_sha256 (a_archive_sha256 a)
     \<and> 0 < p_size (a_payload a) \<and> p_size (a_payload a) \<le> MAX_MEMBER_SIZE
     \<and> lower_sha256 (p_sha256 (a_payload a))
     \<and> (case a_launcher a of None \<Rightarrow> \<not> is_windows t
        | Some l \<Rightarrow> is_windows t \<and> launcher_path lib t app v = Some (l_path l)
            \<and> l_protocol l = (case launcher_protocol app of None \<Rightarrow> 0 | Some n \<Rightarrow> n)
            \<and> safe_member_path (l_path l) \<and> 0 < l_size l \<and> l_size l \<le> MAX_MEMBER_SIZE
            \<and> lower_sha256 (l_sha256 l) \<and> l_path l \<noteq> p_path (a_payload a))"

lemma word_pos_iff: "(n :: u64) \<noteq> 0 \<longleftrightarrow> 0 < n"
  by (simp add: word_neq_0_conv)

lemma validate_launcher_Inr:
  "validate_launcher lib app v t p l = Inr u \<longleftrightarrow>
     launcher_path lib t app v = Some (l_path l)
     \<and> l_protocol l = (case target_launcher_protocol t app of None \<Rightarrow> 0 | Some n \<Rightarrow> n)
     \<and> safe_member_path (l_path l) \<and> 0 < l_size l \<and> l_size l \<le> MAX_MEMBER_SIZE
     \<and> lower_sha256 (l_sha256 l) \<and> l_path l \<noteq> p_path p"
  by (auto simp: validate_launcher_def word_pos_iff)

lemma asset_validate_Inr: "asset_validate lib a app v t = Inr u \<longleftrightarrow> canonical_asset lib app v t a"
  by (cases "is_windows t"; cases "a_launcher a")
    (auto simp: asset_validate_def canonical_asset_def validate_launcher_Inr word_pos_iff
      target_launcher_protocol_def)

lemma manifest_validate_Inr:
  "manifest_validate lib m app = Inr u \<longleftrightarrow>
     m_schema_version m = 2 \<and> version_string lib (m_version m) \<noteq> []
     \<and> parse_rfc3339 lib (m_published_at m) \<noteq> None \<and> parse_rfc3339 lib (m_expires_at m) \<noteq> None
     \<and> m_targets m \<noteq> [] \<and> length (m_targets m) \<le> 5 \<and> distinct (map fst (m_targets m))
     \<and> (\<forall>(t, a) \<in> set (m_targets m). canonical_asset lib app (m_version m) t a)"
  by (auto simp: manifest_validate_def validate_targets_Inr asset_validate_Inr all_targets_def
      MANIFEST_SCHEMA_VERSION_def)

lemma asset_for_Inr:
  "asset_for lib m app t = Inr s \<longleftrightarrow>
     manifest_validate lib m app = Inr () \<and> sel_target s = t
     \<and> map_of (m_targets m) t = Some (sel_asset s)"
  by (cases s) (auto simp: asset_for_def)

lemma asset_for_canonical:
  "asset_for lib m app t = Inr s \<Longrightarrow> canonical_asset lib app (m_version m) t (sel_asset s)"
  by (auto simp: asset_for_Inr manifest_validate_Inr dest!: map_of_SomeD)

lemma manifest_from_bytes_Inr:
  "manifest_from_bytes lib app b = Inr m \<longleftrightarrow>
     length b \<le> MAX_METADATA_SIZE \<and> manifest_of_json lib b = Some m \<and> manifest_validate lib m app = Inr ()"
  by (auto simp: manifest_from_bytes_def)

lemma ensure_not_expired_Inr:
  "ensure_not_expired lib m now = Inr u \<longleftrightarrow>
     (\<exists>e. parse_rfc3339 lib (m_expires_at m) = Some e \<and> now - EXPIRY_CLOCK_SKEW \<le> e)"
  by (auto simp: ensure_not_expired_def bindE_def ok_orE_def split: option.splits if_splits)

lemma manifest_roundtrip:
  assumes "manifest_json_ok lib" and "in_key_order m" and "manifest_validate lib m app = Inr ()"
    and "length (json_of_manifest lib m) \<le> MAX_METADATA_SIZE"
  shows "manifest_from_bytes lib app (json_of_manifest lib m) = Inr m"
  using assms by (simp add: manifest_from_bytes_def manifest_json_ok_def)

subsection \<open>Assets built for a release are canonical\<close>

lemma root_name_chars:
  assumes "semver_ok lib" and "validate_basename (app_name app) = Inr ()"
  shows "set (target_root_name lib t app v) \<inter> {CHR ''/'', CHR 0x5C, CHR 0x00, CHR '':''} = {}"
    and "CHR ''-'' \<in> set (target_root_name lib t app v)"
  using assms(2) semver_okD(3) [OF assms(1), of _ v] as_str_chars [of _ t]
  by (fastforce simp: target_root_name_def root_name_def validate_basename_def split: if_splits)+

lemma root_member_safe:
  assumes "semver_ok lib" and "validate_basename (app_name app) = Inr ()" and "validate_basename n = Inr ()"
  shows "safe_member_path (target_root_name lib t app v @ ''/'' @ n)"
proof -
  let ?r = "target_root_name lib t app v"
  have parts: "split_on (CHR ''/'') (?r @ ''/'' @ n) = [?r, n]"
    using root_name_chars(1) [OF assms(1,2)] assms(3)
    by (simp add: split_on_append split_on_no_sep validate_basename_def split: if_splits)
  have "?r \<noteq> []" "?r \<noteq> ''.''" "?r \<noteq> ''..''" using root_name_chars(2) [OF assms(1,2), of t v] by auto
  then show ?thesis
    unfolding safe_member_path_def parts using root_name_chars(1) [OF assms(1,2), of t v] assms(3)
    by (auto simp: validate_basename_def split: if_splits)
qed

lemma archive_name_plain:
  assumes "semver_ok lib" and "validate_basename (app_name app) = Inr ()"
  shows "validate_basename (archive_name lib t app v) = Inr ()"
proof -
  let ?r = "target_root_name lib t app v"
  have "?r @ s \<noteq> []" "?r @ s \<noteq> ''.''" "?r @ s \<noteq> ''..''" for s
    using root_name_chars(2) [OF assms, of t v] by (auto simp: append_eq_Cons_conv)
  then show ?thesis
    using root_name_chars(1) [OF assms, of t v]
    by (auto simp: validate_basename_def archive_name_def archive_suffix_def)
qed

lemma payload_name_plain:
  "validate_basename (app_name app) = Inr () \<Longrightarrow> validate_basename (target_payload_name t app) = Inr ()"
  by (auto simp: validate_basename_def target_payload_name_def payload_name_def append_eq_Cons_conv split: if_splits)

lemma built_asset_canonical:
  assumes lib: "semver_ok lib" and name: "validate_basename (app_name app) = Inr ()"
    and launcher: "is_windows t \<Longrightarrow> \<exists>l. app_activation app = WindowsLauncher l protocol
      \<and> validate_basename l = Inr () \<and> l \<noteq> app_name app @ ''.exe''"
    and sizes: "0 < n" "n \<le> MAX_ARCHIVE_SIZE" "0 < pn" "pn \<le> MAX_MEMBER_SIZE" "0 < ln" "ln \<le> MAX_MEMBER_SIZE"
    and digests: "lower_sha256 sha" "lower_sha256 psha" "lower_sha256 lsha"
  shows "canonical_asset lib app v t (with_launcher lib (asset_new lib app v t n sha pn psha) app v t protocol ln lsha)"
proof (cases "is_windows t")
  case True
  from launcher [OF this] obtain l where l: "app_activation app = WindowsLauncher l protocol"
    "validate_basename l = Inr ()" "l \<noteq> app_name app @ ''.exe''" by blast
  have path: "launcher_path lib t app v = Some (target_root_name lib t app v @ ''/'' @ l)"
    using True l(1) by (simp add: launcher_path_def target_launcher_name_def launcher_name_def)
  show ?thesis
    using sizes digests True l archive_name_plain [OF lib name, of t v] root_member_safe [OF lib name l(2), of t v]
      root_member_safe [OF lib name payload_name_plain [OF name], of t v t]
    by (simp add: canonical_asset_def with_launcher_def path asset_new_def payload_path_def target_payload_name_def
        payload_name_def launcher_protocol_def)
next
  case False
  then show ?thesis
    using sizes digests archive_name_plain [OF lib name, of t v] root_member_safe [OF lib name payload_name_plain [OF name], of t v t]
    by (simp add: canonical_asset_def with_launcher_def launcher_path_def target_launcher_name_def asset_new_def payload_path_def)
qed

end
