(* ===== verification/Signature.thy ===== *)
theory Signature
  imports Manifest
begin

text \<open>
  Detached Ed25519 signatures over the exact manifest bytes
  (\<^verbatim>\<open>src/src/release/signature.rs\<close>). Base64, Ed25519 and JSON are fields of the record \<open>slib\<close>:
  \<open>verifying_key\<close> is \<open>VerifyingKey::from_bytes\<close> (the bytes stand for the key it returns),
  \<open>verify_strict key message signature\<close> is strict verification, \<open>sign\<close> signs with a secret key.
\<close>

record signature_entry =
  e_key_id :: string
  e_algorithm :: string
  e_signature :: string

record signature_envelope =
  env_schema_version :: u32
  env_signatures :: "signature_entry list"

record trusted_key =
  k_id :: string
  k_algorithm :: string
  k_public_key :: string

record trusted_key_set =
  ks_schema_version :: u32
  ks_keys :: "trusted_key list"

record 'v slib = "'v mlib" +
  base64_decode :: "string \<Rightarrow> bytes option"
  base64_encode :: "bytes \<Rightarrow> string"
  verifying_key :: "bytes \<Rightarrow> bool"
  verify_strict :: "bytes \<Rightarrow> bytes \<Rightarrow> bytes \<Rightarrow> bool"
  sign :: "bytes \<Rightarrow> bytes \<Rightarrow> bytes"
  public_of :: "bytes \<Rightarrow> bytes"
  envelope_of_json :: "bytes \<Rightarrow> signature_envelope option"
  json_of_envelope :: "signature_envelope \<Rightarrow> bytes"
  key_set_of_json :: "bytes \<Rightarrow> trusted_key_set option"

text \<open>
  Documented behaviour used by the signing round trip: base64 and JSON invert, a signature made
  with a secret key has 64 bytes and verifies under its public key, which has 32 bytes.
\<close>

definition crypto_ok :: "('v, 'z) slib_scheme \<Rightarrow> bool" where
  "crypto_ok lib \<longleftrightarrow>
     (\<forall>b. base64_decode lib (base64_encode lib b) = Some b)
     \<and> (\<forall>e. envelope_of_json lib (json_of_envelope lib e) = Some e)
     \<and> (\<forall>sk msg. length (sign lib sk msg) = 64 \<and> verify_strict lib (public_of lib sk) msg (sign lib sk msg))
     \<and> (\<forall>sk. length (public_of lib sk) = 32 \<and> verifying_key lib (public_of lib sk))"

definition SIGNATURE_SCHEMA_VERSION :: u32 where "SIGNATURE_SCHEMA_VERSION = 1"

definition ED25519_ALGORITHM :: string where "ED25519_ALGORITHM = ''ed25519''"

lemma ED25519_nonempty [simp]: "ED25519_ALGORITHM \<noteq> []"
  by (simp add: ED25519_ALGORITHM_def)

subsection \<open>The envelope\<close>

definition envelope_new :: "signature_entry list \<Rightarrow> signature_envelope" where
  "envelope_new sigs = \<lparr>env_schema_version = SIGNATURE_SCHEMA_VERSION, env_signatures = sigs\<rparr>"

fun check_entries :: "string list \<Rightarrow> signature_entry list \<Rightarrow> release_error + unit" where
  "check_entries seen [] = Inr ()"
| "check_entries seen (e # es) =
     (if e_key_id e = [] \<or> e_algorithm e = [] \<or> e_key_id e \<in> set seen
      then Inl (Invalid ''signature entries must have unique nonempty key ids and values'')
      else check_entries (e_key_id e # seen) es)"

definition envelope_from_bytes :: "('v, 'z) slib_scheme \<Rightarrow> bytes \<Rightarrow> release_error + signature_envelope" where
  "envelope_from_bytes lib b =
     bindE (ensureE (length b \<le> MAX_METADATA_SIZE) (Invalid ''release signature envelope exceeds limit'')) (\<lambda>_.
     bindE (ok_orE (envelope_of_json lib b) Json) (\<lambda>env.
     bindE (ensureE (env_schema_version env = SIGNATURE_SCHEMA_VERSION)
              (Invalid ''unsupported release signature schema_version'')) (\<lambda>_.
     bindE (ensureE (env_signatures env \<noteq> [])
              (Invalid ''release signature envelope contains no signatures'')) (\<lambda>_.
     bindE (check_entries [] (env_signatures env)) (\<lambda>_. Inr env)))))"

definition envelope_to_bytes :: "('v, 'z) slib_scheme \<Rightarrow> signature_envelope \<Rightarrow> release_error + bytes" where
  "envelope_to_bytes lib env =
     (if env_schema_version env \<noteq> SIGNATURE_SCHEMA_VERSION \<or> env_signatures env = []
      then Inl (Invalid ''invalid release signature envelope'')
      else Inr (json_of_envelope lib env))"

subsection \<open>Trusted keys\<close>

definition trusted_key_ed25519 :: "('v, 'z) slib_scheme \<Rightarrow> string \<Rightarrow> bytes \<Rightarrow> trusted_key" where
  "trusted_key_ed25519 lib i pk =
     \<lparr>k_id = i, k_algorithm = ED25519_ALGORITHM, k_public_key = base64_encode lib pk\<rparr>"

definition from_public_key_bytes :: "('v, 'z) slib_scheme \<Rightarrow> string \<Rightarrow> bytes \<Rightarrow> release_error + trusted_key" where
  "from_public_key_bytes lib i pk =
     (if length pk \<noteq> 32 then Inl (Invalid ''Ed25519 public keys must contain 32 bytes'')
      else Inr (trusted_key_ed25519 lib i pk))"

definition decode_public_key :: "('v, 'z) slib_scheme \<Rightarrow> trusted_key \<Rightarrow> release_error + bytes" where
  "decode_public_key lib key =
     bindE (ok_orE (base64_decode lib (k_public_key key)) (Invalid ''invalid trusted key'')) (\<lambda>b.
     bindE (ensureE (length b = 32) (Invalid ''trusted Ed25519 key is not 32 bytes'')) (\<lambda>_.
     if verifying_key lib b then Inr b else Inl (Invalid ''invalid trusted Ed25519 key'')))"

fun check_keys :: "('v, 'z) slib_scheme \<Rightarrow> string list \<Rightarrow> trusted_key list \<Rightarrow> release_error + unit" where
  "check_keys lib seen [] = Inr ()"
| "check_keys lib seen (k # ks) =
     (if k_id k = [] \<or> k_id k \<in> set seen
      then Inl (Invalid ''trusted release key ids must be nonempty and unique'')
      else if k_algorithm k = ED25519_ALGORITHM
      then bindE (decode_public_key lib k) (\<lambda>_. check_keys lib (k_id k # seen) ks)
      else check_keys lib (k_id k # seen) ks)"

definition key_set_from_bytes :: "('v, 'z) slib_scheme \<Rightarrow> bytes \<Rightarrow> release_error + trusted_key_set" where
  "key_set_from_bytes lib b =
     bindE (ok_orE (key_set_of_json lib b) Json) (\<lambda>ks.
     bindE (ensureE (ks_schema_version ks = SIGNATURE_SCHEMA_VERSION)
              (Invalid ''unsupported trusted-key schema_version'')) (\<lambda>_.
     bindE (check_keys lib [] (ks_keys ks)) (\<lambda>_. Inr ks)))"

definition has_ed25519_key :: "trusted_key_set \<Rightarrow> bool" where
  "has_ed25519_key ks = list_ex (\<lambda>k. k_algorithm k = ED25519_ALGORITHM) (ks_keys ks)"

subsection \<open>Verification\<close>

text \<open>
  One envelope entry against the trusted keys: every failure to decode is the source's
  \<open>continue\<close>, so the result is only whether this entry validates the manifest.
\<close>

definition find_key :: "trusted_key list \<Rightarrow> string \<Rightarrow> trusted_key option" where
  "find_key keys i = find (\<lambda>k. k_id k = i \<and> k_algorithm k = ED25519_ALGORITHM) keys"

definition entry_verifies :: "('v, 'z) slib_scheme \<Rightarrow> bytes \<Rightarrow> trusted_key list \<Rightarrow> signature_entry \<Rightarrow> bool" where
  "entry_verifies lib manifest keys e =
     (if e_algorithm e \<noteq> ED25519_ALGORITHM then False
      else (case find_key keys (e_key_id e) of None \<Rightarrow> False | Some key \<Rightarrow>
        (case decode_public_key lib key of Inl _ \<Rightarrow> False | Inr pk \<Rightarrow>
        (case base64_decode lib (e_signature e) of None \<Rightarrow> False | Some sig \<Rightarrow>
           length sig = 64 \<and> verify_strict lib pk manifest sig))))"

text \<open>\<open>VerifiedSignature\<close> is the key id it carries.\<close>

definition verify_manifest_with_keys ::
  "('v, 'z) slib_scheme \<Rightarrow> bytes \<Rightarrow> bytes \<Rightarrow> trusted_key list \<Rightarrow> release_error + string" where
  "verify_manifest_with_keys lib manifest sigs keys =
     bindE (ensureE (keys \<noteq> []) TrustAnchorNotConfigured) (\<lambda>_.
     bindE (ensureE (has_ed25519_key \<lparr>ks_schema_version = SIGNATURE_SCHEMA_VERSION, ks_keys = keys\<rparr>)
              TrustAnchorNotConfigured) (\<lambda>_.
     bindE (envelope_from_bytes lib sigs) (\<lambda>env.
     (case find (entry_verifies lib manifest keys) (env_signatures env) of
        Some e \<Rightarrow> Inr (e_key_id e)
      | None \<Rightarrow> Inl (Invalid ''no trusted Ed25519 signature validates the release manifest'')))))"

definition verify_manifest :: "('v, 'z) slib_scheme \<Rightarrow> app \<Rightarrow> bytes \<Rightarrow> bytes \<Rightarrow> release_error + string" where
  "verify_manifest lib app manifest sigs =
     bindE (key_set_from_bytes lib (app_trust_anchor app)) (\<lambda>ks.
     verify_manifest_with_keys lib manifest sigs (ks_keys ks))"

subsection \<open>Signing\<close>

fun sign_entries ::
  "('v, 'z) slib_scheme \<Rightarrow> bytes \<Rightarrow> string list \<Rightarrow> (string \<times> bytes) list \<Rightarrow> signature_entry list" where
  "sign_entries lib manifest seen [] = []"
| "sign_entries lib manifest seen ((i, sk) # ks) =
     (if i = [] \<or> i \<in> set seen then sign_entries lib manifest seen ks
      else \<lparr>e_key_id = i, e_algorithm = ED25519_ALGORITHM,
            e_signature = base64_encode lib (sign lib sk manifest)\<rparr>
           # sign_entries lib manifest (i # seen) ks)"

definition sign_manifest_multi ::
  "('v, 'z) slib_scheme \<Rightarrow> bytes \<Rightarrow> (string \<times> bytes) list \<Rightarrow> signature_envelope" where
  "sign_manifest_multi lib manifest ks = envelope_new (sign_entries lib manifest [] ks)"

definition sign_manifest :: "('v, 'z) slib_scheme \<Rightarrow> bytes \<Rightarrow> string \<Rightarrow> bytes \<Rightarrow> signature_envelope" where
  "sign_manifest lib manifest i sk = sign_manifest_multi lib manifest [(i, sk)]"

definition sign_manifest_bytes ::
  "('v, 'z) slib_scheme \<Rightarrow> bytes \<Rightarrow> string \<Rightarrow> bytes \<Rightarrow> release_error + bytes" where
  "sign_manifest_bytes lib manifest i sk = envelope_to_bytes lib (sign_manifest lib manifest i sk)"

subsection \<open>Lemmas\<close>

lemma check_entries_Inr:
  "check_entries seen es = Inr u \<longleftrightarrow>
     (\<forall>e \<in> set es. e_key_id e \<noteq> [] \<and> e_algorithm e \<noteq> [] \<and> e_key_id e \<notin> set seen)
     \<and> distinct (map e_key_id es)"
  by (induction seen es rule: check_entries.induct) (auto simp: image_iff)

lemma envelope_from_bytes_Inr:
  "envelope_from_bytes lib b = Inr env \<longleftrightarrow>
     length b \<le> MAX_METADATA_SIZE \<and> envelope_of_json lib b = Some env
     \<and> env_schema_version env = SIGNATURE_SCHEMA_VERSION \<and> env_signatures env \<noteq> []
     \<and> (\<forall>e \<in> set (env_signatures env). e_key_id e \<noteq> [] \<and> e_algorithm e \<noteq> [])
     \<and> distinct (map e_key_id (env_signatures env))"
  by (auto simp: envelope_from_bytes_def check_entries_Inr)

lemma decode_public_key_Inr:
  "decode_public_key lib k = Inr pk \<longleftrightarrow>
     base64_decode lib (k_public_key k) = Some pk \<and> length pk = 32 \<and> verifying_key lib pk"
  by (auto simp: decode_public_key_def split: if_splits)

lemma check_keys_Inr:
  "check_keys lib seen ks = Inr u \<longleftrightarrow>
     (\<forall>k \<in> set ks. k_id k \<noteq> [] \<and> k_id k \<notin> set seen
        \<and> (k_algorithm k = ED25519_ALGORITHM \<longrightarrow> is_ok (decode_public_key lib k)))
     \<and> distinct (map k_id ks)"
  by (induction lib seen ks rule: check_keys.induct) (auto simp: is_ok_iff image_iff)

lemma find_Some: "find P xs = Some x \<Longrightarrow> x \<in> set xs \<and> P x"
  by (auto simp: find_Some_iff)

lemma entry_verifies_iff:
  "entry_verifies lib m keys e \<longleftrightarrow>
     e_algorithm e = ED25519_ALGORITHM
     \<and> (\<exists>k pk sig. find_key keys (e_key_id e) = Some k \<and> decode_public_key lib k = Inr pk
          \<and> base64_decode lib (e_signature e) = Some sig \<and> length sig = 64
          \<and> verify_strict lib pk m sig)"
  by (auto simp: entry_verifies_def split: option.splits sum.splits)

lemma verify_with_keys_Inr:
  "verify_manifest_with_keys lib m sigs keys = Inr i \<longleftrightarrow>
     keys \<noteq> [] \<and> has_ed25519_key \<lparr>ks_schema_version = SIGNATURE_SCHEMA_VERSION, ks_keys = keys\<rparr>
     \<and> (\<exists>env e. envelope_from_bytes lib sigs = Inr env
          \<and> find (entry_verifies lib m keys) (env_signatures env) = Some e \<and> e_key_id e = i)"
  by (auto simp: verify_manifest_with_keys_def split: option.splits)

lemma find_key_Some:
  "find_key keys i = Some k \<Longrightarrow> k \<in> set keys \<and> k_id k = i \<and> k_algorithm k = ED25519_ALGORITHM"
  unfolding find_key_def by (drule find_Some) auto

end
