(* ===== verification/Sample.thy ===== *)
theory Sample
  imports Signature
begin

text \<open>
  Concrete third-party operations, on which the witnesses evaluate the theorems: versions
  \<^verbatim>\<open>1.0.n\<close>, a self-delimiting document format in the place of JSON, a toy hash and a toy signature
  scheme. They only show that the hypotheses on the parameters can hold together.
\<close>

subsection \<open>Decimal numerals\<close>

lemma of_char_digit: "n < 10 \<Longrightarrow> (of_char (char_of (48 + n) :: char) :: nat) = 48 + n"
  by simp

lemma digits_value_snoc: "digits_value (s @ [c]) = 10 * digits_value s + ((of_char c :: nat) - 48)"
  by (simp add: digits_value_def)

lemma digits_value_decimal: "digits_value (decimal n) = n"
proof (induction n rule: decimal.induct)
  case (1 n)
  show ?case
  proof (cases "n < 10")
    case True
    then have "digits_value (decimal n) = digits_value ([] @ [char_of (48 + n)])"
      by (subst decimal.simps) simp
    with True show ?thesis
      by (simp only: digits_value_snoc of_char_digit) (simp add: digits_value_def)
  next
    case False
    then have "digits_value (decimal n) = 10 * (n div 10) + (48 + n mod 10 - 48)"
      using 1 by (subst decimal.simps) (simp add: digits_value_snoc)
    then show ?thesis by simp
  qed
qed

lemma decimal_digits: "list_all is_ascii_digit (decimal n)"
proof (induction n rule: decimal.induct)
  case (1 n)
  then show ?case
    by (cases "n < 10") (simp_all add: decimal.simps [of n] is_ascii_digit_def)
qed

subsection \<open>Self-delimiting codes\<close>

type_synonym 'a codec = "('a \<Rightarrow> bytes) \<times> (bytes \<Rightarrow> ('a \<times> bytes) option)"

definition codec_ok :: "'a codec \<Rightarrow> bool" where
  "codec_ok c \<longleftrightarrow> (\<forall>x r. snd c (fst c x @ r) = Some (x, r))"

definition encode :: "'a codec \<Rightarrow> 'a \<Rightarrow> bytes" where
  "encode c x = fst c x"

definition decode :: "'a codec \<Rightarrow> bytes \<Rightarrow> 'a option" where
  "decode c b = (case snd c b of Some (x, []) \<Rightarrow> Some x | _ \<Rightarrow> None)"

lemma decode_encode: "codec_ok c \<Longrightarrow> decode c (encode c x) = Some x"
proof -
  assume "codec_ok c"
  then have "snd c (fst c x @ []) = Some (x, [])" unfolding codec_ok_def by blast
  then show ?thesis by (simp add: decode_def encode_def)
qed

fun dec_nat :: "bytes \<Rightarrow> (nat \<times> bytes) option" where
  "dec_nat [] = None"
| "dec_nat (c # s) = (if c = CHR ''1'' then map_option (\<lambda>(n, r). (Suc n, r)) (dec_nat s) else Some (0, s))"

definition nat_codec :: "nat codec" where
  "nat_codec = (\<lambda>n. replicate n (CHR ''1'') @ ''0'', dec_nat)"

lemma nat_codec_ok: "codec_ok nat_codec"
proof -
  have "dec_nat (replicate n (CHR ''1'') @ CHR ''0'' # r) = Some (n, r)" for n r
    by (induction n) auto
  then show ?thesis by (simp add: codec_ok_def nat_codec_def)
qed

definition string_codec :: "string codec" where
  "string_codec = (\<lambda>s. fst nat_codec (length s) @ s,
     \<lambda>b. case dec_nat b of None \<Rightarrow> None
         | Some (n, r) \<Rightarrow> if n \<le> length r then Some (take n r, drop n r) else None)"

lemma string_codec_ok: "codec_ok string_codec"
  using nat_codec_ok unfolding codec_ok_def string_codec_def nat_codec_def by simp

definition pair_codec :: "'a codec \<Rightarrow> 'b codec \<Rightarrow> ('a \<times> 'b) codec" where
  "pair_codec c d = (\<lambda>(x, y). fst c x @ fst d y,
     \<lambda>b. case snd c b of None \<Rightarrow> None | Some (x, r) \<Rightarrow>
         (case snd d r of None \<Rightarrow> None | Some (y, r') \<Rightarrow> Some ((x, y), r')))"

lemma pair_codec_ok: "codec_ok c \<Longrightarrow> codec_ok d \<Longrightarrow> codec_ok (pair_codec c d)"
  by (simp add: codec_ok_def pair_codec_def)

definition iso_codec :: "('a \<Rightarrow> 'b) \<Rightarrow> ('b \<Rightarrow> 'a) \<Rightarrow> 'b codec \<Rightarrow> 'a codec" where
  "iso_codec f g c = (\<lambda>x. fst c (f x), \<lambda>b. map_option (\<lambda>(y, r). (g y, r)) (snd c b))"

lemma iso_codec_ok: "codec_ok c \<Longrightarrow> (\<And>x. g (f x) = x) \<Longrightarrow> codec_ok (iso_codec f g c)"
  by (simp add: codec_ok_def iso_codec_def)

fun dec_many :: "(bytes \<Rightarrow> ('a \<times> bytes) option) \<Rightarrow> nat \<Rightarrow> bytes \<Rightarrow> ('a list \<times> bytes) option" where
  "dec_many d 0 b = Some ([], b)"
| "dec_many d (Suc n) b = (case d b of None \<Rightarrow> None
     | Some (x, r) \<Rightarrow> map_option (\<lambda>(xs, r'). (x # xs, r')) (dec_many d n r))"

definition list_codec :: "'a codec \<Rightarrow> 'a list codec" where
  "list_codec c = (\<lambda>xs. fst nat_codec (length xs) @ concat (map (fst c) xs),
     \<lambda>b. case dec_nat b of None \<Rightarrow> None | Some (n, r) \<Rightarrow> dec_many (snd c) n r)"

lemma list_codec_ok:
  assumes "codec_ok c"
  shows "codec_ok (list_codec c)"
proof -
  have "dec_many (snd c) (length xs) (concat (map (fst c) xs) @ r) = Some (xs, r)" for xs r
    using assms by (induction xs) (simp_all add: codec_ok_def)
  then show ?thesis
    using nat_codec_ok unfolding codec_ok_def list_codec_def nat_codec_def by simp
qed

definition option_codec :: "'a codec \<Rightarrow> 'a option codec" where
  "option_codec c = iso_codec (\<lambda>x. case x of None \<Rightarrow> [] | Some a \<Rightarrow> [a])
     (\<lambda>xs. case xs of [] \<Rightarrow> None | a # _ \<Rightarrow> Some a) (list_codec c)"

lemma option_codec_ok: "codec_ok c \<Longrightarrow> codec_ok (option_codec c)"
  unfolding option_codec_def by (rule iso_codec_ok [OF list_codec_ok]) (auto split: option.splits)

definition word_codec :: "('a :: len) word codec" where
  "word_codec = iso_codec unat of_nat nat_codec"

lemma word_codec_ok: "codec_ok word_codec"
  unfolding word_codec_def by (rule iso_codec_ok [OF nat_codec_ok]) simp

definition target_codec :: "target codec" where
  "target_codec = iso_codec as_str (\<lambda>s. the (target_from_str s)) string_codec"

lemma target_codec_ok: "codec_ok target_codec"
  unfolding target_codec_def by (rule iso_codec_ok [OF string_codec_ok]) simp

lemmas codecs_ok = nat_codec_ok string_codec_ok pair_codec_ok list_codec_ok option_codec_ok
  word_codec_ok target_codec_ok

subsection \<open>Documents\<close>

definition payload_codec :: "payload_info codec" where
  "payload_codec = iso_codec (\<lambda>p. (p_path p, p_sha256 p, p_size p))
     (\<lambda>(a, b, c). \<lparr>p_path = a, p_sha256 = b, p_size = c\<rparr>)
     (pair_codec string_codec (pair_codec string_codec word_codec))"

definition launcher_codec :: "launcher_info codec" where
  "launcher_codec = iso_codec (\<lambda>l. (l_path l, l_sha256 l, l_size l, l_protocol l))
     (\<lambda>(a, b, c, d). \<lparr>l_path = a, l_sha256 = b, l_size = c, l_protocol = d\<rparr>)
     (pair_codec string_codec (pair_codec string_codec (pair_codec word_codec word_codec)))"

definition asset_codec :: "release_asset codec" where
  "asset_codec = iso_codec
     (\<lambda>a. (a_archive a, a_archive_sha256 a, a_archive_size a, a_payload a, a_launcher a))
     (\<lambda>(a, b, c, d, e). \<lparr>a_archive = a, a_archive_sha256 = b, a_archive_size = c, a_payload = d, a_launcher = e\<rparr>)
     (pair_codec string_codec (pair_codec string_codec (pair_codec word_codec
        (pair_codec payload_codec (option_codec launcher_codec)))))"

definition manifest_codec :: "nat release_manifest codec" where
  "manifest_codec = iso_codec
     (\<lambda>m. (m_schema_version m, m_version m, m_published_at m, m_expires_at m, m_targets m))
     (\<lambda>(a, b, c, d, e). \<lparr>m_schema_version = a, m_version = b, m_published_at = c, m_expires_at = d, m_targets = e\<rparr>)
     (pair_codec word_codec (pair_codec nat_codec (pair_codec string_codec (pair_codec string_codec
        (list_codec (pair_codec target_codec asset_codec))))))"

definition entry_codec :: "signature_entry codec" where
  "entry_codec = iso_codec (\<lambda>e. (e_key_id e, e_algorithm e, e_signature e))
     (\<lambda>(a, b, c). \<lparr>e_key_id = a, e_algorithm = b, e_signature = c\<rparr>)
     (pair_codec string_codec (pair_codec string_codec string_codec))"

definition envelope_codec :: "signature_envelope codec" where
  "envelope_codec = iso_codec (\<lambda>e. (env_schema_version e, env_signatures e))
     (\<lambda>(a, b). \<lparr>env_schema_version = a, env_signatures = b\<rparr>)
     (pair_codec word_codec (list_codec entry_codec))"

definition key_codec :: "trusted_key codec" where
  "key_codec = iso_codec (\<lambda>k. (k_id k, k_algorithm k, k_public_key k))
     (\<lambda>(a, b, c). \<lparr>k_id = a, k_algorithm = b, k_public_key = c\<rparr>)
     (pair_codec string_codec (pair_codec string_codec string_codec))"

definition key_set_codec :: "trusted_key_set codec" where
  "key_set_codec = iso_codec (\<lambda>k. (ks_schema_version k, ks_keys k))
     (\<lambda>(a, b). \<lparr>ks_schema_version = a, ks_keys = b\<rparr>)
     (pair_codec word_codec (list_codec key_codec))"

lemma payload_codec_ok: "codec_ok payload_codec"
  unfolding payload_codec_def by (intro iso_codec_ok codecs_ok) simp

lemma launcher_codec_ok: "codec_ok launcher_codec"
  unfolding launcher_codec_def by (intro iso_codec_ok codecs_ok) simp

lemma asset_codec_ok: "codec_ok asset_codec"
  unfolding asset_codec_def by (intro iso_codec_ok codecs_ok payload_codec_ok launcher_codec_ok) simp

lemma manifest_codec_ok: "codec_ok manifest_codec"
  unfolding manifest_codec_def by (intro iso_codec_ok codecs_ok asset_codec_ok) simp

lemma entry_codec_ok: "codec_ok entry_codec"
  unfolding entry_codec_def by (intro iso_codec_ok codecs_ok) simp

lemma envelope_codec_ok: "codec_ok envelope_codec"
  unfolding envelope_codec_def by (intro iso_codec_ok codecs_ok entry_codec_ok) simp

lemma key_codec_ok: "codec_ok key_codec"
  unfolding key_codec_def by (intro iso_codec_ok codecs_ok) simp

lemma key_set_codec_ok: "codec_ok key_set_codec"
  unfolding key_set_codec_def by (intro iso_codec_ok codecs_ok key_codec_ok) simp

subsection \<open>The sample operations\<close>

definition sample_version_string :: "nat \<Rightarrow> string" where
  "sample_version_string n = ''1.0.'' @ decimal n"

definition sample_version_parse :: "string \<Rightarrow> nat option" where
  "sample_version_parse s = (case strip_prefix ''1.0.'' s of None \<Rightarrow> None
     | Some d \<Rightarrow> if d \<noteq> [] \<and> list_all is_ascii_digit d then Some (digits_value d) else None)"

definition sample_sha256 :: "bytes \<Rightarrow> string" where
  "sample_sha256 b = replicate 64 (char_of (48 + length b mod 10))"

definition sample_sign :: "bytes \<Rightarrow> bytes \<Rightarrow> bytes" where
  "sample_sign pk msg = take 64 (pk @ msg @ replicate 64 (CHR 0x00))"

definition sample_public :: "bytes \<Rightarrow> bytes" where
  "sample_public sk = take 32 (sk @ replicate 32 (CHR 0x00))"

definition sample_rfc3339 :: "string \<Rightarrow> int option" where
  "sample_rfc3339 s = (if s \<noteq> [] \<and> list_all is_ascii_digit s
     then Some (int (digits_value s) * 1000000000) else None)"

definition sample_lib :: "nat slib" where
  "sample_lib = \<lparr>version_parse = sample_version_parse, version_string = sample_version_string,
     version_zero = 0, sha256_hex = sample_sha256,
     manifest_of_json = decode manifest_codec, json_of_manifest = encode manifest_codec,
     parse_rfc3339 = sample_rfc3339,
     base64_decode = Some, base64_encode = id, verifying_key = (\<lambda>_. True),
     verify_strict = (\<lambda>pk msg sig. sig = sample_sign pk msg),
     sign = (\<lambda>sk. sample_sign (sample_public sk)), public_of = sample_public,
     envelope_of_json = decode envelope_codec, json_of_envelope = encode envelope_codec,
     key_set_of_json = decode key_set_codec\<rparr>"

lemma sample_lib_simps [simp]:
  "version_parse sample_lib = sample_version_parse" "version_string sample_lib = sample_version_string"
  "version_zero sample_lib = 0" "sha256_hex sample_lib = sample_sha256"
  "manifest_of_json sample_lib = decode manifest_codec" "json_of_manifest sample_lib = encode manifest_codec"
  "parse_rfc3339 sample_lib = sample_rfc3339" "base64_decode sample_lib = Some" "base64_encode sample_lib = id"
  "verifying_key sample_lib pk" "verify_strict sample_lib pk msg sig = (sig = sample_sign pk msg)"
  "sign sample_lib sk = sample_sign (sample_public sk)" "public_of sample_lib = sample_public"
  "envelope_of_json sample_lib = decode envelope_codec" "json_of_envelope sample_lib = encode envelope_codec"
  "key_set_of_json sample_lib = decode key_set_codec"
  by (simp_all add: sample_lib_def)

lemma sample_semver_ok: "semver_ok sample_lib"
proof -
  have "list_all semver_char (decimal n)" for n
    using decimal_digits [of n] by (rule list.pred_mono_strong) (simp add: semver_char_def)
  moreover have "list_all semver_char ''1.0.''" by (simp add: semver_char_def is_ascii_digit_def)
  moreover have "strip_prefix ''1.0.'' (''1.0.'' @ decimal n) = Some (decimal n)" for n
    by (rule strip_prefix_append)
  ultimately show ?thesis
    unfolding semver_ok_def sample_lib_simps sample_version_string_def sample_version_parse_def
    by (simp add: digits_value_decimal decimal_digits is_ascii_digit_def del: strip_prefix_Some)
qed

lemma sample_lengths [simp]: "length (sample_sign pk msg) = 64" "length (sample_public sk) = 32"
  by (simp_all add: sample_sign_def sample_public_def min_def)

lemma sample_crypto_ok: "crypto_ok sample_lib"
  by (simp add: crypto_ok_def decode_encode envelope_codec_ok)

end
