(* ===== verification/Release_Properties.thy ===== *)
theory Release_Properties
  imports Sample
begin

text \<open>
  What the release metadata code guarantees: a bounded read returns exactly what fits, a manifest that
  validates has only canonical assets, what is published is what is selected, and a manifest is accepted
  exactly when a trusted Ed25519 key signed its bytes.
\<close>

subsection \<open>A sample release\<close>

definition sample_app :: app where
  "sample_app = \<lparr>app_name = ''demo'', app_version = ''1.0.0'', app_repository_url = ''https://h/r'',
     app_trust_anchor = encode key_set_codec \<lparr>ks_schema_version = 1,
       ks_keys = [trusted_key_ed25519 sample_lib ''k'' (sample_public ''secret'')]\<rparr>,
     app_activation = UnixSymlink, app_self_test = None\<rparr>"

definition sample_asset :: release_asset where
  "sample_asset = asset_new sample_lib sample_app 7 X86_64UnknownLinuxGnu 10 (replicate 64 (CHR ''0''))
     5 (replicate 64 (CHR ''a''))"

definition sample_manifest :: "nat release_manifest" where
  "sample_manifest = \<lparr>m_schema_version = 2, m_version = 7, m_published_at = ''1000'',
     m_expires_at = ''2000'', m_targets = [(X86_64UnknownLinuxGnu, sample_asset)]\<rparr>"

lemma sample_version: "sample_version_string 7 = ''1.0.7''"
  by code_simp

lemma sample_validate: "manifest_validate sample_lib sample_manifest sample_app = Inr ()"
  unfolding manifest_validate_Inr
  by (simp add: sample_manifest_def sample_asset_def asset_new_def canonical_asset_def sample_app_def
      sample_version archive_name_def payload_path_def target_root_name_def root_name_def
      target_payload_name_def payload_name_def is_windows_def archive_suffix_def safe_member_path_def
      validate_basename_def lower_sha256_def is_lower_hex_digit_def is_ascii_digit_def limit_defs
      sample_rfc3339_def list_all_iff)


subsection \<open>Bounded readers\<close>

text \<open>C40: a bounded read returns exactly the bytes of the reader, and it returns if and only if
  the reader does not fail and holds at most the limit.\<close>

theorem read_limited_exact:
  "fst (read_limited limit r) = Inr b \<longleftrightarrow>
     r_error r = None \<and> b = r_data r \<and> length (r_data r) \<le> unat limit"
  using read_limited_loop_sound [of limit 0 "[]" r b] read_limited_loop_complete [of r 0 "[]" limit]
  by (auto simp: read_limited_def)

subsection \<open>Manifests\<close>

text \<open>C36: exactly these manifests validate: schema version 2, a nonempty version, two RFC 3339
  timestamps, between one and five distinct targets, and every asset canonical for its target: its
  names are the derived ones, its sizes within the limits, its digests lowercase SHA-256, its
  member paths below the archive root, and a launcher exactly on Windows.\<close>

theorem manifest_validate_exact:
  "manifest_validate lib m app = Inr () \<longleftrightarrow>
     m_schema_version m = 2 \<and> version_string lib (m_version m) \<noteq> []
     \<and> parse_rfc3339 lib (m_published_at m) \<noteq> None \<and> parse_rfc3339 lib (m_expires_at m) \<noteq> None
     \<and> m_targets m \<noteq> [] \<and> length (m_targets m) \<le> 5 \<and> distinct (map fst (m_targets m))
     \<and> (\<forall>(t, a) \<in> set (m_targets m). canonical_asset lib app (m_version m) t a)"
  by (rule manifest_validate_Inr)

theorem manifest_validate_exact_witness:
  "m_targets sample_manifest \<noteq> [] \<and> distinct (map fst (m_targets sample_manifest))"
  using manifest_validate_exact [of sample_lib sample_manifest sample_app] sample_validate by blast

text \<open>C37: the asset selected for a target is canonical for that very target and version, so no
  manifest that was parsed leads to a path outside the archive root.\<close>

theorem selected_asset_canonical:
  assumes "manifest_from_bytes lib app b = Inr m" and "asset_for lib m app t = Inr s"
  shows "sel_target s = t \<and> canonical_asset lib app (m_version m) t (sel_asset s)"
proof -
  from assms(2) have "sel_target s = t" by (simp add: asset_for_Inr)
  moreover have "canonical_asset lib app (m_version m) t (sel_asset s)"
    using assms(2) by (rule asset_for_canonical)
  ultimately show ?thesis by simp
qed

lemma sample_manifest_length: "length (encode manifest_codec sample_manifest) \<le> MAX_METADATA_SIZE"
proof -
  have "length (encode manifest_codec sample_manifest) \<le> 1000"
    by (simp add: encode_def manifest_codec_def asset_codec_def payload_codec_def
        iso_codec_def pair_codec_def list_codec_def option_codec_def word_codec_def nat_codec_def
        string_codec_def target_codec_def sample_manifest_def sample_asset_def asset_new_def
        sample_app_def sample_version archive_name_def payload_path_def target_root_name_def
        root_name_def target_payload_name_def payload_name_def is_windows_def archive_suffix_def)
  then show ?thesis by (simp add: MAX_METADATA_SIZE_def)
qed

lemma sample_manifest_bytes:
  "manifest_from_bytes sample_lib sample_app (encode manifest_codec sample_manifest) = Inr sample_manifest"
  by (simp add: manifest_from_bytes_Inr decode_encode manifest_codec_ok sample_validate
      sample_manifest_length)

theorem selected_asset_canonical_witness:
  "canonical_asset sample_lib sample_app 7 X86_64UnknownLinuxGnu sample_asset"
proof -
  have "asset_for sample_lib sample_manifest sample_app X86_64UnknownLinuxGnu
      = Inr \<lparr>sel_target = X86_64UnknownLinuxGnu, sel_asset = sample_asset\<rparr>"
    unfolding asset_for_Inr using sample_validate by (simp add: sample_manifest_def)
  from selected_asset_canonical [OF sample_manifest_bytes this] show ?thesis
    by (simp add: sample_manifest_def)
qed

text \<open>What release tooling knows of one target's archive: the sizes and SHA-256 digests of the archive, of the
  payload and, on Windows, of the launcher; and the asset it builds of them.\<close>

record asset_facts =
  af_size :: u64
  af_sha256 :: string
  af_payload_size :: u64
  af_payload_sha256 :: string
  af_launcher_size :: u64
  af_launcher_sha256 :: string

definition facts_ok :: "asset_facts \<Rightarrow> bool" where
  "facts_ok f \<longleftrightarrow> 0 < af_size f \<and> af_size f \<le> MAX_ARCHIVE_SIZE \<and> lower_sha256 (af_sha256 f)
     \<and> 0 < af_payload_size f \<and> af_payload_size f \<le> MAX_MEMBER_SIZE \<and> lower_sha256 (af_payload_sha256 f)
     \<and> 0 < af_launcher_size f \<and> af_launcher_size f \<le> MAX_MEMBER_SIZE \<and> lower_sha256 (af_launcher_sha256 f)"

definition built_asset :: "('v, 'z) lib_scheme \<Rightarrow> app \<Rightarrow> 'v \<Rightarrow> u32 \<Rightarrow> target \<Rightarrow> asset_facts \<Rightarrow> release_asset" where
  "built_asset lib app v protocol t f =
     with_launcher lib (asset_new lib app v t (af_size f) (af_sha256 f) (af_payload_size f) (af_payload_sha256 f))
       app v t protocol (af_launcher_size f) (af_launcher_sha256 f)"

definition holds_facts :: "release_asset \<Rightarrow> u32 \<Rightarrow> target \<Rightarrow> asset_facts \<Rightarrow> bool" where
  "holds_facts a protocol t f \<longleftrightarrow>
     a_archive_size a = af_size f \<and> a_archive_sha256 a = af_sha256 f
     \<and> p_size (a_payload a) = af_payload_size f \<and> p_sha256 (a_payload a) = af_payload_sha256 f
     \<and> (if is_windows t
        then \<exists>l. a_launcher a = Some l \<and> l_size l = af_launcher_size f \<and> l_sha256 l = af_launcher_sha256 f \<and> l_protocol l = protocol
        else a_launcher a = None)"

lemma built_asset_facts:
  "is_windows t \<Longrightarrow> launcher_name app \<noteq> None \<Longrightarrow> holds_facts (built_asset lib app v protocol t f) protocol t f"
  "\<not> is_windows t \<Longrightarrow> holds_facts (built_asset lib app v protocol t f) protocol t f"
  by (auto simp: holds_facts_def built_asset_def with_launcher_def asset_new_def launcher_path_def target_launcher_name_def)

lemma sorted_targets: "sorted_wrt (<) ts \<Longrightarrow> distinct ts \<and> length ts \<le> 5" for ts :: "target list"
proof
  assume "sorted_wrt (<) ts"
  then show "distinct ts" by (simp add: strict_sorted_iff)
  then have "length ts = card (set ts)" by (simp add: distinct_card)
  also have "\<dots> \<le> card (set all_targets)" by (rule card_mono) (use all_targets_complete in auto)
  also have "\<dots> \<le> 5" using card_length [of all_targets] by (simp add: all_targets_def)
  finally show "length ts \<le> 5" .
qed

text \<open>C38: what release tooling records is what a client selects: a manifest built from the facts of the archives,
  with any set of targets in order, is accepted by its constructor and its writer; a client reads the bytes back
  and for every listed target selects an asset with the canonical archive name and exactly the recorded sizes,
  digests and launcher, and for every other target none. The writer does not look at the size limit that the
  reader imposes: a longer document is written and then refused.\<close>

theorem published_assets_selected:
  assumes lib: "semver_ok lib" "manifest_json_ok lib"
    and name: "validate_basename (app_name app) = Inr ()"
    and launcher: "X86_64PcWindowsMsvc \<in> set ts \<Longrightarrow> \<exists>l. app_activation app = WindowsLauncher l protocol
      \<and> validate_basename l = Inr () \<and> l \<noteq> app_name app @ ''.exe''"
    and ts: "ts \<noteq> []" "sorted_wrt (<) ts" and times: "parse_rfc3339 lib pub \<noteq> None" "parse_rfc3339 lib expi \<noteq> None"
    and facts: "\<forall>t \<in> set ts. facts_ok (facts t)"
  shows "\<exists>m b. manifest_new lib app v pub expi (map (\<lambda>t. (t, built_asset lib app v protocol t (facts t))) ts) = Inr m
    \<and> manifest_to_bytes lib m app = Inr b
    \<and> (if length b \<le> MAX_METADATA_SIZE
       then \<exists>m'. manifest_from_bytes lib app b = Inr m' \<and> m_version m' = v
         \<and> (\<forall>t \<in> set ts. \<exists>a. asset_for lib m' app t = Inr \<lparr>sel_target = t, sel_asset = a\<rparr>
              \<and> a_archive a = archive_name lib t app v \<and> holds_facts a protocol t (facts t))
         \<and> (\<forall>t s. t \<notin> set ts \<longrightarrow> asset_for lib m' app t \<noteq> Inr s)
       else \<exists>k. manifest_from_bytes lib app b = Inl k)"
proof -
  let ?built = "\<lambda>t. built_asset lib app v protocol t (facts t)"
  define m where "m = \<lparr>m_schema_version = MANIFEST_SCHEMA_VERSION, m_version = v, m_published_at = pub,
    m_expires_at = expi, m_targets = map (\<lambda>t. (t, ?built t)) ts\<rparr>"
  have windows: "t = X86_64PcWindowsMsvc" if "is_windows t" for t using that by (cases t) (simp_all add: is_windows_def)
  have canonical: "canonical_asset lib app v t (?built t)" if t: "t \<in> set ts" for t
    unfolding built_asset_def
    by (rule built_asset_canonical [OF lib(1) name]) (use t facts launcher windows in \<open>auto simp: facts_ok_def\<close>)
  have holds: "holds_facts (?built t) protocol t (facts t)" if t: "t \<in> set ts" for t
  proof (cases "is_windows t")
    case True
    with t windows have "X86_64PcWindowsMsvc \<in> set ts" by metis
    from launcher [OF this] have "launcher_name app \<noteq> None" by (auto simp: launcher_name_def)
    with True show ?thesis by (rule built_asset_facts(1))
  qed (rule built_asset_facts(2))
  have valid: "manifest_validate lib m app = Inr ()"
    using ts times semver_okD(2) [OF lib(1)] canonical sorted_targets [OF ts(2)]
    by (auto simp: manifest_validate_Inr m_def MANIFEST_SCHEMA_VERSION_def comp_def)
  have order: "in_key_order m" using ts(2) by (simp add: in_key_order_def m_def comp_def)
  have new: "manifest_new lib app v pub expi (map (\<lambda>t. (t, ?built t)) ts) = Inr m"
    using valid by (simp add: manifest_new_def m_def)
  have select: "map_of (m_targets m) t = (if t \<in> set ts then Some (?built t) else None)" for t
    by (simp add: m_def map_of_map_restrict restrict_map_def)
  have "asset_for lib m app t = Inr \<lparr>sel_target = t, sel_asset = ?built t\<rparr>
      \<and> a_archive (?built t) = archive_name lib t app v \<and> holds_facts (?built t) protocol t (facts t)" if t: "t \<in> set ts" for t
    using t valid select canonical [OF t] holds [OF t] by (simp add: asset_for_Inr canonical_asset_def)
  moreover have "asset_for lib m app t \<noteq> Inr s" if "t \<notin> set ts" for t s using that select by (simp add: asset_for_Inr)
  moreover have "manifest_from_bytes lib app b = Inl (Invalid ''release manifest exceeds limit'')" if "\<not> length b \<le> MAX_METADATA_SIZE" for b
    using that by (simp add: manifest_from_bytes_def ensureE_def)
  ultimately show ?thesis
    using new valid manifest_roundtrip [OF lib(2) order valid]
    by (intro exI [of _ m] exI [of _ "json_of_manifest lib m"]) (auto simp: manifest_to_bytes_def m_def)
qed

lemma sample_json_ok: "manifest_json_ok sample_lib"
  by (simp add: manifest_json_ok_def decode_encode manifest_codec_ok)

definition sample_facts :: asset_facts where
  "sample_facts = \<lparr>af_size = 10, af_sha256 = replicate 64 (CHR ''0''), af_payload_size = 5,
     af_payload_sha256 = replicate 64 (CHR ''a''), af_launcher_size = 1, af_launcher_sha256 = replicate 64 (CHR ''0'')\<rparr>"

theorem published_assets_selected_witness:
  "\<exists>m b. manifest_to_bytes sample_lib m sample_app = Inr b \<and> (length b \<le> MAX_METADATA_SIZE \<longrightarrow>
     (\<exists>m' a. manifest_from_bytes sample_lib sample_app b = Inr m'
        \<and> asset_for sample_lib m' sample_app Aarch64AppleDarwin = Inr \<lparr>sel_target = Aarch64AppleDarwin, sel_asset = a\<rparr>
        \<and> a_archive_size a = 10 \<and> (\<forall>s. asset_for sample_lib m' sample_app X86_64AppleDarwin \<noteq> Inr s)))"
proof -
  let ?ts = "[Aarch64AppleDarwin, X86_64UnknownLinuxGnu]"
  have "sorted_wrt (<) ?ts"
    by (simp add: less_target_def target_cmp_less)
  moreover have "\<forall>t \<in> set ?ts. facts_ok sample_facts"
    by (simp add: facts_ok_def sample_facts_def lower_sha256_def is_lower_hex_digit_def is_ascii_digit_def limit_defs list_all_iff)
  moreover have "validate_basename (app_name sample_app) = Inr ()" by (simp add: validate_basename_def sample_app_def)
  moreover have "parse_rfc3339 sample_lib ''1000'' \<noteq> None" "parse_rfc3339 sample_lib ''2000'' \<noteq> None"
    by (simp_all add: sample_rfc3339_def is_ascii_digit_def)
  ultimately have "\<exists>m b. manifest_new sample_lib sample_app 7 ''1000'' ''2000'' (map (\<lambda>t. (t, built_asset sample_lib sample_app 7 0 t sample_facts)) ?ts) = Inr m
    \<and> manifest_to_bytes sample_lib m sample_app = Inr b
    \<and> (if length b \<le> MAX_METADATA_SIZE
       then \<exists>m'. manifest_from_bytes sample_lib sample_app b = Inr m' \<and> m_version m' = 7
         \<and> (\<forall>t \<in> set ?ts. \<exists>a. asset_for sample_lib m' sample_app t = Inr \<lparr>sel_target = t, sel_asset = a\<rparr>
              \<and> a_archive a = archive_name sample_lib t sample_app 7 \<and> holds_facts a 0 t sample_facts)
         \<and> (\<forall>t s. t \<notin> set ?ts \<longrightarrow> asset_for sample_lib m' sample_app t \<noteq> Inr s)
       else \<exists>k. manifest_from_bytes sample_lib sample_app b = Inl k)"
    by (intro published_assets_selected [OF sample_semver_ok sample_json_ok]) simp_all
  then obtain m b where m: "manifest_to_bytes sample_lib m sample_app = Inr b" "length b \<le> MAX_METADATA_SIZE \<Longrightarrow>
      \<exists>m'. manifest_from_bytes sample_lib sample_app b = Inr m' \<and> m_version m' = 7
         \<and> (\<forall>t \<in> set ?ts. \<exists>a. asset_for sample_lib m' sample_app t = Inr \<lparr>sel_target = t, sel_asset = a\<rparr>
              \<and> a_archive a = archive_name sample_lib t sample_app 7 \<and> holds_facts a 0 t sample_facts)
         \<and> (\<forall>t s. t \<notin> set ?ts \<longrightarrow> asset_for sample_lib m' sample_app t \<noteq> Inr s)"
    by (elim exE conjE) (rule that, assumption, simp)
  moreover have "a_archive_size a = 10" if "holds_facts a 0 t sample_facts" for a t
    using that by (simp add: holds_facts_def sample_facts_def)
  ultimately show ?thesis by (intro exI [of _ m] exI [of _ b]) fastforce
qed

text \<open>C39: a manifest counts as current up to and including twelve hours after its expiry instant,
  and is refused from then on, for good.\<close>

theorem expiry_is_final:
  assumes "parse_rfc3339 lib (m_expires_at m) = Some e" and "now \<le> later"
  shows "(ensure_not_expired lib m now = Inr () \<longleftrightarrow> now \<le> e + 43200000000000)
     \<and> (ensure_not_expired lib m later = Inr () \<longrightarrow> ensure_not_expired lib m now = Inr ())"
  using assms by (auto simp: ensure_not_expired_Inr EXPIRY_CLOCK_SKEW_def)

theorem expiry_is_final_witness:
  "ensure_not_expired sample_lib sample_manifest 45200000000000 = Inr ()
   \<and> ensure_not_expired sample_lib sample_manifest 45200000000001 \<noteq> Inr ()"
proof -
  have e: "parse_rfc3339 sample_lib (m_expires_at sample_manifest) = Some 2000000000000"
    by (simp add: sample_manifest_def sample_rfc3339_def is_ascii_digit_def digits_value_def)
  from expiry_is_final [OF e order_refl, of 45200000000000]
    expiry_is_final [OF e order_refl, of 45200000000001] show ?thesis by simp
qed

subsection \<open>Signatures\<close>

text \<open>C3: a manifest is accepted only if one of the application's own Ed25519 keys, whose id the
  result names, strictly verifies a 64-byte signature over exactly the manifest bytes received.\<close>

theorem verified_manifest_signed:
  assumes "verify_manifest lib app manifest sigs = Inr i"
  shows "\<exists>ks env k e pk sig. key_set_from_bytes lib (app_trust_anchor app) = Inr ks
     \<and> k \<in> set (ks_keys ks) \<and> k_id k = i \<and> k_algorithm k = ED25519_ALGORITHM
     \<and> base64_decode lib (k_public_key k) = Some pk \<and> length pk = 32 \<and> verifying_key lib pk
     \<and> envelope_from_bytes lib sigs = Inr env \<and> e \<in> set (env_signatures env) \<and> e_key_id e = i
     \<and> e_algorithm e = ED25519_ALGORITHM \<and> base64_decode lib (e_signature e) = Some sig
     \<and> length sig = 64 \<and> verify_strict lib pk manifest sig"
proof -
  from assms obtain ks where ks: "key_set_from_bytes lib (app_trust_anchor app) = Inr ks"
    and v: "verify_manifest_with_keys lib manifest sigs (ks_keys ks) = Inr i"
    by (auto simp: verify_manifest_def)
  from v obtain env e where env: "envelope_from_bytes lib sigs = Inr env"
    and f: "find (entry_verifies lib manifest (ks_keys ks)) (env_signatures env) = Some e" "e_key_id e = i"
    by (auto simp: verify_with_keys_Inr)
  from find_Some [OF f(1)] have e: "e \<in> set (env_signatures env)"
    "entry_verifies lib manifest (ks_keys ks) e" by auto
  with ks env f(2) show ?thesis
    unfolding entry_verifies_iff decode_public_key_Inr by (blast dest: find_key_Some)
qed

text \<open>C35: without a trusted Ed25519 key nothing is accepted, whatever the envelope says.\<close>

theorem no_anchor_fails_closed:
  assumes "\<forall>k \<in> set keys. k_algorithm k \<noteq> ED25519_ALGORITHM"
  shows "verify_manifest_with_keys lib manifest sigs keys = Inl TrustAnchorNotConfigured"
  using assms
  by (auto simp: verify_manifest_with_keys_def has_ed25519_key_def list_ex_iff ensureE_def)

theorem no_anchor_fails_closed_witness:
  "verify_manifest_with_keys sample_lib ''m'' ''s''
     [\<lparr>k_id = ''k'', k_algorithm = ''rsa'', k_public_key = []\<rparr>] = Inl TrustAnchorNotConfigured"
  by (rule no_anchor_fails_closed) (simp add: ED25519_ALGORITHM_def)

lemma sign_entries_keys:
  assumes "distinct (map fst ks)" and "\<forall>(i, sk) \<in> set ks. i \<noteq> [] \<and> i \<notin> set seen"
  shows "sign_entries lib m seen ks =
     map (\<lambda>(i, sk). \<lparr>e_key_id = i, e_algorithm = ED25519_ALGORITHM,
                      e_signature = base64_encode lib (sign lib sk m)\<rparr>) ks"
  using assms
proof (induction lib m seen ks rule: sign_entries.induct)
  case (2 lib m seen i sk ks)
  then have "\<forall>(j, sk) \<in> set ks. j \<noteq> [] \<and> j \<notin> set (i # seen)"
    by (force simp: image_iff)
  with 2 show ?case by auto
qed simp

lemma find_key_distinct:
  assumes "distinct (map k_id keys)" and "k \<in> set keys" and "k_algorithm k = ED25519_ALGORITHM"
  shows "find_key keys (k_id k) = Some k"
proof -
  have "find_key keys (k_id k) \<noteq> None"
    using assms(2,3) by (auto simp: find_key_def find_None_iff)
  then obtain k' where k': "find_key keys (k_id k) = Some k'" by auto
  from find_key_Some [OF this] assms(1,2) have "k' = k"
    by (metis distinct_map inj_onD)
  with k' show ?thesis by simp
qed

text \<open>C34: an envelope that release tooling signs with several keys is accepted by every binary that
  trusts any one of them, which is what key rotation needs.\<close>

theorem signed_manifest_accepted:
  assumes ok: "crypto_ok lib"
    and ids: "distinct (map fst ks)" "\<forall>(j, sk) \<in> set ks. j \<noteq> []" and mem: "(i, sk) \<in> set ks"
    and out: "envelope_to_bytes lib (sign_manifest_multi lib manifest ks) = Inr sigs"
    and fits: "length sigs \<le> MAX_METADATA_SIZE"
    and trusted: "trusted_key_ed25519 lib i (public_of lib sk) \<in> set keys" "distinct (map k_id keys)"
  shows "\<exists>j \<in> fst ` set ks. verify_manifest_with_keys lib manifest sigs keys = Inr j"
proof -
  let ?env = "sign_manifest_multi lib manifest ks"
  let ?e = "\<lambda>(j, sk). \<lparr>e_key_id = j, e_algorithm = ED25519_ALGORITHM,
                      e_signature = base64_encode lib (sign lib sk manifest)\<rparr>"
  let ?key = "trusted_key_ed25519 lib i (public_of lib sk)"
  have sigs: "env_signatures ?env = map ?e ks"
    unfolding sign_manifest_multi_def envelope_new_def
    using sign_entries_keys [OF ids(1), of "[]" lib manifest] ids(2) by auto
  have "sigs = json_of_envelope lib ?env"
    using out by (auto simp: envelope_to_bytes_def split: if_splits)
  then have "envelope_of_json lib sigs = Some ?env"
    using ok by (simp add: crypto_ok_def)
  moreover have "distinct (map e_key_id (env_signatures ?env))"
    unfolding sigs using ids(1) by (simp add: case_prod_unfold comp_def)
  moreover have "\<forall>e \<in> set (env_signatures ?env). e_key_id e \<noteq> [] \<and> e_algorithm e \<noteq> []"
    unfolding sigs using ids(2) by auto
  moreover have "env_signatures ?env \<noteq> []"
    unfolding sigs using mem by auto
  moreover have "env_schema_version ?env = SIGNATURE_SCHEMA_VERSION"
    by (simp add: sign_manifest_multi_def envelope_new_def)
  ultimately have env: "envelope_from_bytes lib sigs = Inr ?env"
    using fits unfolding envelope_from_bytes_Inr by blast
  have "find_key keys i = Some ?key"
    using find_key_distinct [OF trusted(2,1)] by (simp add: trusted_key_ed25519_def)
  then have ver: "entry_verifies lib manifest keys (?e (i, sk))"
    using ok by (simp add: entry_verifies_iff decode_public_key_Inr trusted_key_ed25519_def crypto_ok_def)
  have "?e (i, sk) \<in> set (env_signatures ?env)" unfolding sigs using mem by force
  with ver have "find (entry_verifies lib manifest keys) (env_signatures ?env) \<noteq> None"
    by (auto simp: find_None_iff)
  then obtain e where e: "find (entry_verifies lib manifest keys) (env_signatures ?env) = Some e" by auto
  with find_Some [OF e] sigs have "e_key_id e \<in> fst ` set ks" by (auto simp: image_iff) force
  moreover have "\<exists>k \<in> set keys. k_algorithm k = ED25519_ALGORITHM"
    using trusted(1) by (rule bexI [rotated]) (simp add: trusted_key_ed25519_def)
  then have "verify_manifest_with_keys lib manifest sigs keys = Inr (e_key_id e)"
    using env e unfolding verify_with_keys_Inr by (auto simp: has_ed25519_key_def list_ex_iff)
  ultimately show ?thesis by blast
qed

lemma sample_sigs_length: "length (encode envelope_codec
     (sign_manifest_multi sample_lib ''manifest'' [(''new'', ''other''), (''k'', ''secret'')])) \<le> MAX_METADATA_SIZE"
proof -
  have "length (encode envelope_codec
     (sign_manifest_multi sample_lib ''manifest'' [(''new'', ''other''), (''k'', ''secret'')])) \<le> 1000"
    by (simp add: encode_def envelope_codec_def entry_codec_def iso_codec_def pair_codec_def
        list_codec_def nat_codec_def string_codec_def word_codec_def sign_manifest_multi_def
        envelope_new_def ED25519_ALGORITHM_def SIGNATURE_SCHEMA_VERSION_def)
  then show ?thesis by (simp add: MAX_METADATA_SIZE_def)
qed

theorem signed_manifest_accepted_witness:
  "\<exists>j \<in> {''new'', ''k''}. verify_manifest_with_keys sample_lib ''manifest''
     (encode envelope_codec (sign_manifest_multi sample_lib ''manifest'' [(''new'', ''other''), (''k'', ''secret'')]))
     [trusted_key_ed25519 sample_lib ''k'' (sample_public ''secret'')] = Inr j"
proof -
  let ?ks = "[(''new'', ''other''), (''k'', ''secret'')]"
  have "envelope_to_bytes sample_lib (sign_manifest_multi sample_lib ''manifest'' ?ks)
      = Inr (encode envelope_codec (sign_manifest_multi sample_lib ''manifest'' ?ks))"
    by (simp add: envelope_to_bytes_def sign_manifest_multi_def envelope_new_def)
  from signed_manifest_accepted [OF sample_crypto_ok _ _ _ this sample_sigs_length, of "''k''" "''secret''"
      "[trusted_key_ed25519 sample_lib ''k'' (sample_public ''secret'')]"]
  show ?thesis by simp
qed

lemma sample_sigs:
  "verify_manifest sample_lib sample_app ''manifest''
     (encode envelope_codec (sign_manifest sample_lib ''manifest'' ''k'' ''secret'')) = Inr ''k''"
proof -
  let ?env = "sign_manifest sample_lib ''manifest'' ''k'' ''secret''"
  let ?key = "trusted_key_ed25519 sample_lib ''k'' (sample_public ''secret'')"
  have "length (encode envelope_codec ?env) \<le> 1000"
    by (simp add: encode_def envelope_codec_def entry_codec_def iso_codec_def pair_codec_def
        list_codec_def nat_codec_def string_codec_def word_codec_def sign_manifest_def sign_manifest_multi_def
        envelope_new_def ED25519_ALGORITHM_def SIGNATURE_SCHEMA_VERSION_def)
  then have env: "envelope_from_bytes sample_lib (encode envelope_codec ?env) = Inr ?env"
    by (simp add: envelope_from_bytes_Inr decode_encode envelope_codec_ok MAX_METADATA_SIZE_def
        sign_manifest_def sign_manifest_multi_def envelope_new_def)
  have ks: "key_set_from_bytes sample_lib (app_trust_anchor sample_app)
      = Inr \<lparr>ks_schema_version = 1, ks_keys = [?key]\<rparr>"
    by (simp add: key_set_from_bytes_def sample_app_def decode_encode key_set_codec_ok
        SIGNATURE_SCHEMA_VERSION_def trusted_key_ed25519_def decode_public_key_Inr)
  have "entry_verifies sample_lib ''manifest'' [?key] (hd (env_signatures ?env))"
    by (simp add: entry_verifies_iff find_key_def trusted_key_ed25519_def decode_public_key_Inr
        sign_manifest_def sign_manifest_multi_def envelope_new_def)
  then show ?thesis
    using ks env by (simp add: verify_manifest_def verify_with_keys_Inr has_ed25519_key_def
        trusted_key_ed25519_def sign_manifest_def sign_manifest_multi_def envelope_new_def)
qed

theorem verified_manifest_signed_witness:
  "\<exists>pk sig. length (pk :: bytes) = 32 \<and> length (sig :: bytes) = 64
     \<and> verify_strict sample_lib pk ''manifest'' sig"
  using verified_manifest_signed [OF sample_sigs] by blast

end
