(* ===== verification/Fs.thy ===== *)
theory Fs
  imports Release "HOL-Library.AList"
begin

unbundle bit_operations_syntax

text \<open>
  The part of Rust's standard library the installer uses: \<open>std::path\<close> as lists of components, and
  \<open>std::fs\<close> as operations on a file system that maps paths to nodes. Every call first consumes one
  entry of the schedule \<open>sched\<close>: \<open>IoOk\<close> lets it run, \<open>IoFail n\<close> makes it fail after a partial
  effect of size \<open>n\<close> (for the calls that have one), \<open>IoCrash\<close> makes it and every later call fail,
  which is the process dying at that point. An exhausted schedule is a healthy host. A theorem
  over all schedules is therefore about every pattern of I/O failures and every crash point.
\<close>

subsection \<open>Paths\<close>

datatype component = Prefix string | RootDir | CurDir | ParentDir | Normal string

type_synonym path = "component list"

definition join :: "path \<Rightarrow> string \<Rightarrow> path" where
  "join p n = p @ [Normal n]"

definition parent :: "path \<Rightarrow> path option" where
  "parent p = (case rev p of [] \<Rightarrow> None | RootDir # _ \<Rightarrow> None | Prefix _ # _ \<Rightarrow> None | _ # q \<Rightarrow> Some (rev q))"

definition file_name :: "path \<Rightarrow> string option" where
  "file_name p = (case rev p of Normal n # _ \<Rightarrow> Some n | _ \<Rightarrow> None)"

definition with_file_name :: "path \<Rightarrow> string \<Rightarrow> path" where
  "with_file_name p n = (case file_name p of None \<Rightarrow> p @ [Normal n] | Some _ \<Rightarrow> butlast p @ [Normal n])"

fun is_absolute :: "bool \<Rightarrow> path \<Rightarrow> bool" where
  "is_absolute False (RootDir # _) = True"
| "is_absolute True (Prefix _ # RootDir # _) = True"
| "is_absolute _ _ = False"

lemma parent_join [simp]: "parent (join p n) = Some p"
  by (simp add: parent_def join_def)

lemma parent_snoc [simp]: "parent (p @ [Normal n]) = Some p"
  by (simp add: parent_def)

lemma file_name_join [simp]: "file_name (join p n) = Some n"
  by (simp add: file_name_def join_def)

lemma join_eq [simp]: "join p n = join q m \<longleftrightarrow> p = q \<and> n = m"
  by (simp add: join_def)

lemma join_neq_self [simp]: "join p n \<noteq> p" "p \<noteq> join p n"
  by (simp_all add: join_def)

lemma with_file_name_join [simp]: "with_file_name (join p n) m = join p m"
  by (simp add: with_file_name_def file_name_def join_def)

lemma parent_Some: "parent p = Some q \<Longrightarrow> \<exists>c. p = q @ [c]"
  by (auto simp: parent_def rev_eq_Cons_iff split: list.splits component.splits)

lemma prefix_join [simp]: "prefix p (join p n)"
  by (simp add: join_def)

lemma strict_prefix_join: "strict_prefix q (join p n) \<longleftrightarrow> prefix q p"
  by (auto simp: join_def strict_prefix_def prefix_snoc)

subsection \<open>Nodes and the world\<close>

text \<open>A Windows security descriptor: the owner, the control bits and the access-control list, \<open>None\<close> being
  the null list. A security identifier is its string form \<^verbatim>\<open>S-1-5-21-...\<close>.\<close>

record ace =
  ace_type :: u8
  ace_flags :: u8
  ace_mask :: u32
  ace_sid :: string

record descriptor =
  sd_owner :: "string option"
  sd_control :: u16
  sd_dacl :: "ace list option"

record attr =
  at_uid :: nat
  at_mode :: u32
  at_nlink :: nat
  at_reparse :: bool
  at_security :: descriptor

datatype node = RegularFile attr bytes | Directory attr | Symlink path | Special attr

definition is_symlink :: "node \<Rightarrow> bool" where
  "is_symlink n = (case n of Symlink _ \<Rightarrow> True | _ \<Rightarrow> False)"

definition is_file :: "node \<Rightarrow> bool" where
  "is_file n = (case n of RegularFile _ _ \<Rightarrow> True | _ \<Rightarrow> False)"

definition is_dir :: "node \<Rightarrow> bool" where
  "is_dir n = (case n of Directory _ \<Rightarrow> True | _ \<Rightarrow> False)"

definition node_len :: "node \<Rightarrow> nat" where
  "node_len n = (case n of RegularFile _ b \<Rightarrow> length b | _ \<Rightarrow> 0)"

definition node_reparse :: "node \<Rightarrow> bool" where
  "node_reparse n = (case n of RegularFile a _ \<Rightarrow> at_reparse a | Directory a \<Rightarrow> at_reparse a
     | Symlink _ \<Rightarrow> True | Special a \<Rightarrow> at_reparse a)"

lemma node_kind_simps [simp]:
  "is_symlink (Symlink t)" "\<not> is_symlink (RegularFile a b)" "\<not> is_symlink (Directory a)" "\<not> is_symlink (Special a)"
  "is_file (RegularFile a b)" "\<not> is_file (Symlink t)" "\<not> is_file (Directory a)" "\<not> is_file (Special a)"
  "is_dir (Directory a)" "\<not> is_dir (Symlink t)" "\<not> is_dir (RegularFile a b)" "\<not> is_dir (Special a)"
  "node_len (RegularFile a b) = length b"
  "node_reparse (RegularFile a b) = at_reparse a" "node_reparse (Directory a) = at_reparse a"
  by (simp_all add: is_symlink_def is_file_def is_dir_def node_len_def node_reparse_def)

lemma is_file_cases: "is_file n \<Longrightarrow> (\<And>a b. n = RegularFile a b \<Longrightarrow> P) \<Longrightarrow> P"
  by (cases n) auto

lemma is_dir_cases: "is_dir n \<Longrightarrow> (\<And>a. n = Directory a \<Longrightarrow> P) \<Longrightarrow> P"
  by (cases n) auto

datatype io_step = IoOk | IoFail nat | IoCrash

text \<open>
  \<open>rng\<close> and \<open>clock\<close> are the random bytes and clock readings still to come, indexed by how many
  were taken; \<open>temp_counter\<close> is the static \<open>TEMP_COUNTER\<close> of \<^verbatim>\<open>fs/executable.rs\<close>.
\<close>

record world =
  files :: "(path \<times> node) list"
  sched :: "io_step list"
  temp_counter :: u64
  rng :: "nat \<Rightarrow> bytes"
  rng_pos :: nat
  clock :: "nat \<Rightarrow> int"
  clock_pos :: nat
  net_pos :: nat

datatype unix_kind = Linux | MacOs | OtherUnix

text \<open>What the process sees of its host: the platform it was built for (\<open>h_unix\<close> where it is not Windows), its user, pid and umask; on
  Windows its user's security identifier, the reading of a descriptor's text
  (\<open>ConvertStringSecurityDescriptorToSecurityDescriptorW\<close>) and which directories are case sensitive.\<close>

record host =
  h_windows :: bool
  h_unix :: unix_kind
  h_uid :: nat
  h_pid :: nat
  h_umask :: u32
  h_cwd :: path
  h_sid :: string
  h_sddl :: "string \<Rightarrow> descriptor option"
  h_case_sensitive :: "path \<Rightarrow> bool"

type_synonym 'a io = "(world, io_kind, 'a) comp"

text \<open>A path is looked up as it is spelled: links among its ancestors are not resolved.\<close>

definition lookup :: "world \<Rightarrow> path \<Rightarrow> node option" where
  "lookup w p = map_of (files w) p"

definition put :: "path \<Rightarrow> node \<Rightarrow> world \<Rightarrow> world" where
  "put p n w = w\<lparr>files := AList.update p n (files w)\<rparr>"

definition del :: "path \<Rightarrow> world \<Rightarrow> world" where
  "del p w = w\<lparr>files := AList.delete p (files w)\<rparr>"

definition del_tree :: "path \<Rightarrow> world \<Rightarrow> world" where
  "del_tree p w = w\<lparr>files := filter (\<lambda>(q, _). \<not> prefix p q) (files w)\<rparr>"

definition move_tree :: "path \<Rightarrow> path \<Rightarrow> world \<Rightarrow> world" where
  "move_tree src dst w = w\<lparr>files :=
     map (\<lambda>(q, n). (if prefix src q then dst @ drop (length src) q else q, n))
       (filter (\<lambda>(q, _). \<not> prefix dst q) (files w))\<rparr>"

lemma lookup_put [simp]: "lookup (put p n w) q = (if q = p then Some n else lookup w q)"
  by (simp add: lookup_def put_def update_conv)

lemma lookup_del [simp]: "lookup (del p w) q = (if q = p then None else lookup w q)"
  by (simp add: lookup_def del_def delete_conv)

lemma lookup_del_tree [simp]: "lookup (del_tree p w) q = (if prefix p q then None else lookup w q)"
proof -
  have "map_of (filter (\<lambda>(q, _). \<not> prefix p q) xs) q = (if prefix p q then None else map_of xs q)" for xs :: "(path \<times> node) list"
    by (induction xs) auto
  then show ?thesis by (simp add: lookup_def del_tree_def)
qed

lemma lookup_move_tree:
  assumes "\<not> prefix src dst" "\<not> prefix dst src"
  shows "lookup (move_tree src dst w) q =
     (if prefix dst q then lookup w (src @ drop (length dst) q)
      else if prefix src q then None else lookup w q)"
proof -
  let ?f = "\<lambda>(q, n). (if prefix src q then dst @ drop (length src) q else q, n)"
  have dis: "\<not> (prefix src q \<and> prefix dst q)" for q
    using assms prefix_same_cases by blast
  have "map_of (map ?f (filter (\<lambda>(q, _). \<not> prefix dst q) xs)) q =
     (if prefix dst q then map_of xs (src @ drop (length dst) q)
      else if prefix src q then None else map_of xs q)" for xs :: "(path \<times> node) list"
  proof (induction xs)
    case (Cons x xs)
    obtain k n where x: "x = (k, n)" by fastforce
    show ?case
    proof (cases "prefix dst k")
      case True
      then have "\<not> prefix src k" using dis by blast
      then have "k \<noteq> src @ drop (length dst) q" by auto
      with True Cons.IH x show ?thesis by auto
    next
      case False
      show ?thesis
      proof (cases "prefix src k")
        case True
        then obtain r where r: "k = src @ r" by (auto simp: prefix_def)
        have "q = dst @ r \<longleftrightarrow> prefix dst q \<and> src @ drop (length dst) q = k"
          using r by (auto simp: prefix_def)
        with True False Cons.IH x r dis show ?thesis by auto
      next
        case False
        with \<open>\<not> prefix dst k\<close> Cons.IH x dis show ?thesis by auto
      qed
    qed
  qed simp
  then show ?thesis by (simp add: lookup_def move_tree_def)
qed

lemma world_frame [simp]:
  "sched (put p n w) = sched w" "sched (del p w) = sched w" "sched (del_tree p w) = sched w"
  "sched (move_tree p q w) = sched w"
  by (simp_all add: put_def del_def del_tree_def move_tree_def)

lemma lookup_frame [simp]:
  "lookup (w\<lparr>sched := ss\<rparr>) p = lookup w p" "lookup (w\<lparr>temp_counter := c\<rparr>) p = lookup w p"
  "lookup (w\<lparr>rng_pos := n\<rparr>) p = lookup w p" "lookup (w\<lparr>clock_pos := n\<rparr>) p = lookup w p"
  "lookup (w\<lparr>net_pos := n\<rparr>) p = lookup w p"
  by (simp_all add: lookup_def)

subsection \<open>System calls\<close>

definition io_partial :: "(nat \<Rightarrow> world \<Rightarrow> world) \<Rightarrow> 'a io \<Rightarrow> 'a io" where
  "io_partial part m w = (case sched w of
       [] \<Rightarrow> m w
     | IoOk # ss \<Rightarrow> m (w\<lparr>sched := ss\<rparr>)
     | IoFail n # ss \<Rightarrow> (Inl OtherIo, part n (w\<lparr>sched := ss\<rparr>))
     | IoCrash # _ \<Rightarrow> (Inl OtherIo, w))"

definition io :: "'a io \<Rightarrow> 'a io" where
  "io = io_partial (\<lambda>_ w. w)"

definition symlink_metadata :: "path \<Rightarrow> node io" where
  "symlink_metadata p = io (\<lambda>w. case lookup w p of None \<Rightarrow> (Inl NotFound, w) | Some n \<Rightarrow> (Inr n, w))"

text \<open>Opening follows a final symlink, at most 40 times as Linux does.\<close>

fun follow :: "nat \<Rightarrow> world \<Rightarrow> path \<Rightarrow> path option" where
  "follow 0 w p = None"
| "follow (Suc k) w p = (case lookup w p of Some (Symlink t) \<Rightarrow> follow k w t | _ \<Rightarrow> Some p)"

definition stat :: "world \<Rightarrow> path \<Rightarrow> io_kind + node" where
  "stat w p = (case follow 40 w p of None \<Rightarrow> Inl OtherIo
     | Some q \<Rightarrow> (case lookup w q of None \<Rightarrow> Inl NotFound | Some n \<Rightarrow> Inr n))"

definition fs_read :: "path \<Rightarrow> bytes io" where
  "fs_read p = io (\<lambda>w. case stat w p of Inl e \<Rightarrow> (Inl e, w)
     | Inr (RegularFile _ b) \<Rightarrow> (Inr b, w) | Inr _ \<Rightarrow> (Inl OtherIo, w))"

definition open_existing :: "path \<Rightarrow> node io" where
  "open_existing p = io (\<lambda>w. (stat w p, w))"

definition sync_all :: "unit io" where
  "sync_all = io (\<lambda>w. (Inr (), w))"

definition read_link :: "path \<Rightarrow> path io" where
  "read_link p = io (\<lambda>w. case lookup w p of None \<Rightarrow> (Inl NotFound, w)
     | Some (Symlink t) \<Rightarrow> (Inr t, w) | Some _ \<Rightarrow> (Inl InvalidInput, w))"

definition parent_is_dir :: "world \<Rightarrow> path \<Rightarrow> bool" where
  "parent_is_dir w p = (case parent p of None \<Rightarrow> False
     | Some d \<Rightarrow> (case lookup w d of Some (Directory _) \<Rightarrow> True | _ \<Rightarrow> False))"

text \<open>A node created without a descriptor gets one that is not protected: what it inherits from its
  parent is merged in. The entries themselves are never looked at in such a descriptor.\<close>

definition inherited_descriptor :: descriptor where
  "inherited_descriptor = \<lparr>sd_owner = None, sd_control = 0, sd_dacl = Some []\<rparr>"

definition new_attr :: "host \<Rightarrow> u32 \<Rightarrow> attr" where
  "new_attr h mode = \<lparr>at_uid = h_uid h, at_mode = mode AND NOT (h_umask h), at_nlink = 1,
     at_reparse = False, at_security = inherited_descriptor\<rparr>"

definition create_new :: "host \<Rightarrow> path \<Rightarrow> u32 \<Rightarrow> unit io" where
  "create_new h p mode = io (\<lambda>w.
     if lookup w p \<noteq> None then (Inl AlreadyExists, w)
     else if \<not> parent_is_dir w p then (Inl NotFound, w)
     else (Inr (), put p (RegularFile (new_attr h mode) []) w))"

text \<open>Writing through a handle to a file this process has just created.\<close>

definition set_content :: "path \<Rightarrow> bytes \<Rightarrow> world \<Rightarrow> world" where
  "set_content p b w = (case lookup w p of Some (RegularFile a _) \<Rightarrow> put p (RegularFile a b) w | _ \<Rightarrow> w)"

definition write_all :: "path \<Rightarrow> bytes \<Rightarrow> unit io" where
  "write_all p b = io_partial (\<lambda>n. set_content p (take n b)) (\<lambda>w. (Inr (), set_content p b w))"

definition set_permissions :: "path \<Rightarrow> u32 \<Rightarrow> unit io" where
  "set_permissions p mode = io (\<lambda>w. case lookup w p of
       None \<Rightarrow> (Inl NotFound, w)
     | Some (RegularFile a b) \<Rightarrow> (Inr (), put p (RegularFile (a\<lparr>at_mode := mode\<rparr>) b) w)
     | Some (Directory a) \<Rightarrow> (Inr (), put p (Directory (a\<lparr>at_mode := mode\<rparr>)) w)
     | Some (Symlink t) \<Rightarrow> (Inl OtherIo, w)
     | Some (Special a) \<Rightarrow> (Inr (), put p (Special (a\<lparr>at_mode := mode\<rparr>)) w))"

definition make_symlink :: "path \<Rightarrow> path \<Rightarrow> unit io" where
  "make_symlink target p = io (\<lambda>w.
     if lookup w p \<noteq> None then (Inl AlreadyExists, w)
     else if \<not> parent_is_dir w p then (Inl NotFound, w)
     else (Inr (), put p (Symlink target) w))"

text \<open>Replacing rename of a file or symlink: the destination changes in one step.\<close>

definition rename :: "path \<Rightarrow> path \<Rightarrow> unit io" where
  "rename src dst = io (\<lambda>w. case lookup w src of
       None \<Rightarrow> (Inl NotFound, w)
     | Some n \<Rightarrow>
         (case lookup w dst of Some (Directory _) \<Rightarrow> (Inl OtherIo, w)
          | _ \<Rightarrow> if is_dir n then (Inl OtherIo, w) else (Inr (), put dst n (del src w))))"

text \<open>No-replace rename (\<open>RENAME_NOREPLACE\<close>), also of a directory with all it contains.\<close>

definition rename_noreplace :: "path \<Rightarrow> path \<Rightarrow> unit io" where
  "rename_noreplace src dst = io (\<lambda>w.
     if lookup w src = None then (Inl NotFound, w)
     else if lookup w dst \<noteq> None then (Inl AlreadyExists, w)
     else if prefix src dst then (Inl InvalidInput, w)
     else (Inr (), move_tree src dst w))"

definition remove_file :: "path \<Rightarrow> unit io" where
  "remove_file p = io (\<lambda>w. case lookup w p of
       None \<Rightarrow> (Inl NotFound, w) | Some (Directory _) \<Rightarrow> (Inl OtherIo, w) | Some _ \<Rightarrow> (Inr (), del p w))"

text \<open>A failing \<open>remove_dir_all\<close> may have removed any number of the entries below the directory.\<close>

definition del_some_below :: "path \<Rightarrow> nat \<Rightarrow> world \<Rightarrow> world" where
  "del_some_below p n w =
     (let below = filter (\<lambda>(q, _). prefix p q \<and> q \<noteq> p) (files w)
      in foldr (\<lambda>(q, _). del q) (take n below) w)"

definition remove_dir_all :: "path \<Rightarrow> unit io" where
  "remove_dir_all p = io_partial (\<lambda>n w. del_some_below p n w) (\<lambda>w. case lookup w p of
       None \<Rightarrow> (Inl NotFound, w) | Some (Directory _) \<Rightarrow> (Inr (), del_tree p w) | Some _ \<Rightarrow> (Inl OtherIo, w))"

definition fs_read_dir :: "path \<Rightarrow> path list io" where
  "fs_read_dir p = io (\<lambda>w. case stat w p of
       Inl e \<Rightarrow> (Inl e, w)
     | Inr (Directory _) \<Rightarrow> (Inr (remdups (filter (\<lambda>q. parent q = Some p) (map fst (files w)))), w)
     | Inr _ \<Rightarrow> (Inl OtherIo, w))"

text \<open>Advancing the iterator \<open>read_dir\<close> returned can fail for each entry.\<close>

definition dir_entry :: "unit io" where
  "dir_entry = io (\<lambda>w. (Inr (), w))"

text \<open>\<open>DirBuilder\<close> with \<open>recursive(true)\<close>: every missing ancestor is created with the same mode.\<close>

definition mkdir :: "host \<Rightarrow> u32 \<Rightarrow> path \<Rightarrow> unit io" where
  "mkdir h mode p = io (\<lambda>w.
     if lookup w p \<noteq> None then (Inl AlreadyExists, w)
     else if \<not> parent_is_dir w p then (Inl NotFound, w)
     else (Inr (), put p (Directory (new_attr h mode)) w))"

fun create_dir_from :: "host \<Rightarrow> u32 \<Rightarrow> path \<Rightarrow> component list \<Rightarrow> unit io" where
  "create_dir_from h mode cur [] = returnM ()"
| "create_dir_from h mode cur (Normal c # cs) =
     bindM (tryM (open_existing (join cur c))) (\<lambda>r.
     bindM (case r of
          Inr n \<Rightarrow> ensureM (is_dir n) AlreadyExists
        | Inl NotFound \<Rightarrow> mkdir h mode (join cur c)
        | Inl e \<Rightarrow> throwM e) (\<lambda>_.
     create_dir_from h mode (join cur c) cs))"
| "create_dir_from h mode cur (c # cs) = create_dir_from h mode (cur @ [c]) cs"

definition create_dir_all :: "host \<Rightarrow> u32 \<Rightarrow> path \<Rightarrow> unit io" where
  "create_dir_all h mode p = create_dir_from h mode [] p"

text \<open>Random bytes and the clock.\<close>

definition fill_random :: "bytes io" where
  "fill_random = io (\<lambda>w. (Inr (rng w (rng_pos w)), w\<lparr>rng_pos := Suc (rng_pos w)\<rparr>))"

definition utc_now :: "(world, 'e, int) comp" where
  "utc_now w = (Inr (clock w (clock_pos w)), w\<lparr>clock_pos := Suc (clock_pos w)\<rparr>)"

subsection \<open>Which paths a computation may change\<close>

text \<open>\<open>touches S m\<close>: whatever the schedule, \<open>m\<close> changes no node outside \<open>S\<close>.\<close>

definition touches :: "path set \<Rightarrow> (world, 'e, 'a) comp \<Rightarrow> bool" where
  "touches S m \<longleftrightarrow> (\<forall>w p. p \<notin> S \<longrightarrow> lookup (snd (m w)) p = lookup w p)"

named_theorems touches_intros \<open>operations and combinators that stay within a set of paths\<close>

lemma touchesD: "touches S m \<Longrightarrow> m w = (r, w') \<Longrightarrow> p \<notin> S \<Longrightarrow> lookup w' p = lookup w p"
  unfolding touches_def by (metis snd_conv)

lemma touches_mono: "touches S m \<Longrightarrow> S \<subseteq> T \<Longrightarrow> touches T m"
  unfolding touches_def by blast

lemma touches_bind [touches_intros]:
  "touches S m \<Longrightarrow> (\<And>a. touches S (f a)) \<Longrightarrow> touches S (bindM m f)"
  unfolding touches_def bindM_def by (auto split: prod.splits sum.splits) (metis snd_conv)+

lemma touches_basic [touches_intros]:
  "touches S (returnM a)" "touches S (throwM e)" "touches S (liftE r)" "touches S (ensureM b e)"
  by (auto simp: touches_def monad_simps)

lemma touches_bind_post:
  assumes "\<And>w r v. m w = (r, v) \<Longrightarrow> (\<forall>q. q \<notin> S \<longrightarrow> lookup v q = lookup w q) \<and> (\<forall>a. r = Inr a \<longrightarrow> touches S (f a))"
  shows "touches S (bindM m f)"
  unfolding touches_def
proof (intro allI impI)
  fix w q assume q: "q \<notin> S"
  obtain r v where r: "m w = (r, v)" by fastforce
  note res = assms [OF r]
  show "lookup (snd (bindM m f w)) q = lookup w q"
  proof (cases r)
    case (Inl e)
    with r res q show ?thesis by (simp add: bindM_def)
  next
    case (Inr a)
    with res q have "lookup (snd (f a v)) q = lookup v q" by (simp add: touches_def)
    with r Inr res q show ?thesis by (simp add: bindM_def)
  qed
qed

lemma touches_ensure [touches_intros]:
  "(b \<Longrightarrow> touches S (f ())) \<Longrightarrow> touches S (bindM (ensureM b e) f)"
  by (cases b) (auto simp: ensureM_def touches_basic)

lemma touches_liftE [touches_intros]:
  "(\<And>a. r = Inr a \<Longrightarrow> touches S (f a)) \<Longrightarrow> touches S (bindM (liftE r) f)"
  by (cases r) (auto simp: touches_basic)

lemma touches_if [touches_intros]:
  "(b \<Longrightarrow> touches S m) \<Longrightarrow> (\<not> b \<Longrightarrow> touches S n) \<Longrightarrow> touches S (if b then m else n)"
  by simp

lemma touches_when [touches_intros]: "(b \<Longrightarrow> touches S m) \<Longrightarrow> touches S (whenM b m)"
  by (simp add: whenM_def touches_basic)

lemma touches_option [touches_intros]:
  "(x = None \<Longrightarrow> touches S m) \<Longrightarrow> (\<And>y. x = Some y \<Longrightarrow> touches S (f y))
   \<Longrightarrow> touches S (case x of None \<Rightarrow> m | Some y \<Rightarrow> f y)"
  by (cases x) auto

lemma touches_sum [touches_intros]:
  "(\<And>y. x = Inl y \<Longrightarrow> touches S (f y)) \<Longrightarrow> (\<And>y. x = Inr y \<Longrightarrow> touches S (g y))
   \<Longrightarrow> touches S (case x of Inl y \<Rightarrow> f y | Inr y \<Rightarrow> g y)"
  by (cases x) auto

lemma touches_map_err [touches_intros]: "touches S m \<Longrightarrow> touches S (map_errM g m)"
  unfolding touches_def map_errM_def by (auto split: prod.splits sum.splits) (metis snd_conv)+

lemma touches_try [touches_intros]: "touches S m \<Longrightarrow> touches S (tryM m)"
  unfolding touches_def tryM_def by (auto split: prod.splits) (metis snd_conv)

lemma touches_forM [touches_intros]:
  "(\<And>x. x \<in> set xs \<Longrightarrow> touches S (f x)) \<Longrightarrow> touches S (forM xs f)"
  by (induction xs) (auto intro!: touches_bind touches_basic)

lemma touches_io:
  "(\<And>w p. p \<notin> S \<Longrightarrow> lookup (snd (m w)) p = lookup w p) \<Longrightarrow> touches S (io m)"
  by (auto simp: touches_def io_def io_partial_def split: list.splits io_step.splits)

lemma touches_io_partial:
  "(\<And>w p. p \<notin> S \<Longrightarrow> lookup (snd (m w)) p = lookup w p)
   \<Longrightarrow> (\<And>n w p. p \<notin> S \<Longrightarrow> lookup (part n w) p = lookup w p) \<Longrightarrow> touches S (io_partial part m)"
  by (auto simp: touches_def io_partial_def split: list.splits io_step.splits)

lemma lookup_set_content: "q \<noteq> p \<Longrightarrow> lookup (set_content p b w) q = lookup w q"
  by (auto simp: set_content_def split: option.splits node.splits)

lemma lookup_foldr_del: "q \<notin> fst ` set xs \<Longrightarrow> lookup (foldr (\<lambda>(q, _). del q) xs w) q = lookup w q"
  by (induction xs) auto

lemma lookup_del_some_below: "\<not> prefix p q \<Longrightarrow> lookup (del_some_below p n w) q = lookup w q"
  unfolding del_some_below_def Let_def
  by (rule lookup_foldr_del) (auto dest!: in_set_takeD)

text \<open>Calls that only read.\<close>

lemma touches_reads [touches_intros]:
  "touches S (symlink_metadata p)" "touches S (fs_read p)" "touches S (open_existing p)"
  "touches S sync_all" "touches S dir_entry" "touches S (read_link p)" "touches S (fs_read_dir p)" "touches S fill_random"
  unfolding symlink_metadata_def fs_read_def open_existing_def sync_all_def
    dir_entry_def read_link_def fs_read_dir_def fill_random_def
  by (rule touches_io; auto split: option.splits sum.splits node.splits)+

lemma touches_utc_now [touches_intros]: "touches S utc_now"
  by (simp add: touches_def utc_now_def)

text \<open>Calls that write.\<close>

lemma touches_create_new [touches_intros]: "p \<in> S \<Longrightarrow> touches S (create_new h p mode)"
  unfolding create_new_def by (rule touches_io) auto

lemma touches_write_all [touches_intros]: "p \<in> S \<Longrightarrow> touches S (write_all p b)"
  unfolding write_all_def by (rule touches_io_partial) (auto intro!: lookup_set_content)

lemma touches_set_permissions [touches_intros]: "p \<in> S \<Longrightarrow> touches S (set_permissions p mode)"
  unfolding set_permissions_def by (rule touches_io) (auto split: option.splits node.splits)

lemma touches_make_symlink [touches_intros]: "p \<in> S \<Longrightarrow> touches S (make_symlink t p)"
  unfolding make_symlink_def by (rule touches_io) auto

lemma touches_rename [touches_intros]: "p \<in> S \<Longrightarrow> q \<in> S \<Longrightarrow> touches S (rename p q)"
  unfolding rename_def by (rule touches_io) (auto split: option.splits node.splits)

lemma touches_remove_file [touches_intros]: "p \<in> S \<Longrightarrow> touches S (remove_file p)"
  unfolding remove_file_def by (rule touches_io) (auto split: option.splits node.splits)

lemma touches_mkdir [touches_intros]: "p \<in> S \<Longrightarrow> touches S (mkdir h mode p)"
  unfolding mkdir_def by (rule touches_io) auto

lemma touches_remove_dir_all [touches_intros]:
  "{q. prefix p q} \<subseteq> S \<Longrightarrow> touches S (remove_dir_all p)"
  unfolding remove_dir_all_def
  by (rule touches_io_partial) (auto intro!: lookup_del_some_below split: option.splits node.splits)

lemma lookup_move_tree_other:
  assumes "\<not> prefix src p" and "\<not> prefix dst p"
  shows "lookup (move_tree src dst w) p = lookup w p"
proof -
  have "map_of (map (\<lambda>(q, n). (if prefix src q then dst @ drop (length src) q else q, n))
      (filter (\<lambda>(q, _). \<not> prefix dst q) xs)) p = map_of xs p" for xs :: "(path \<times> node) list"
    using assms by (induction xs) auto
  then show ?thesis by (simp add: lookup_def move_tree_def)
qed

lemma touches_rename_noreplace [touches_intros]:
  "{q. prefix src q} \<subseteq> S \<Longrightarrow> {q. prefix dst q} \<subseteq> S \<Longrightarrow> touches S (rename_noreplace src dst)"
  unfolding rename_noreplace_def by (rule touches_io) (auto intro!: lookup_move_tree_other)

lemma touches_create_dir_from:
  "(\<And>q. prefix q (cur @ cs) \<Longrightarrow> q \<in> S) \<Longrightarrow> touches S (create_dir_from h mode cur cs)"
proof (induction h mode cur cs rule: create_dir_from.induct)
  case (2 h mode cur c cs)
  have "prefix (join cur c) (cur @ Normal c # cs)" by (simp add: join_def)
  with "2.prems" have "join cur c \<in> S" by blast
  moreover have "touches S (create_dir_from h mode (join cur c) cs)"
    using "2.prems" by (intro "2.IH") (simp add: join_def)
  ultimately show ?case
    by (auto intro!: touches_intros split: io_kind.splits)
qed (auto intro!: touches_intros)

lemma touches_create_dir_all [touches_intros]:
  "{q. prefix q p} \<subseteq> S \<Longrightarrow> touches S (create_dir_all h mode p)"
  unfolding create_dir_all_def by (rule touches_create_dir_from) auto

subsection \<open>Hoare rules\<close>

lemma valid_touches:
  assumes "touches S m" and "\<And>w w'. P w \<Longrightarrow> \<forall>p. p \<notin> S \<longrightarrow> lookup w' p = lookup w p \<Longrightarrow> P' w'"
  shows "valid P m (\<lambda>_. P') P'"
  using assms by (auto intro!: validI dest: touchesD)

lemma valid_unchanged:
  assumes "touches {} m" and "\<And>w w'. lookup w' = lookup w \<Longrightarrow> P w \<Longrightarrow> P w'"
  shows "valid P m (\<lambda>_. P) P"
  by (rule valid_touches [OF assms(1)]) (use assms(2) in \<open>auto simp: fun_eq_iff\<close>)

lemma keeps_touches:
  assumes "touches S m" and "\<And>w w'. \<forall>p. p \<notin> S \<longrightarrow> lookup w' p = lookup w p \<Longrightarrow> I w \<Longrightarrow> I w'"
  shows "keeps I m"
  unfolding keeps_def by (rule valid_touches [OF assms(1)]) (use assms(2) in blast)

lemma lookup_sched [simp]: "lookup (w\<lparr>sched := ss\<rparr>) = lookup w"
  by (simp add: fun_eq_iff)

lemma io_cases:
  assumes "io m w = (r, w')"
  obtains (run) v where "lookup v = lookup w" "m v = (r, w')" | (stop) "r = Inl OtherIo" "lookup w' = lookup w"
proof (cases "sched w")
  case Nil
  with assms have "m w = (r, w')" by (simp add: io_def io_partial_def)
  then show ?thesis by (rule run [OF refl])
next
  case (Cons a ss)
  show ?thesis
  proof (cases a)
    case IoOk
    with assms Cons have "m (w\<lparr>sched := ss\<rparr>) = (r, w')" by (simp add: io_def io_partial_def)
    then show ?thesis by (rule run [OF lookup_sched])
  qed (use assms Cons in \<open>auto simp: io_def io_partial_def intro!: stop\<close>)
qed

lemma create_new_Inr:
  "create_new h p mode w = (Inr u, w')
   \<Longrightarrow> lookup w p = None \<and> lookup w' = (lookup w)(p \<mapsto> RegularFile (new_attr h mode) [])"
  unfolding create_new_def by (erule io_cases) (auto simp: fun_eq_iff split: if_splits)

lemma create_new_Inl: "create_new h p mode w = (Inl e, w') \<Longrightarrow> lookup w' = lookup w"
  unfolding create_new_def by (erule io_cases) (auto split: if_splits)

lemma write_all_Inr:
  "write_all p b w = (Inr u, w') \<Longrightarrow> lookup w p = Some (RegularFile a c)
   \<Longrightarrow> lookup w' = (lookup w)(p \<mapsto> RegularFile a b)"
  by (auto simp: write_all_def io_partial_def set_content_def fun_eq_iff lookup_def put_def update_conv
      split: list.splits io_step.splits option.splits)

lemma rename_Inr:
  "rename src dst w = (Inr u, w')
   \<Longrightarrow> \<exists>n. lookup w src = Some n \<and> lookup w' = (lookup w)(src := None, dst \<mapsto> n)"
  unfolding rename_def by (erule io_cases) (auto simp: fun_eq_iff split: option.splits node.splits if_splits)

lemma rename_Inl: "rename src dst w = (Inl e, w') \<Longrightarrow> lookup w' = lookup w"
  unfolding rename_def by (erule io_cases) (auto split: option.splits node.splits if_splits)

lemma make_symlink_Inr:
  "make_symlink t p w = (Inr u, w') \<Longrightarrow> lookup w p = None \<and> lookup w' = (lookup w)(p \<mapsto> Symlink t)"
  unfolding make_symlink_def by (erule io_cases) (auto simp: fun_eq_iff split: if_splits)

lemma symlink_metadata_cases:
  assumes "symlink_metadata p w = (r, w')"
  shows "lookup w' = lookup w" and "r = Inr n \<Longrightarrow> lookup w p = Some n"
    and "r = Inl NotFound \<Longrightarrow> lookup w p = None"
  using assms unfolding symlink_metadata_def by (auto elim!: io_cases split: option.splits)

lemma remove_file_Inr: "remove_file p w = (Inr u, w') \<Longrightarrow> lookup w' = (lookup w)(p := None)"
  unfolding remove_file_def by (erule io_cases) (auto simp: fun_eq_iff split: option.splits node.splits)

lemma remove_file_Inl: "remove_file p w = (Inl e, w') \<Longrightarrow> lookup w' = lookup w"
  unfolding remove_file_def by (erule io_cases) (auto split: option.splits node.splits)

end
