(* ===== verification/Windows_Handles.thy ===== *)
theory Windows_Handles
  imports Fs
begin

text \<open>
  The Windows half of \<^verbatim>\<open>src/src/fs/executable.rs\<close>, module \<open>windows_handle\<close>: every component of a path is
  opened relative to the handle of the directory above it with \<open>NtCreateFile\<close>, without following a
  reparse point, and validated through the handle before the next one. An open handle is the path it
  was opened at: nobody but this process changes the tree while an operation runs. Names are compared
  exactly, which is how the program spells the files it made.
\<close>

subsection \<open>Paths\<close>

text \<open>The path is made absolute and normalised, then split into its root and the names below it.\<close>

definition normalize_step :: "path \<Rightarrow> component \<Rightarrow> path" where
  "normalize_step acc c = (case c of CurDir \<Rightarrow> acc
     | ParentDir \<Rightarrow> (case parent acc of None \<Rightarrow> acc | Some q \<Rightarrow> q) | _ \<Rightarrow> acc @ [c])"

definition absolute_normalized :: "host \<Rightarrow> path \<Rightarrow> path" where
  "absolute_normalized h p =
     foldl normalize_step [] (if is_absolute (h_windows h) p then p else h_cwd h @ p)"

fun split_root :: "path \<Rightarrow> string list \<Rightarrow> path \<Rightarrow> io_kind + (path \<times> string list)" where
  "split_root root comps [] = (if root = [] then Inl InvalidInput else Inr (root, comps))"
| "split_root root comps (Normal n # cs) = split_root root (comps @ [n]) cs"
| "split_root root comps (CurDir # cs) = split_root root comps cs"
| "split_root root comps (ParentDir # cs) = Inl InvalidInput"
| "split_root root comps (c # cs) = (if comps = [] then split_root (root @ [c]) comps cs else Inl InvalidInput)"

lemma split_root_append:
  "split_root root comps cs = Inr (root', comps')
   \<Longrightarrow> root @ map Normal comps @ cs = root' @ map Normal comps' \<or> CurDir \<in> set cs"
  by (induction root comps cs rule: split_root.induct) (auto split: if_splits)

lemma CurDir_not_normalized: "CurDir \<notin> set (foldl normalize_step acc cs) \<or> CurDir \<in> set acc"
proof (induction cs arbitrary: acc)
  case (Cons c cs)
  have "CurDir \<in> set (normalize_step acc c) \<Longrightarrow> CurDir \<in> set acc"
    by (auto simp: normalize_step_def split: component.splits option.splits dest!: parent_Some)
  with Cons.IH [of "normalize_step acc c"] show ?case by auto
qed simp

lemma split_root_normalized:
  "split_root [] [] (absolute_normalized h p) = Inr (root, comps)
   \<Longrightarrow> root @ map Normal comps = absolute_normalized h p"
  using split_root_append [of "[]" "[]" "absolute_normalized h p" root comps]
    CurDir_not_normalized [of "[]"] unfolding absolute_normalized_def by fastforce

subsection \<open>Opening relative to a handle\<close>

text \<open>A call of the system that only asks something about an object it has open.\<close>

definition query :: "'a \<Rightarrow> 'a io" where
  "query a = io (\<lambda>w. (Inr a, w))"

text \<open>\<open>directory_is_case_sensitive\<close>: a file system that does not know the question (errors 50 and 87) has
  no case-sensitive directories.\<close>

definition directory_is_case_sensitive :: "host \<Rightarrow> path \<Rightarrow> bool io" where
  "directory_is_case_sensitive h d = query (h_case_sensitive h d)"

datatype disposition = FileOpen | FileOpenIf | FileCreate

datatype object_kind = DirectoryFile | NonDirectoryFile

text \<open>A link is opened itself whatever kind is asked for, and left to the validation of the handle.\<close>

definition opens_as :: "object_kind \<Rightarrow> node \<Rightarrow> bool" where
  "opens_as kind n = (case kind of DirectoryFile \<Rightarrow> \<not> is_file n | NonDirectoryFile \<Rightarrow> \<not> is_dir n)"

definition new_object :: "host \<Rightarrow> object_kind \<Rightarrow> descriptor option \<Rightarrow> node" where
  "new_object h kind sd =
     (let a = (case sd of None \<Rightarrow> new_attr h 0x1FF | Some d \<Rightarrow> (new_attr h 0x1FF)\<lparr>at_security := d\<rparr>)
      in case kind of DirectoryFile \<Rightarrow> Directory a | NonDirectoryFile \<Rightarrow> RegularFile a [])"

text \<open>\<open>NtCreateFile\<close>: an object it creates gets the given security descriptor, an existing one keeps its own.\<close>

definition nt_create_file :: "host \<Rightarrow> disposition \<Rightarrow> object_kind \<Rightarrow> descriptor option \<Rightarrow> path \<Rightarrow> unit io" where
  "nt_create_file h disp kind sd p = io (\<lambda>w. case lookup w p of
       None \<Rightarrow>
         if disp = FileOpen \<or> \<not> parent_is_dir w p then (Inl NotFound, w)
         else (Inr (), put p (new_object h kind sd) w)
     | Some n \<Rightarrow>
         if disp = FileCreate then (Inl AlreadyExists, w)
         else if opens_as kind n then (Inr (), w) else (Inl OtherIo, w))"

text \<open>The length of a name in UTF-16 units: one for each character, one more outside the basic plane.\<close>

definition wide_length :: "string \<Rightarrow> nat" where
  "wide_length s = length (filter (\<lambda>c. (of_char c :: nat) < 0x80 \<or> 0xC0 \<le> (of_char c :: nat)) s)
     + length (filter (\<lambda>c. 0xF0 \<le> (of_char c :: nat)) s)"

definition open_relative ::
  "host \<Rightarrow> path \<Rightarrow> string \<Rightarrow> disposition \<Rightarrow> object_kind \<Rightarrow> descriptor option \<Rightarrow> path io" where
  "open_relative h d name disp kind sd =
     bindM (ensureM (2 * wide_length name < 2 ^ 16) InvalidInput) (\<lambda>_.
     bindM (directory_is_case_sensitive h d) (\<lambda>_.
     bindM (nt_create_file h disp kind sd (join d name)) (\<lambda>_.
     returnM (join d name))))"

definition validate_directory :: "path \<Rightarrow> unit io" where
  "validate_directory p = bindM (symlink_metadata p) (\<lambda>n.
     ensureM (is_dir n \<and> \<not> node_reparse n) PermissionDenied)"

definition validate_regular :: "path \<Rightarrow> unit io" where
  "validate_regular p = bindM (symlink_metadata p) (\<lambda>n.
     ensureM (is_file n \<and> \<not> node_reparse n) PermissionDenied)"

definition open_root :: "path \<Rightarrow> path io" where
  "open_root p =
     bindM (io (\<lambda>w. case lookup w p of None \<Rightarrow> (Inl NotFound, w) | Some _ \<Rightarrow> (Inr (), w))) (\<lambda>_.
     bindM (validate_directory p) (\<lambda>_. returnM p))"

subsection \<open>Directories\<close>

fun walk_windows :: "host \<Rightarrow> disposition \<Rightarrow> descriptor option \<Rightarrow> path \<Rightarrow> string list \<Rightarrow> path io" where
  "walk_windows h disp sd d [] = returnM d"
| "walk_windows h disp sd d (n # ns) =
     bindM (open_relative h d n disp DirectoryFile sd) (\<lambda>d'.
     bindM (validate_directory d') (\<lambda>_.
     walk_windows h disp sd d' ns))"

definition open_directory_with_descriptor :: "host \<Rightarrow> path \<Rightarrow> bool \<Rightarrow> descriptor option \<Rightarrow> path io" where
  "open_directory_with_descriptor h p create sd =
     bindM (liftE (split_root [] [] (absolute_normalized h p))) (\<lambda>(root, comps).
     bindM (open_root root) (\<lambda>d.
     walk_windows h (if create then FileOpenIf else FileOpen) sd d comps))"

text \<open>Missing ancestors get the descriptor of the leaf.\<close>

definition create_private_directory :: "host \<Rightarrow> path \<Rightarrow> descriptor \<Rightarrow> path io" where
  "create_private_directory h p sd =
     (let q = absolute_normalized h p in
      bindM (liftE (ok_orE (parent q) InvalidInput)) (\<lambda>par.
      bindM (liftE (ok_orE (file_name q) InvalidInput)) (\<lambda>name.
      bindM (open_directory_with_descriptor h par True (Some sd)) (\<lambda>dir.
      bindM (open_relative h dir name FileCreate DirectoryFile (Some sd)) (\<lambda>d.
      bindM (validate_directory d) (\<lambda>_.
      returnM d))))))"

subsection \<open>Regular files\<close>

definition open_regular :: "host \<Rightarrow> path \<Rightarrow> path io" where
  "open_regular h p =
     (let par = (case parent p of Some q \<Rightarrow> if q = [] then [CurDir] else q | None \<Rightarrow> [CurDir]) in
      bindM (liftE (ok_orE (file_name p) InvalidInput)) (\<lambda>name.
      bindM (open_directory_with_descriptor h par False None) (\<lambda>d.
      bindM (open_relative h d name FileOpen NonDirectoryFile None) (\<lambda>f.
      bindM (validate_regular f) (\<lambda>_. returnM f)))))"

definition create_file :: "host \<Rightarrow> path \<Rightarrow> string \<Rightarrow> path io" where
  "create_file h d name =
     bindM (open_relative h d name FileCreate NonDirectoryFile None) (\<lambda>f.
     bindM (validate_regular f) (\<lambda>_. returnM f))"

text \<open>The file goes when the handle that asked for it is closed.\<close>

definition delete_open_file :: "path \<Rightarrow> unit io" where
  "delete_open_file f = Fs.remove_file f"

definition remove_file_relative :: "host \<Rightarrow> path \<Rightarrow> string \<Rightarrow> unit io" where
  "remove_file_relative h d name =
     bindM (open_relative h d name FileOpen NonDirectoryFile None) (\<lambda>f.
     bindM (validate_regular f) (\<lambda>_. delete_open_file f))"

text \<open>\<open>lock_regular\<close> keeps every directory on the way open without \<open>FILE_SHARE_DELETE\<close>, so none can be
  replaced while the handle is open; the names and the directories are those of \<open>open_regular\<close>.\<close>

definition lock_regular :: "host \<Rightarrow> path \<Rightarrow> path io" where
  "lock_regular h p =
     bindM (liftE (split_root [] [] (absolute_normalized h p))) (\<lambda>(root, comps).
     bindM (ensureM (comps \<noteq> []) InvalidInput) (\<lambda>_.
     bindM (open_root root) (\<lambda>r.
     bindM (walk_windows h FileOpen None r (butlast comps)) (\<lambda>d.
     bindM (open_relative h d (last comps) FileOpen NonDirectoryFile None) (\<lambda>f.
     bindM (validate_regular f) (\<lambda>_. returnM f))))))"

text \<open>Two handles are of one object if they have the same identity, which is the path of the object.\<close>

definition same_object :: "path \<Rightarrow> path \<Rightarrow> bool io" where
  "same_object l r = bindM (query l) (\<lambda>left. bindM (query r) (\<lambda>right. returnM (left = right)))"

subsection \<open>What the operations may change\<close>

lemma touches_query [touches_intros]: "touches S (query a)"
  unfolding query_def by (rule touches_io) simp

lemma touches_same_object [touches_intros]: "touches S (same_object l r)"
  unfolding same_object_def by (intro touches_intros)

lemma touches_validate [touches_intros]:
  "touches S (directory_is_case_sensitive h d)" "touches S (validate_directory p)" "touches S (validate_regular p)"
  unfolding directory_is_case_sensitive_def validate_directory_def validate_regular_def by (intro touches_intros)+

lemma touches_open_root [touches_intros]: "touches S (open_root p)"
  unfolding open_root_def by (intro touches_intros touches_io) (simp split: option.splits)

lemma touches_nt_create_file: "disp = FileOpen \<or> p \<in> S \<Longrightarrow> touches S (nt_create_file h disp kind sd p)"
  unfolding nt_create_file_def by (rule touches_io) (auto split: option.splits)

lemma touches_open_relative [touches_intros]:
  "disp = FileOpen \<or> join d name \<in> S \<Longrightarrow> touches S (open_relative h d name disp kind sd)"
  unfolding open_relative_def by (intro touches_intros touches_nt_create_file)

lemma open_relative_path: "open_relative h d name disp kind sd w = (Inr f, w') \<Longrightarrow> f = join d name"
  by (auto simp: open_relative_def bindM_return_iff returnM_apply)

lemma prefix_snoc_Cons [intro!]: "prefix (xs @ [c]) (xs @ c # cs)"
  by simp

text \<open>The handle a call opened is at the name it was asked for.\<close>

lemma touches_open_relative_bind:
  assumes "disp = FileOpen \<or> join d name \<in> S" and "touches S (f (join d name))"
  shows "touches S (bindM (open_relative h d name disp kind sd) f)"
proof (rule touches_bind_post)
  fix w r v assume r: "open_relative h d name disp kind sd w = (r, v)"
  with touchesD [OF touches_open_relative [OF assms(1)] r] assms(2)
  show "(\<forall>q. q \<notin> S \<longrightarrow> lookup v q = lookup w q) \<and> (\<forall>a. r = Inr a \<longrightarrow> touches S (f a))"
    using open_relative_path by blast
qed

lemma touches_walk_windows:
  "disp = FileOpen \<or> {q. prefix q (d @ map Normal ns)} \<subseteq> S \<Longrightarrow> touches S (walk_windows h disp sd d ns)"
proof (induction ns arbitrary: d)
  case (Cons n ns)
  then have "touches S (walk_windows h disp sd (join d n) ns)" by (simp add: join_def)
  moreover have "disp = FileOpen \<or> join d n \<in> S" using Cons.prems by (auto simp: join_def)
  ultimately show ?case
    unfolding walk_windows.simps by (intro touches_open_relative_bind touches_bind touches_validate)
qed (simp add: touches_intros)

lemma open_root_path: "open_root p w = (Inr d, w') \<Longrightarrow> d = p"
  by (auto simp: open_root_def bindM_return_iff returnM_apply)

lemma touches_open_root_bind:
  assumes "touches S (f p)"
  shows "touches S (bindM (open_root p) f)"
proof (rule touches_bind_post)
  fix w r v assume r: "open_root p w = (r, v)"
  with touchesD [OF touches_open_root r] assms
  show "(\<forall>q. q \<notin> S \<longrightarrow> lookup v q = lookup w q) \<and> (\<forall>a. r = Inr a \<longrightarrow> touches S (f a))"
    using open_root_path by blast
qed

lemma touches_open_directory_desc:
  assumes "\<not> create \<or> {q. prefix q (absolute_normalized h p)} \<subseteq> S"
  shows "touches S (open_directory_with_descriptor h p create sd)"
proof (cases "split_root [] [] (absolute_normalized h p)")
  case (Inr rc)
  obtain root comps where rc: "rc = (root, comps)" by fastforce
  have "root @ map Normal comps = absolute_normalized h p"
    using Inr rc split_root_normalized by blast
  with Inr rc assms show ?thesis
    unfolding open_directory_with_descriptor_def
    by (auto intro!: touches_open_root_bind touches_walk_windows)
qed (auto simp: open_directory_with_descriptor_def intro!: touches_intros)

lemma touches_open_directory_existing [touches_intros]:
  "touches S (open_directory_with_descriptor h p False sd)"
  by (rule touches_open_directory_desc) simp

lemma touches_regular [touches_intros]:
  "touches S (open_regular h p)" "touches S (lock_regular h p)"
  unfolding open_regular_def lock_regular_def Let_def
  by (auto intro!: touches_intros touches_walk_windows)

lemma touches_create_file [touches_intros]: "join d name \<in> S \<Longrightarrow> touches S (create_file h d name)"
  unfolding create_file_def by (intro touches_intros) simp

lemma create_file_path: "create_file h d name w = (Inr f, w') \<Longrightarrow> f = join d name"
  by (auto simp: create_file_def bindM_return_iff returnM_apply dest!: open_relative_path)

lemma touches_create_file_bind:
  assumes "join d name \<in> S" and "touches S (f (join d name))"
  shows "touches S (bindM (create_file h d name) f)"
proof (rule touches_bind_post)
  fix w r v assume r: "create_file h d name w = (r, v)"
  with touchesD [OF touches_create_file [OF assms(1)] r] assms(2)
  show "(\<forall>q. q \<notin> S \<longrightarrow> lookup v q = lookup w q) \<and> (\<forall>a. r = Inr a \<longrightarrow> touches S (f a))"
    using create_file_path by blast
qed

lemma touches_delete_open_file [touches_intros]: "f \<in> S \<Longrightarrow> touches S (delete_open_file f)"
  unfolding delete_open_file_def by (rule touches_remove_file)

lemma touches_remove_file_relative [touches_intros]:
  "join d name \<in> S \<Longrightarrow> touches S (remove_file_relative h d name)"
  unfolding remove_file_relative_def by (intro touches_open_relative_bind touches_intros) simp_all

subsection \<open>Where the handles are\<close>

lemma walk_windows_path: "walk_windows h disp sd d ns w = (Inr d', w') \<Longrightarrow> d' = d @ map Normal ns"
  by (induction ns arbitrary: d w)
    (fastforce simp: bindM_return_iff returnM_apply join_def dest!: open_relative_path)+

lemma open_directory_desc_path:
  assumes "open_directory_with_descriptor h p create sd w = (Inr d, w')"
  shows "d = absolute_normalized h p"
proof -
  from assms obtain root comps v where
    s: "split_root [] [] (absolute_normalized h p) = Inr (root, comps)" and
    wk: "walk_windows h (if create then FileOpenIf else FileOpen) sd root comps v = (Inr d, w')"
    by (auto simp: open_directory_with_descriptor_def bindM_return_iff liftE_apply dest!: open_root_path)
  from split_root_normalized [OF s] walk_windows_path [OF wk] show ?thesis by simp
qed

lemma touches_create_private_directory:
  assumes "absolute_normalized h p = p" and "\<And>q. parent p = Some q \<Longrightarrow> absolute_normalized h q = q"
    and "{q. prefix q p} \<subseteq> S"
  shows "touches S (create_private_directory h p sd)"
proof (cases "parent p = None \<or> file_name p = None")
  case True
  with assms(1) show ?thesis
    by (auto simp: create_private_directory_def Let_def ok_orE_def intro!: touches_intros)
next
  case False
  then obtain par name where par: "parent p = Some par" "file_name p = Some name" by auto
  then have p: "p = join par name"
    by (auto simp: parent_def file_name_def join_def rev_eq_Cons_iff split: list.splits component.splits)
  have npar: "absolute_normalized h par = par" using assms(2) par(1) .
  have leaf: "touches S (bindM (open_relative h par name FileCreate DirectoryFile (Some sd)) (\<lambda>d.
      bindM (validate_directory d) (\<lambda>_. returnM d)))"
    using assms(3) p by (intro touches_intros) auto
  have dir: "touches S (open_directory_with_descriptor h par True (Some sd))"
    using assms(3) prefix_order.trans [OF _ prefix_join] by (intro touches_open_directory_desc) (auto simp: npar p)
  have "touches S (bindM (open_directory_with_descriptor h par True (Some sd)) (\<lambda>dir.
      bindM (open_relative h dir name FileCreate DirectoryFile (Some sd)) (\<lambda>d.
      bindM (validate_directory d) (\<lambda>_. returnM d))))"
  proof (rule touches_bind_post, intro conjI allI impI)
    fix w r v q assume r: "open_directory_with_descriptor h par True (Some sd) w = (r, v)"
    show "lookup v q = lookup w q" if "q \<notin> S"
      using touchesD [OF dir r that] .
    show "touches S (bindM (open_relative h a name FileCreate DirectoryFile (Some sd)) (\<lambda>d.
        bindM (validate_directory d) (\<lambda>_. returnM d)))" if "r = Inr a" for a
      using leaf open_directory_desc_path [of h par True "Some sd" w a v] r that npar by simp
  qed
  then show ?thesis
    using par assms(1) by (simp add: create_private_directory_def ok_orE_def)
qed

end
