(* ===== verification/Security.thy ===== *)
theory Security
  imports Windows_Handles
begin

text \<open>
  The private-directory policy (\<^verbatim>\<open>src/src/fs/security.rs\<close>). On Unix a private directory is a real one of
  the user with no access for group and others. On Windows it is a real one whose protected access-control
  list has a single entry, full control for the user who owns it. The calls that turn the text of a
  descriptor or of a security identifier into its binary form are the host's; a call that fails is a
  failing step of the schedule. \<open>sddl_ok\<close> states what the code relies on: the text it composes describes
  exactly that list.
\<close>

subsection \<open>Unix\<close>

definition validate_private_dir :: "host \<Rightarrow> node \<Rightarrow> io_kind + unit" where
  "validate_private_dir h n = (case n of
       Directory a \<Rightarrow>
         if at_uid a \<noteq> h_uid h then Inl PermissionDenied
         else if at_mode a AND 0x3F \<noteq> 0 then Inl PermissionDenied
         else Inr ()
     | _ \<Rightarrow> Inl PermissionDenied)"

definition ensure_private_dir_unix :: "host \<Rightarrow> path \<Rightarrow> unit io" where
  "ensure_private_dir_unix h p =
     bindM (tryM (symlink_metadata p)) (\<lambda>r. case r of
       Inr n \<Rightarrow> liftE (validate_private_dir h n)
     | Inl e \<Rightarrow>
         bindM (ensureM (e = NotFound) e) (\<lambda>_.
         bindM (create_dir_all h 0x1C0 p) (\<lambda>_.
         bindM (set_permissions p 0x1C0) (\<lambda>_.
         bindM (symlink_metadata p) (\<lambda>n. liftE (validate_private_dir h n))))))"

subsection \<open>Windows\<close>

definition SE_DACL_PROTECTED :: u16 where "SE_DACL_PROTECTED = 0x1000"
definition OBJECT_INHERIT_ACE :: u32 where "OBJECT_INHERIT_ACE = 1"
definition CONTAINER_INHERIT_ACE :: u32 where "CONTAINER_INHERIT_ACE = 2"
definition FILE_ALL_ACCESS :: u32 where "FILE_ALL_ACCESS = 0x1F01FF"
definition GENERIC_ALL :: u32 where "GENERIC_ALL = 0x10000000"

text \<open>The token of the process, the size and the value of its user, and its text: four calls.\<close>

definition current_user_sid :: "host \<Rightarrow> string io" where
  "current_user_sid h =
     bindM (query ()) (\<lambda>_. bindM (query ()) (\<lambda>_. bindM (query ()) (\<lambda>_. query (h_sid h))))"

definition private_sddl :: "string \<Rightarrow> string" where
  "private_sddl sid = ''O:'' @ sid @ ''D:P(A;OICI;GA;;;'' @ sid @ '')''"

definition private_security_descriptor :: "host \<Rightarrow> descriptor io" where
  "private_security_descriptor h =
     bindM (current_user_sid h) (\<lambda>sid.
     bindM (query (h_sddl h (private_sddl sid))) (\<lambda>d.
     liftE (ok_orE d OtherIo)))"

definition node_security :: "node \<Rightarrow> descriptor" where
  "node_security n = (case n of Directory a \<Rightarrow> at_security a | RegularFile a _ \<Rightarrow> at_security a
     | Special a \<Rightarrow> at_security a | Symlink _ \<Rightarrow> inherited_descriptor)"

text \<open>\<open>GetSecurityInfo\<close> on an open handle.\<close>

definition get_security_info :: "path \<Rightarrow> descriptor io" where
  "get_security_info p = io (\<lambda>w. case lookup w p of
       None \<Rightarrow> (Inl NotFound, w) | Some n \<Rightarrow> (Inr (node_security n), w))"

definition full_control_ace :: "ace \<Rightarrow> bool" where
  "full_control_ace a \<longleftrightarrow>
     (let required = OBJECT_INHERIT_ACE OR CONTAINER_INHERIT_ACE in
      \<not> (ace_type a \<noteq> 0 \<or> ucast (ace_flags a) AND required \<noteq> required
         \<or> (ace_mask a AND FILE_ALL_ACCESS \<noteq> FILE_ALL_ACCESS \<and> ace_mask a AND GENERIC_ALL \<noteq> GENERIC_ALL)))"

definition validate_private_dacl :: "host \<Rightarrow> path \<Rightarrow> unit io" where
  "validate_private_dacl h p =
     bindM (get_security_info p) (\<lambda>sd.
     bindM (query (sd_control sd)) (\<lambda>control.
     bindM (liftE (case sd_dacl sd of
          None \<Rightarrow> Inl PermissionDenied
        | Some aces \<Rightarrow> if control AND SE_DACL_PROTECTED = 0 then Inl PermissionDenied else Inr aces)) (\<lambda>aces.
     bindM (query (length aces)) (\<lambda>count.
     bindM (ensureM (count = 1) PermissionDenied) (\<lambda>_.
     bindM (query (aces ! 0)) (\<lambda>a.
     bindM (ensureM (full_control_ace a) PermissionDenied) (\<lambda>_.
     bindM (current_user_sid h) (\<lambda>sid.
     bindM (query sid) (\<lambda>expected.
     bindM (ensureM (ace_sid a = expected) PermissionDenied) (\<lambda>_.
     ensureM (sd_owner sd = Some expected) PermissionDenied))))))))))"

definition validate_private_dir_handle :: "host \<Rightarrow> path \<Rightarrow> unit io" where
  "validate_private_dir_handle h p =
     bindM (symlink_metadata p) (\<lambda>n.
     bindM (ensureM (is_dir n) PermissionDenied) (\<lambda>_.
     bindM (ensureM (\<not> node_reparse n) PermissionDenied) (\<lambda>_.
     validate_private_dacl h p)))"

text \<open>\<open>validate_found_dir\<close> adds the path to the message and keeps the kind of the error.\<close>

definition validate_found_dir :: "host \<Rightarrow> path \<Rightarrow> unit io" where
  "validate_found_dir h d = validate_private_dir_handle h d"

definition ensure_private_dir_windows :: "host \<Rightarrow> path \<Rightarrow> unit io" where
  "ensure_private_dir_windows h p =
     bindM (tryM (open_directory_with_descriptor h p False None)) (\<lambda>r. case r of
       Inr d \<Rightarrow> validate_found_dir h d
     | Inl e \<Rightarrow>
         bindM (ensureM (e = NotFound) e) (\<lambda>_.
         bindM (private_security_descriptor h) (\<lambda>sd.
         bindM (tryM (create_private_directory h p sd)) (\<lambda>created. case created of
           Inr d \<Rightarrow> validate_private_dir_handle h d
         | Inl e' \<Rightarrow>
             bindM (ensureM (e' = AlreadyExists) e') (\<lambda>_.
             bindM (open_directory_with_descriptor h p False None) (\<lambda>d. validate_found_dir h d))))))"

definition ensure_private_dir :: "host \<Rightarrow> path \<Rightarrow> unit io" where
  "ensure_private_dir h p =
     (if h_windows h then ensure_private_dir_windows h p else ensure_private_dir_unix h p)"

subsection \<open>What is private\<close>

definition private_attr :: "host \<Rightarrow> attr \<Rightarrow> bool" where
  "private_attr h a \<longleftrightarrow>
     (if h_windows h then
        \<not> at_reparse a \<and> at_security a \<in> {d. sd_control d AND SE_DACL_PROTECTED \<noteq> 0 \<and> sd_owner d = Some (h_sid h)
          \<and> (\<exists>e. sd_dacl d = Some [e] \<and> full_control_ace e \<and> ace_sid e = h_sid h)}
      else at_uid a = h_uid h \<and> at_mode a AND 0x3F = 0)"

definition sddl_ok :: "host \<Rightarrow> bool" where
  "sddl_ok h \<longleftrightarrow> (\<exists>d e. h_sddl h (private_sddl (h_sid h)) = Some d \<and> sd_control d AND SE_DACL_PROTECTED \<noteq> 0
     \<and> sd_owner d = Some (h_sid h) \<and> sd_dacl d = Some [e] \<and> full_control_ace e \<and> ace_sid e = h_sid h)"

text \<open>A question that is answered changed nothing.\<close>

lemma query_bindE:
  assumes "bindM (query a) f w = (Inr b, w')"
  obtains v where "lookup v = lookup w" "f a v = (Inr b, w')"
  using assms by (auto simp: query_def bindM_return_iff elim!: io_cases)

lemma current_user_sid_bindE:
  assumes "bindM (current_user_sid h) f w = (Inr b, w')"
  obtains v where "lookup v = lookup w" "f (h_sid h) v = (Inr b, w')"
  using assms unfolding current_user_sid_def bindM_assoc by (elim query_bindE) simp

subsection \<open>What the operations may change\<close>

lemma touches_security [touches_intros]:
  "touches S (current_user_sid h)" "touches S (private_security_descriptor h)" "touches S (get_security_info p)"
  unfolding current_user_sid_def private_security_descriptor_def get_security_info_def
  by (intro touches_intros touches_io; simp split: option.splits)+

lemma touches_validate_private [touches_intros]:
  "touches S (validate_private_dacl h p)" "touches S (validate_private_dir_handle h p)" "touches S (validate_found_dir h p)"
  unfolding validate_found_dir_def validate_private_dir_handle_def validate_private_dacl_def
  by (intro touches_intros)+

end
