(* ===== verification/Executable.thy ===== *)
theory Executable
  imports Security
begin

text \<open>
  Secure file primitives (\<^verbatim>\<open>src/src/fs/executable.rs\<close>). The \<^verbatim>\<open>cfg(windows)\<close> and \<^verbatim>\<open>cfg(unix)\<close> branches
  are selected by \<open>h_windows\<close> of the host; the Windows branches call the module of theory
  Windows_Handles. An open handle is the path it was opened at: nobody but this process changes the
  tree while an operation runs. The raw calls \<open>openat\<close> are the definitions \<open>open_dir_at\<close> and
  \<open>open_file_at\<close>.
\<close>

subsection \<open>Names\<close>

definition windows_reserved :: "string list" where
  "windows_reserved = [''CON'', ''PRN'', ''AUX'', ''NUL'',
     ''COM1'', ''COM2'', ''COM3'', ''COM4'', ''COM5'', ''COM6'', ''COM7'', ''COM8'', ''COM9'',
     ''COM'' @ [CHR 0xC2, CHR 0xB9], ''COM'' @ [CHR 0xC2, CHR 0xB2], ''COM'' @ [CHR 0xC2, CHR 0xB3],
     ''LPT1'', ''LPT2'', ''LPT3'', ''LPT4'', ''LPT5'', ''LPT6'', ''LPT7'', ''LPT8'', ''LPT9'',
     ''LPT'' @ [CHR 0xC2, CHR 0xB9], ''LPT'' @ [CHR 0xC2, CHR 0xB2], ''LPT'' @ [CHR 0xC2, CHR 0xB3],
     ''CONIN$'', ''CONOUT$'']"

definition is_safe_basename :: "string \<Rightarrow> bool \<Rightarrow> bool" where
  "is_safe_basename value windows_semantics =
     (if value = [] \<or> value = ''.'' \<or> value = ''..'' \<or> CHR ''/'' \<in> set value \<or> CHR 0x5C \<in> set value
         \<or> CHR 0x00 \<in> set value \<or> CHR '':'' \<in> set value then False
      else if \<not> windows_semantics then True
      else if last value = CHR '' '' \<or> last value = CHR ''.'' \<or> list_ex (\<lambda>c. (of_char c :: nat) < 32) value
         \<or> list_ex (\<lambda>c. c \<in> {CHR 0x22, CHR ''<'', CHR ''>'', CHR ''|'', CHR ''?'', CHR ''*''}) value
      then False
      else to_ascii_uppercase (hd (split_on (CHR ''.'') value)) \<notin> set windows_reserved)"

text \<open>\<open>str::trim\<close> leaves a string unchanged: no Unicode white space (in UTF-8) at either end.\<close>

definition white_space :: "bytes list" where
  "white_space = map (\<lambda>n. [char_of (n :: nat)]) [9, 10, 11, 12, 13, 32]
     @ [[CHR 0xC2, CHR 0x85], [CHR 0xC2, CHR 0xA0], [CHR 0xE1, CHR 0x9A, CHR 0x80]]
     @ map (\<lambda>n. [CHR 0xE2, CHR 0x80, char_of n]) ([0x80..<0x8B] @ [0xA8, 0xA9, 0xAF :: nat])
     @ [[CHR 0xE2, CHR 0x81, CHR 0x9F], [CHR 0xE3, CHR 0x80, CHR 0x80]]"

definition is_trimmed :: "string \<Rightarrow> bool" where
  "is_trimmed s \<longleftrightarrow> list_all (\<lambda>w. \<not> prefix w s \<and> \<not> suffix w s) white_space"

text \<open>The immutable launcher protocol: the payload is derived from the version in \<open>active\<close> alone.\<close>

definition resolve_launcher_v1_payload ::
  "('v, 'z) lib_scheme \<Rightarrow> path \<Rightarrow> bytes \<Rightarrow> string \<Rightarrow> io_kind + path" where
  "resolve_launcher_v1_payload lib launcher active payload =
     bindE (ok_orE (parent launcher) InvalidData) (\<lambda>bin.
     bindE (ensureE (case file_name bin of None \<Rightarrow> False
              | Some n \<Rightarrow> to_ascii_uppercase n = ''BIN'') InvalidData) (\<lambda>_.
     bindE (ok_orE (parent bin) InvalidData) (\<lambda>root.
     bindE (ok_orE (from_utf8 active) InvalidData) (\<lambda>raw.
     bindE (ensureE (raw \<noteq> [] \<and> length raw \<le> 128 \<and> is_trimmed raw) InvalidData) (\<lambda>_.
     bindE (ok_orE (version_parse lib raw) InvalidData) (\<lambda>v.
     bindE (ensureE (version_string lib v = raw) InvalidData) (\<lambda>_.
     bindE (ensureE (is_safe_basename payload True) InvalidInput) (\<lambda>_.
     Inr (join (join (join root ''versions'') (version_string lib v)) payload)))))))))"

subsection \<open>Kinds of nodes\<close>

definition is_reparse_point :: "host \<Rightarrow> path \<Rightarrow> bool io" where
  "is_reparse_point h p =
     (if h_windows h then bindM (symlink_metadata p) (\<lambda>n. returnM (node_reparse n)) else returnM False)"

definition ensure_regular_file :: "host \<Rightarrow> path \<Rightarrow> unit io" where
  "ensure_regular_file h p =
     bindM (symlink_metadata p) (\<lambda>n.
     bindM (if is_symlink n \<or> \<not> is_file n then returnM True else is_reparse_point h p) (\<lambda>bad.
     ensureM (\<not> bad) PermissionDenied))"

definition ensure_directory :: "host \<Rightarrow> path \<Rightarrow> unit io" where
  "ensure_directory h p =
     bindM (symlink_metadata p) (\<lambda>n.
     bindM (if \<not> is_dir n \<or> is_symlink n then returnM True else is_reparse_point h p) (\<lambda>bad.
     ensureM (\<not> bad) PermissionDenied))"

definition reject_reparse :: "host \<Rightarrow> path \<Rightarrow> unit io" where
  "reject_reparse h p =
     bindM (tryM (symlink_metadata p)) (\<lambda>r. case r of
       Inr n \<Rightarrow> bindM (if is_symlink n then returnM True else is_reparse_point h p) (\<lambda>bad.
                ensureM (\<not> bad) PermissionDenied)
     | Inl e \<Rightarrow> ensureM (e = NotFound) e)"

subsection \<open>Opening without following links\<close>

definition open_dir_at :: "path \<Rightarrow> unit io" where
  "open_dir_at p = io (\<lambda>w. case lookup w p of None \<Rightarrow> (Inl NotFound, w)
     | Some (Directory _) \<Rightarrow> (Inr (), w) | Some _ \<Rightarrow> (Inl OtherIo, w))"

text \<open>\<open>O_NOFOLLOW\<close>: the link itself does not open.\<close>

definition open_file_at :: "path \<Rightarrow> unit io" where
  "open_file_at p = io (\<lambda>w. case lookup w p of None \<Rightarrow> (Inl NotFound, w)
     | Some (Symlink _) \<Rightarrow> (Inl OtherIo, w)
     | Some _ \<Rightarrow> (Inr (), w))"

text \<open>\<open>FILE_FLAG_OPEN_REPARSE_POINT\<close>: the link itself is opened; a directory does not open.\<close>

definition open_existing_reparse :: "path \<Rightarrow> unit io" where
  "open_existing_reparse p = io (\<lambda>w. case lookup w p of None \<Rightarrow> (Inl NotFound, w)
     | Some (Directory _) \<Rightarrow> (Inl OtherIo, w)
     | Some _ \<Rightarrow> (Inr (), w))"

definition read_handle :: "path \<Rightarrow> bytes io" where
  "read_handle p = io (\<lambda>w. case lookup w p of Some (RegularFile _ b) \<Rightarrow> (Inr b, w) | _ \<Rightarrow> (Inl OtherIo, w))"

fun walk_unix :: "host \<Rightarrow> bool \<Rightarrow> path \<Rightarrow> component list \<Rightarrow> path io" where
  "walk_unix h create cur [] = returnM cur"
| "walk_unix h create cur (Normal n # cs) =
     bindM (ensureM (CHR 0x00 \<notin> set n) InvalidInput) (\<lambda>_.
     bindM (tryM (open_dir_at (join cur n))) (\<lambda>opened.
     bindM (case opened of
          Inr _ \<Rightarrow> returnM ()
        | Inl e \<Rightarrow>
            bindM (ensureM (create \<and> e = NotFound) e) (\<lambda>_.
            bindM (tryM (mkdir h 0x1C0 (join cur n))) (\<lambda>created.
            bindM (case created of Inr _ \<Rightarrow> returnM () | Inl e' \<Rightarrow> ensureM (e' = AlreadyExists) e') (\<lambda>_.
            open_dir_at (join cur n))))) (\<lambda>_.
     bindM (symlink_metadata (join cur n)) (\<lambda>m.
     bindM (ensureM (is_dir m) PermissionDenied) (\<lambda>_.
     walk_unix h create (join cur n) cs)))))"
| "walk_unix h create cur (RootDir # cs) = walk_unix h create cur cs"
| "walk_unix h create cur (CurDir # cs) = walk_unix h create cur cs"
| "walk_unix h create cur (ParentDir # cs) = throwM InvalidInput"
| "walk_unix h create cur (Prefix _ # cs) = throwM InvalidInput"

definition open_directory_tree :: "host \<Rightarrow> path \<Rightarrow> bool \<Rightarrow> path io" where
  "open_directory_tree h p create =
     (let start = (if is_absolute False p then [RootDir] else h_cwd h) in
      bindM (open_dir_at start) (\<lambda>_. walk_unix h create start p))"

definition open_directory :: "host \<Rightarrow> path \<Rightarrow> bool \<Rightarrow> path io" where
  "open_directory h p create =
     (if h_windows h then open_directory_with_descriptor h p create None
      else open_directory_tree h p create)"

definition ensure_directory_tree :: "host \<Rightarrow> path \<Rightarrow> unit io" where
  "ensure_directory_tree h p = bindM (open_directory h p True) (\<lambda>_. returnM ())"

text \<open>The handle returned is the path of the file below the directory that was opened.\<close>

definition open_regular_file_secure :: "host \<Rightarrow> path \<Rightarrow> path io" where
  "open_regular_file_secure h p =
     (if h_windows h then open_regular h p
      else
        bindM (liftE (ok_orE (parent p) InvalidInput)) (\<lambda>q.
        bindM (open_directory_tree h (if q = [] then [CurDir] else q) False) (\<lambda>dir.
        bindM (liftE (ok_orE (file_name p) InvalidInput)) (\<lambda>name.
        bindM (ensureM (CHR 0x00 \<notin> set name) InvalidInput) (\<lambda>_.
        bindM (open_file_at (join dir name)) (\<lambda>_.
        bindM (symlink_metadata (join dir name)) (\<lambda>n.
        bindM (ensureM (is_file n) PermissionDenied) (\<lambda>_.
        returnM (join dir name)))))))))"

text \<open>\<open>open_regular_file\<close>: only the last component is kept from being a link.\<close>

definition open_regular_file :: "host \<Rightarrow> path \<Rightarrow> path io" where
  "open_regular_file h p =
     bindM (if h_windows h then open_existing_reparse p else open_file_at p) (\<lambda>_.
     bindM (symlink_metadata p) (\<lambda>n.
     bindM (ensureM (is_file n) PermissionDenied) (\<lambda>_.
     bindM (whenM (h_windows h) (ensureM (\<not> node_reparse n) PermissionDenied)) (\<lambda>_.
     returnM p))))"

text \<open>\<open>release::sha256_file\<close>.\<close>

definition sha256_file :: "('v, 'z) lib_scheme \<Rightarrow> host \<Rightarrow> path \<Rightarrow> string io" where
  "sha256_file lib h p =
     bindM (open_regular_file_secure h p) (\<lambda>f.
     bindM (read_handle f) (\<lambda>b. liftE (fst (sha256_reader lib (reader_of b)))))"

subsection \<open>Creating and replacing files\<close>

text \<open>\<open>TEMP_COUNTER.fetch_add(1)\<close>: 64-bit, wrapping.\<close>

definition temporary_path :: "host \<Rightarrow> path \<Rightarrow> string \<Rightarrow> (world, 'e, path) comp" where
  "temporary_path h p kind w =
     (let name = (case file_name p of None \<Rightarrow> ''file'' | Some n \<Rightarrow> n);
          tmp = ''.'' @ name @ ''.'' @ kind @ ''.'' @ decimal (h_pid h) @ ''.''
                 @ decimal (unat (temp_counter w)) @ ''.tmp''
      in (Inr (with_file_name p tmp), w\<lparr>temp_counter := temp_counter w + 1\<rparr>))"

fun create_temporary_loop :: "host \<Rightarrow> path \<Rightarrow> u32 option \<Rightarrow> nat \<Rightarrow> io_kind option \<Rightarrow> path io" where
  "create_temporary_loop h p mode 0 last_error =
     throwM (case last_error of Some e \<Rightarrow> e | None \<Rightarrow> AlreadyExists)"
| "create_temporary_loop h p mode (Suc n) last_error =
     bindM (temporary_path h p ''file'') (\<lambda>tmp.
     bindM (tryM (create_new h tmp (case mode of Some m \<Rightarrow> m | None \<Rightarrow> 0x1B6))) (\<lambda>r. case r of
       Inr _ \<Rightarrow> returnM tmp
     | Inl e \<Rightarrow> if e = AlreadyExists then create_temporary_loop h p mode n (Some e) else throwM e))"

definition create_temporary_file :: "host \<Rightarrow> path \<Rightarrow> u32 option \<Rightarrow> path io" where
  "create_temporary_file h p mode = create_temporary_loop h p mode 32 None"

definition sync_dir :: "host \<Rightarrow> path \<Rightarrow> unit io" where
  "sync_dir h p = (if h_windows h then returnM ()
     else bindM (open_existing p) (\<lambda>_. sync_all))"

definition replace_existing :: "path \<Rightarrow> path \<Rightarrow> unit io" where
  "replace_existing src dst = rename src dst"

text \<open>\<open>if result.is_err() { let _ = fs::remove_file(..); } result\<close>; a failure to delete through the open
  handle (\<open>delete_open_file\<close>) only adds to the message of the first error.\<close>

definition or_remove :: "path \<Rightarrow> unit io \<Rightarrow> unit io" where
  "or_remove tmp m = bindM (tryM m) (\<lambda>r. case r of
       Inr _ \<Rightarrow> returnM ()
     | Inl e \<Rightarrow> bindM (tryM (remove_file tmp)) (\<lambda>_ :: io_kind + unit. throwM e))"

definition atomic_replace_file_with_mode :: "host \<Rightarrow> path \<Rightarrow> bytes \<Rightarrow> u32 option \<Rightarrow> unit io" where
  "atomic_replace_file_with_mode h p b mode =
     bindM (liftE (ok_orE (parent p) InvalidInput)) (\<lambda>par.
     bindM (ensure_directory h par) (\<lambda>_.
     bindM (reject_reparse h p) (\<lambda>_.
     bindM (create_temporary_file h p mode) (\<lambda>tmp.
     or_remove tmp
       (bindM (write_all tmp b) (\<lambda>_.
        bindM sync_all (\<lambda>_.
        bindM (replace_existing tmp p) (\<lambda>_.
        sync_dir h par))))))))"

definition atomic_replace_file :: "host \<Rightarrow> path \<Rightarrow> bytes \<Rightarrow> unit io" where
  "atomic_replace_file h p b = atomic_replace_file_with_mode h p b None"

text \<open>\<open>rename_new\<close>; \<open>EINVAL\<close> and \<open>ENOSYS\<close> become \<open>Unsupported\<close> on Linux, macOS reports its error as it is,
  and any other Unix has no such call.\<close>

definition path_has_nul :: "path \<Rightarrow> bool" where
  "path_has_nul p = list_ex (\<lambda>c. case c of Normal n \<Rightarrow> CHR 0x00 \<in> set n | _ \<Rightarrow> False) p"

definition rename_new :: "host \<Rightarrow> path \<Rightarrow> path \<Rightarrow> unit io" where
  "rename_new h src dst =
     bindM (liftE (ok_orE (parent dst) InvalidInput)) (\<lambda>par.
     bindM (ensure_directory h par) (\<lambda>_.
     bindM (reject_reparse h src) (\<lambda>_.
     bindM (reject_reparse h dst) (\<lambda>_.
     if h_windows h then bindM (rename_noreplace src dst) (\<lambda>_. sync_dir h par)
     else if h_unix h = OtherUnix then throwM Unsupported
     else
       bindM (ensureM (\<not> path_has_nul src \<and> \<not> path_has_nul dst) InvalidInput) (\<lambda>_.
       bindM (map_errM (\<lambda>e. if h_unix h = Linux \<and> e = InvalidInput then Unsupported else e) (rename_noreplace src dst)) (\<lambda>_.
       bindM (sync_dir h par) (\<lambda>_.
       case parent src of
         None \<Rightarrow> returnM ()
       | Some q \<Rightarrow> whenM (q \<noteq> par) (sync_dir h q))))))))"

definition create_new_file :: "host \<Rightarrow> path \<Rightarrow> bytes \<Rightarrow> u32 option \<Rightarrow> unit io" where
  "create_new_file h p b mode =
     bindM (liftE (ok_orE (parent p) InvalidInput)) (\<lambda>par.
     bindM (ensure_directory h par) (\<lambda>_.
     bindM (tryM (symlink_metadata p)) (\<lambda>r.
     bindM (case r of Inr _ \<Rightarrow> throwM AlreadyExists | Inl e \<Rightarrow> ensureM (e = NotFound) e) (\<lambda>_.
     bindM (create_temporary_file h p mode) (\<lambda>tmp.
     or_remove tmp
       (bindM (write_all tmp b) (\<lambda>_.
        bindM (case mode of Some m \<Rightarrow> whenM (\<not> h_windows h) (set_permissions tmp m) | None \<Rightarrow> returnM ()) (\<lambda>_.
        bindM sync_all (\<lambda>_.
        rename_new h tmp p)))))))))"

definition set_executable :: "host \<Rightarrow> path \<Rightarrow> unit io" where
  "set_executable h p =
     bindM (ensure_regular_file h p) (\<lambda>_.
     whenM (\<not> h_windows h)
       (bindM (open_file_at p) (\<lambda>_.
        bindM (symlink_metadata p) (\<lambda>n. case n of
          RegularFile a _ \<Rightarrow>
            bindM (ensureM (at_nlink a \<le> 1) PermissionDenied) (\<lambda>_.
            set_permissions p (at_mode a OR 0x1ED))
        | _ \<Rightarrow> throwM InvalidInput))))"

definition atomic_switch_symlink :: "host \<Rightarrow> path \<Rightarrow> path \<Rightarrow> unit io" where
  "atomic_switch_symlink h p target =
     bindM (ensureM (is_absolute (h_windows h) target) InvalidInput) (\<lambda>_.
     bindM (liftE (ok_orE (parent p) InvalidInput)) (\<lambda>par.
     bindM (ensure_directory h par) (\<lambda>_.
     bindM (tryM (symlink_metadata p)) (\<lambda>r.
     bindM (case r of Inr n \<Rightarrow> ensureM (is_symlink n) InvalidInput
            | Inl e \<Rightarrow> ensureM (e = NotFound) e) (\<lambda>_.
     bindM (temporary_path h p ''symlink'') (\<lambda>tmp.
     bindM (make_symlink target tmp) (\<lambda>_.
     or_remove tmp
       (bindM (replace_existing tmp p) (\<lambda>_.
        sync_dir h par)))))))))"

definition read_symlink :: "host \<Rightarrow> path \<Rightarrow> path option io" where
  "read_symlink h p =
     bindM (tryM (symlink_metadata p)) (\<lambda>r. case r of
       Inr n \<Rightarrow> if \<not> h_windows h \<and> is_symlink n then bindM (read_link p) (\<lambda>t. returnM (Some t))
               else throwM InvalidData
     | Inl e \<Rightarrow> bindM (ensureM (e = NotFound) e) (\<lambda>_. returnM None))"

subsection \<open>New files in an opened directory\<close>

text \<open>The read-back loop: \<open>bytes.get(offset..end) != Some(chunk)\<close> is a content mismatch.\<close>

function verify_loop :: "bytes \<Rightarrow> nat \<Rightarrow> (reader, io_kind, unit) comp" where
  "verify_loop b offset r =
     (case read BUFFER r of
        (Inl e, r') \<Rightarrow> (Inl e, r')
      | (Inr chunk, r') \<Rightarrow>
          if chunk = [] then (if offset \<noteq> length b then (Inl OtherIo, r') else (Inr (), r'))
          else if length b < offset + length chunk \<or> take (length chunk) (drop offset b) \<noteq> chunk
          then (Inl OtherIo, r')
          else verify_loop b (offset + length chunk) r')"
  by pat_completeness auto
termination
  by (relation "measure (\<lambda>(_, _, r). length (r_data r))") auto

declare verify_loop.simps [simp del]

definition verify_new_file_contents :: "host \<Rightarrow> path \<Rightarrow> bytes \<Rightarrow> u32 option \<Rightarrow> unit io" where
  "verify_new_file_contents h p b mode =
     bindM (write_all p b) (\<lambda>_.
     bindM (case mode of Some m \<Rightarrow> whenM (\<not> h_windows h) (set_permissions p m) | None \<Rightarrow> returnM ()) (\<lambda>_.
     bindM sync_all (\<lambda>_.
     bindM (symlink_metadata p) (\<lambda>n.
     bindM (ensureM (node_len n = length b) OtherIo) (\<lambda>_.
     bindM (read_handle p) (\<lambda>back.
     liftE (fst (verify_loop b 0 (reader_of back)))))))))"

definition create_new_file_at_unix :: "host \<Rightarrow> path \<Rightarrow> string \<Rightarrow> bytes \<Rightarrow> u32 option \<Rightarrow> path io" where
  "create_new_file_at_unix h dir name b mode =
     (let p = join dir name in
      bindM (create_new h p (case mode of Some m \<Rightarrow> m | None \<Rightarrow> 0x180)) (\<lambda>_.
      bindM (or_remove p
        (bindM (symlink_metadata p) (\<lambda>n. case n of
           RegularFile a _ \<Rightarrow>
             bindM (ensureM (at_nlink a = 1) PermissionDenied) (\<lambda>_.
             bindM (case mode of Some m \<Rightarrow> set_permissions p m | None \<Rightarrow> returnM ()) (\<lambda>_.
             bindM (verify_new_file_contents h p b None) (\<lambda>_.
             sync_all)))
         | _ \<Rightarrow> throwM PermissionDenied))) (\<lambda>_. returnM p)))"

definition create_new_file_at :: "host \<Rightarrow> path \<Rightarrow> string \<Rightarrow> bytes \<Rightarrow> u32 option \<Rightarrow> path io" where
  "create_new_file_at h dir name b mode =
     bindM (ensureM (is_safe_basename name (h_windows h)) InvalidInput) (\<lambda>_.
     let p = join dir name in
     if h_windows h then
       bindM (create_file h dir name) (\<lambda>f.
       bindM (or_remove f (verify_new_file_contents h f b None)) (\<lambda>_. returnM p))
     else create_new_file_at_unix h dir name b mode)"

definition remove_file_at :: "host \<Rightarrow> path \<Rightarrow> string \<Rightarrow> unit io" where
  "remove_file_at h dir name =
     bindM (ensureM (is_safe_basename name (h_windows h)) InvalidInput) (\<lambda>_.
     if h_windows h then remove_file_relative h dir name
     else
       bindM (remove_file (join dir name)) (\<lambda>_. sync_all))"

text \<open>\<open>open_private_directory\<close>, \<open>open_extraction_directory\<close>: the handle is the directory's path.\<close>

definition open_private_directory :: "host \<Rightarrow> path \<Rightarrow> path io" where
  "open_private_directory h p =
     bindM (ensure_private_dir h p) (\<lambda>_.
     bindM (open_directory h p False) (\<lambda>d.
     bindM (if h_windows h then validate_private_dir_handle h d
            else bindM (symlink_metadata d) (\<lambda>n. liftE (validate_private_dir h n))) (\<lambda>_.
     returnM d)))"

definition open_extraction_directory :: "host \<Rightarrow> path \<Rightarrow> path io" where
  "open_extraction_directory h p =
     (if h_windows h then open_private_directory h p else open_directory h p False)"

definition same_directory_handle :: "host \<Rightarrow> path \<Rightarrow> path \<Rightarrow> bool io" where
  "same_directory_handle h l r =
     (if h_windows h then same_object l r
      else bindM (symlink_metadata l) (\<lambda>_. bindM (symlink_metadata r) (\<lambda>_. returnM (l = r))))"

definition path_still_identifies_directory :: "host \<Rightarrow> path \<Rightarrow> path \<Rightarrow> bool io" where
  "path_still_identifies_directory h p d =
     bindM (open_directory h p False) (\<lambda>d'. same_directory_handle h d d')"

definition same_directory_object :: "host \<Rightarrow> path \<Rightarrow> path \<Rightarrow> bool io" where
  "same_directory_object h p q =
     bindM (open_directory_with_descriptor h p False None) (\<lambda>l.
     bindM (open_directory_with_descriptor h q False None) (\<lambda>r. same_object l r))"

definition same_regular_file_object :: "host \<Rightarrow> path \<Rightarrow> path \<Rightarrow> bool io" where
  "same_regular_file_object h p q =
     bindM (lock_regular h p) (\<lambda>l. bindM (lock_regular h q) (\<lambda>r. same_object l r))"

definition create_new_file_in_directory :: "host \<Rightarrow> path \<Rightarrow> string \<Rightarrow> bytes \<Rightarrow> u32 option \<Rightarrow> path io" where
  "create_new_file_in_directory h dir name b mode =
     bindM (if h_windows h then open_private_directory h dir else open_directory h dir True) (\<lambda>d.
     create_new_file_at h d name b mode)"

definition write_private_file_unix :: "host \<Rightarrow> path \<Rightarrow> bytes \<Rightarrow> unit io" where
  "write_private_file_unix h p b =
     bindM (case parent p of Some par \<Rightarrow> ensure_private_dir h par | None \<Rightarrow> returnM ()) (\<lambda>_.
     bindM (create_new h p 0x180) (\<lambda>_.
     bindM (set_permissions p 0x180) (\<lambda>_.
     bindM (write_all p b) (\<lambda>_.
     sync_all))))"

definition write_private_file_windows :: "host \<Rightarrow> path \<Rightarrow> bytes \<Rightarrow> unit io" where
  "write_private_file_windows h p b =
     bindM (liftE (ok_orE (parent p) InvalidInput)) (\<lambda>par.
     bindM (liftE (ok_orE (file_name p) InvalidInput)) (\<lambda>name.
     bindM (liftE (ok_orE (from_utf8 name) InvalidInput)) (\<lambda>name.
     bindM (open_private_directory h par) (\<lambda>d.
     bindM (create_new_file_at h d name b None) (\<lambda>_. returnM ())))))"

definition write_private_file :: "host \<Rightarrow> path \<Rightarrow> bytes \<Rightarrow> unit io" where
  "write_private_file h p b =
     (if h_windows h then write_private_file_windows h p b else write_private_file_unix h p b)"

subsection \<open>What each operation may change\<close>

lemma touches_system [touches_intros]:
  "touches S (open_dir_at p)" "touches S (open_file_at p)" "touches S (open_existing_reparse p)" "touches S (read_handle p)"
  unfolding open_dir_at_def open_file_at_def open_existing_reparse_def read_handle_def
  by (rule touches_io; auto split: option.splits node.splits)+

lemma touches_kinds [touches_intros]:
  "touches S (is_reparse_point h p)" "touches S (ensure_regular_file h p)"
  "touches S (ensure_directory h p)" "touches S (reject_reparse h p)"
  "touches S (sync_dir h p)" "touches S (read_symlink h p)"
  unfolding is_reparse_point_def ensure_regular_file_def ensure_directory_def reject_reparse_def
    sync_dir_def read_symlink_def
  by (intro touches_intros; simp split: node.splits add: touches_intros)+

lemma touches_walk_unix:
  "(create \<Longrightarrow> {q. prefix cur q} \<subseteq> S) \<Longrightarrow> touches S (walk_unix h create cur cs)"
proof (induction h create cur cs rule: walk_unix.induct)
  case (2 h create cur n cs)
  have "create \<Longrightarrow> {q. prefix (join cur n) q} \<subseteq> S"
    using "2.prems" prefix_order.trans [OF prefix_join] by blast
  moreover have "create \<Longrightarrow> join cur n \<in> S"
    using "2.prems" by auto
  ultimately show ?case
    using "2.IH" by (auto intro!: touches_intros)
qed (auto intro!: touches_intros)

lemma touches_open_directory [touches_intros]: "touches S (open_directory h p False)"
  unfolding open_directory_def open_directory_tree_def
  by (auto simp: Let_def intro!: touches_intros touches_walk_unix touches_open_directory_desc)

lemma touches_identity [touches_intros]:
  "touches S (path_still_identifies_directory h p d)" "touches S (same_directory_object h p q)"
  "touches S (same_regular_file_object h p q)"
  using touches_open_directory [of S h p]
  unfolding path_still_identifies_directory_def same_directory_handle_def same_directory_object_def
    same_regular_file_object_def
  by (auto intro!: touches_intros)

lemma touches_open_regular_file_secure [touches_intros]: "touches S (open_regular_file_secure h p)"
  using touches_open_directory [of S h _] unfolding open_regular_file_secure_def open_directory_def
  by (cases "h_windows h") (auto intro!: touches_intros)

lemma touches_open_regular_file [touches_intros]: "touches S (open_regular_file h p)"
  unfolding open_regular_file_def by (intro touches_intros)

lemma touches_sha256_file [touches_intros]: "touches S (sha256_file lib h p)"
  unfolding sha256_file_def by (intro touches_intros)

subsection \<open>Temporary files\<close>

definition base_name :: "path \<Rightarrow> string" where
  "base_name p = (case file_name p of None \<Rightarrow> ''file'' | Some n \<Rightarrow> n)"

lemma base_name_Some: "file_name p = Some n \<Longrightarrow> base_name p = n"
  by (simp add: base_name_def)

definition temp_paths :: "path \<Rightarrow> path set" where
  "temp_paths p = {with_file_name p (''.'' @ base_name p @ ''.'' @ k @ ''.tmp'') | k. True}"

text \<open>Every temporary file has a name of this shape, which no file of the layout has.\<close>

definition temp_like :: "path \<Rightarrow> bool" where
  "temp_like q \<longleftrightarrow> (\<exists>n. file_name q = Some n \<and> prefix ''.'' n \<and> suffix ''.tmp'' n)"

lemma file_name_with [simp]: "file_name (with_file_name p n) = Some n"
  by (auto simp: with_file_name_def file_name_def split: option.splits)

lemma temp_paths_like: "q \<in> temp_paths p \<Longrightarrow> temp_like q"
  by (auto simp: temp_paths_def temp_like_def suffix_def)

lemma file_name_cases: "file_name p = Some n \<Longrightarrow> \<exists>d. p = d @ [Normal n]"
  by (auto simp: file_name_def rev_eq_Cons_iff split: list.splits component.splits)

lemma temp_paths_not_self [simp]: "p \<notin> temp_paths p"
proof
  assume "p \<in> temp_paths p"
  then obtain k where k: "p = with_file_name p (''.'' @ base_name p @ ''.'' @ k @ ''.tmp'')"
    by (auto simp: temp_paths_def)
  then have "file_name p = Some (''.'' @ base_name p @ ''.'' @ k @ ''.tmp'')"
    by (metis file_name_with)
  from base_name_Some [OF this] have "base_name p = ''.'' @ base_name p @ ''.'' @ k @ ''.tmp''" .
  from arg_cong [OF this, of length] show False by simp
qed

lemma temporary_path_result:
  assumes "temporary_path h p kind w = (r, w')"
  shows "\<exists>tmp. r = Inr tmp \<and> tmp \<in> temp_paths p \<and> lookup w' = lookup w"
proof -
  let ?k = "kind @ ''.'' @ decimal (h_pid h) @ ''.'' @ decimal (unat (temp_counter w))"
  have "r = Inr (with_file_name p (''.'' @ base_name p @ ''.'' @ ?k @ ''.tmp''))" and "lookup w' = lookup w"
    using assms by (auto simp: temporary_path_def base_name_def Let_def fun_eq_iff)
  then show ?thesis unfolding temp_paths_def by blast
qed

lemma touches_temporary_path [touches_intros]: "touches S (temporary_path h p kind)"
  by (auto simp: touches_def temporary_path_def Let_def)

lemma create_temporary_loop_result:
  assumes "create_temporary_loop h p mode n e w = (r, w')"
  shows "(\<forall>q. q \<notin> temp_paths p \<longrightarrow> lookup w' q = lookup w q)
    \<and> (\<forall>tmp. r = Inr tmp \<longrightarrow> tmp \<in> temp_paths p \<and> (\<exists>a. lookup w' = (lookup w)(tmp \<mapsto> RegularFile a [])))
    \<and> (\<forall>k. r = Inl k \<longrightarrow> lookup w' = lookup w)"
  using assms
proof (induction n arbitrary: e w)
  case 0
  then show ?case by (auto simp: throwM_apply)
next
  case (Suc n)
  obtain r1 :: "io_kind + path" and w1 where tp: "temporary_path h p ''file'' w = (r1, w1)"
    by fastforce
  then obtain tmp where tmp: "r1 = Inr tmp" "tmp \<in> temp_paths p" "lookup w1 = lookup w"
    using temporary_path_result by blast
  obtain r2 w2 where cn: "create_new h tmp (case mode of Some m \<Rightarrow> m | None \<Rightarrow> 0x1B6) w1 = (r2, w2)"
    by fastforce
  show ?case
  proof (cases r2)
    case (Inr u)
    with create_new_Inr cn tmp(3) have "lookup w2 = (lookup w)(tmp \<mapsto> RegularFile (new_attr h
        (case mode of Some m \<Rightarrow> m | None \<Rightarrow> 0x1B6)) [])" by metis
    moreover have "r = Inr tmp" "w' = w2"
      using Suc.prems tp tmp(1) cn Inr by (auto simp: bindM_def tryM_def returnM_apply)
    ultimately show ?thesis using tmp(2) by auto
  next
    case (Inl k)
    with create_new_Inl cn tmp(3) have w2: "lookup w2 = lookup w" by metis
    show ?thesis
    proof (cases "k = AlreadyExists")
      case True
      then have "create_temporary_loop h p mode n (Some k) w2 = (r, w')"
        using Suc.prems tp tmp(1) cn Inl by (auto simp: bindM_def tryM_def)
      from Suc.IH [OF this] w2 show ?thesis by metis
    next
      case False
      then have "r = Inl k" "w' = w2"
        using Suc.prems tp tmp(1) cn Inl by (auto simp: bindM_def tryM_def throwM_apply)
      with w2 show ?thesis by simp
    qed
  qed
qed

lemma touches_create_temporary_file [touches_intros]:
  "temp_paths p \<subseteq> S \<Longrightarrow> touches S (create_temporary_file h p mode)"
  unfolding touches_def create_temporary_file_def
  by (metis create_temporary_loop_result prod.collapse subsetD)

text \<open>The temporary path is only known after it has been chosen.\<close>

lemma touches_temp_bind [touches_intros]:
  assumes "temp_paths p \<subseteq> S" and "\<And>tmp. tmp \<in> temp_paths p \<Longrightarrow> touches S (f tmp)"
  shows "touches S (bindM (create_temporary_file h p mode) f)"
  unfolding create_temporary_file_def
proof (rule touches_bind_post)
  fix w r v assume "create_temporary_loop h p mode 32 None w = (r, v)"
  from create_temporary_loop_result [OF this]
  show "(\<forall>q. q \<notin> S \<longrightarrow> lookup v q = lookup w q) \<and> (\<forall>a. r = Inr a \<longrightarrow> touches S (f a))"
    using assms by blast
qed

lemma touches_temp_path_bind [touches_intros]:
  assumes "\<And>tmp. tmp \<in> temp_paths p \<Longrightarrow> touches S (f tmp)"
  shows "touches S (bindM (temporary_path h p kind) f)"
proof (rule touches_bind_post)
  fix w r v assume "temporary_path h p kind w = (r, v)"
  from temporary_path_result [OF this]
  show "(\<forall>q. q \<notin> S \<longrightarrow> lookup v q = lookup w q) \<and> (\<forall>a. r = Inr a \<longrightarrow> touches S (f a))"
    using assms by auto
qed

lemma touches_or_remove [touches_intros]: "tmp \<in> S \<Longrightarrow> touches S m \<Longrightarrow> touches S (or_remove tmp m)"
  unfolding or_remove_def by (intro touches_intros)


lemma touches_atomic_replace [touches_intros]:
  "p \<in> S \<Longrightarrow> temp_paths p \<subseteq> S \<Longrightarrow> touches S (atomic_replace_file_with_mode h p b mode)"
  unfolding atomic_replace_file_with_mode_def replace_existing_def
  by (intro touches_intros) blast+

lemma touches_atomic_replace_file [touches_intros]:
  "p \<in> S \<Longrightarrow> temp_paths p \<subseteq> S \<Longrightarrow> touches S (atomic_replace_file h p b)"
  unfolding atomic_replace_file_def by (rule touches_atomic_replace)

lemma touches_atomic_switch [touches_intros]:
  "p \<in> S \<Longrightarrow> temp_paths p \<subseteq> S \<Longrightarrow> touches S (atomic_switch_symlink h p t)"
  unfolding atomic_switch_symlink_def replace_existing_def
  by (intro touches_intros) blast+

lemma touches_rename_new [touches_intros]:
  "{q. prefix src q} \<subseteq> S \<Longrightarrow> {q. prefix dst q} \<subseteq> S \<Longrightarrow> touches S (rename_new h src dst)"
  unfolding rename_new_def by (intro touches_intros)

lemma touches_set_executable [touches_intros]: "p \<in> S \<Longrightarrow> touches S (set_executable h p)"
  unfolding set_executable_def by (auto intro!: touches_intros split: node.split)

subsection \<open>Atomic replacement\<close>

lemma valid_or_remove:
  assumes "valid P m Q F" and "\<And>w w'. F w \<Longrightarrow> \<forall>q. q \<noteq> tmp \<longrightarrow> lookup w' q = lookup w q \<Longrightarrow> E w'"
    and "\<And>u w. Q u w \<Longrightarrow> Q () w"
  shows "valid P (or_remove tmp m) Q E"
proof (rule validI)
  fix s a t assume P: "P s" and r: "or_remove tmp m s = (Inr a, t)"
  obtain x v where m: "m s = (x, v)" by fastforce
  with r have "x = Inr a" "t = v"
    by (auto simp: or_remove_def bindM_def tryM_def returnM_apply throwM_apply split: sum.splits prod.splits)
  with m valid_InrD [OF assms(1) P] show "Q a t" by blast
next
  fix s e t assume P: "P s" and r: "or_remove tmp m s = (Inl e, t)"
  obtain x v where m: "m s = (x, v)" by fastforce
  with r have x: "x = Inl e" and t: "t = snd (remove_file tmp v)"
    by (auto simp: or_remove_def bindM_def tryM_def returnM_apply throwM_apply split: sum.splits prod.splits)
  have "F v" using valid_InlD [OF assms(1) P] m x by blast
  moreover have "touches {tmp} (remove_file tmp)" by (rule touches_remove_file) simp
  then have "\<forall>q. q \<noteq> tmp \<longrightarrow> lookup t q = lookup v q" unfolding t touches_def by blast
  ultimately show "E t" by (rule assms(2))
qed

lemma valid_at:
  "touches S m \<Longrightarrow> p \<notin> S \<Longrightarrow> (\<And>w. I (lookup w p) \<Longrightarrow> E w)
   \<Longrightarrow> valid (\<lambda>w. I (lookup w p)) m (\<lambda>_ w. I (lookup w p)) E"
  by (rule validI) (metis touchesD)+

lemma valid_fact: "(C \<Longrightarrow> valid P m Q E) \<Longrightarrow> valid (\<lambda>w. P w \<and> C) m Q E"
  by (auto simp: valid_def)

text \<open>The temporary file is complete before the rename, which is the only step at which the
  destination changes.\<close>

lemma write_and_rename:
  assumes "tmp \<noteq> p"
  shows "valid (\<lambda>w. lookup w p = x \<and> (\<exists>a. lookup w tmp = Some (RegularFile a [])))
     (bindM (write_all tmp b) (\<lambda>_. bindM sync_all (\<lambda>_. bindM (replace_existing tmp p) (\<lambda>_. sync_dir h par))))
     (\<lambda>_ w. \<exists>a. lookup w p = Some (RegularFile a b))
     (\<lambda>w. lookup w p = x \<or> (\<exists>a. lookup w p = Some (RegularFile a b)))"
    (is "valid ?P _ ?Q ?E")
proof -
  let ?W = "\<lambda>w. lookup w p = x \<and> (\<exists>a. lookup w tmp = Some (RegularFile a b))"
  have wr: "valid ?P (write_all tmp b) (\<lambda>_. ?W) ?E"
  proof (rule validI)
    fix s u t assume P: "?P s" and "write_all tmp b s = (Inr u, t)"
    then show "?W t" using assms by (auto dest!: write_all_Inr)
  next
    fix s e t assume P: "?P s" and r: "write_all tmp b s = (Inl e, t)"
    have "touches {tmp} (write_all tmp b)" by (rule touches_write_all) simp
    from touchesD [OF this r, of p] P assms show "?E t" by auto
  qed
  have sync: "valid ?W sync_all (\<lambda>_. ?W) ?E"
    by (rule valid_post [OF valid_unchanged [where P = ?W]]) (auto intro: touches_intros)
  have ren: "valid ?W (replace_existing tmp p) (\<lambda>_ w. ?Q () w) ?E"
    unfolding replace_existing_def
    by (rule validI) (auto dest!: rename_Inr rename_Inl)
  have final: "valid (\<lambda>w. ?Q () w) (sync_dir h par) (\<lambda>_ w. ?Q () w) ?E"
    by (rule valid_post [OF valid_unchanged [where P = "\<lambda>w. ?Q () w"]]) (auto intro: touches_intros)
  show ?thesis
    by (rule valid_bind [OF wr]) (rule valid_bind [OF sync], rule valid_bind [OF ren], rule final)
qed

lemma atomic_replace_outcome:
  "valid (\<lambda>w. lookup w p = x) (atomic_replace_file_with_mode h p b mode)
     (\<lambda>_ w. \<exists>a. lookup w p = Some (RegularFile a b))
     (\<lambda>w. lookup w p = x \<or> (\<exists>a. lookup w p = Some (RegularFile a b)))"
    (is "valid ?P _ ?Q ?E")
proof -
  have keep: "valid ?P m (\<lambda>_. ?P) ?E" if "touches {} m" for m :: "'c io"
    by (rule valid_at [OF that, where I = "\<lambda>n. n = x"]) auto
  have create: "valid ?P (create_temporary_file h p mode)
      (\<lambda>tmp w. (?P w \<and> (\<exists>a. lookup w tmp = Some (RegularFile a []))) \<and> tmp \<noteq> p) ?E"
    unfolding create_temporary_file_def
    by (rule validI) (use temp_paths_not_self [of p] in \<open>auto dest!: create_temporary_loop_result\<close>)
  have body: "valid (\<lambda>w. (?P w \<and> (\<exists>a. lookup w tmp = Some (RegularFile a []))) \<and> tmp \<noteq> p)
      (or_remove tmp (bindM (write_all tmp b) (\<lambda>_. bindM sync_all (\<lambda>_.
         bindM (replace_existing tmp p) (\<lambda>_. sync_dir h par))))) ?Q ?E" for tmp par
    by (rule valid_fact, rule valid_or_remove [OF write_and_rename]) auto
  show ?thesis
    unfolding atomic_replace_file_with_mode_def
    by (rule valid_bind [OF keep], rule touches_basic, rule valid_bind [OF keep], rule touches_kinds,
        rule valid_bind [OF keep], rule touches_kinds, rule valid_bind [OF create], rule body)
qed

lemma link_and_rename:
  assumes "tmp \<noteq> p"
  shows "valid (\<lambda>w. lookup w p = x \<and> lookup w tmp = Some (Symlink t))
     (bindM (replace_existing tmp p) (\<lambda>_. sync_dir h par))
     (\<lambda>_ w. lookup w p = Some (Symlink t)) (\<lambda>w. lookup w p = x \<or> lookup w p = Some (Symlink t))"
    (is "valid ?P _ ?Q ?E")
proof -
  have ren: "valid ?P (replace_existing tmp p) (\<lambda>_ w. ?Q () w) ?E"
    unfolding replace_existing_def
    by (rule validI) (auto dest!: rename_Inr rename_Inl)
  have final: "valid (\<lambda>w. ?Q () w) (sync_dir h par) (\<lambda>_ w. ?Q () w) ?E"
    by (rule valid_post [OF valid_unchanged [where P = "\<lambda>w. ?Q () w"]]) (auto intro: touches_intros)
  show ?thesis by (rule valid_bind [OF ren]) (rule final)
qed

lemma atomic_switch_outcome:
  "valid (\<lambda>w. lookup w p = x) (atomic_switch_symlink h p t)
     (\<lambda>_ w. lookup w p = Some (Symlink t)) (\<lambda>w. lookup w p = x \<or> lookup w p = Some (Symlink t))"
    (is "valid ?P _ ?Q ?E")
proof -
  have keep: "valid ?P m (\<lambda>_. ?P) ?E" if "touches {} m" for m :: "'c io"
    by (rule valid_at [OF that, where I = "\<lambda>n. n = x"]) auto
  have tmp: "valid ?P (temporary_path h p ''symlink'') (\<lambda>tmp w. ?P w \<and> tmp \<noteq> p) ?E"
    by (rule validI) (use temp_paths_not_self [of p] in \<open>auto dest!: temporary_path_result\<close>)
  have link: "valid (\<lambda>w. ?P w \<and> tmp \<noteq> p) (make_symlink t tmp)
      (\<lambda>_ w. (?P w \<and> lookup w tmp = Some (Symlink t)) \<and> tmp \<noteq> p) ?E" for tmp
  proof (rule validI)
    fix s u v assume "?P s \<and> tmp \<noteq> p" and "make_symlink t tmp s = (Inr u, v)"
    then show "(?P v \<and> lookup v tmp = Some (Symlink t)) \<and> tmp \<noteq> p"
      by (auto dest!: make_symlink_Inr)
  next
    fix s e v assume P: "?P s \<and> tmp \<noteq> p" and r: "make_symlink t tmp s = (Inl e, v)"
    have "touches {tmp} (make_symlink t tmp)" by (rule touches_make_symlink) simp
    from touchesD [OF this r, of p] P show "?E v" by auto
  qed
  have body: "valid (\<lambda>w. (?P w \<and> lookup w tmp = Some (Symlink t)) \<and> tmp \<noteq> p)
      (or_remove tmp (bindM (replace_existing tmp p) (\<lambda>_. sync_dir h par))) ?Q ?E" for tmp par
    by (rule valid_fact, rule valid_or_remove [OF link_and_rename]) auto
  have check: "touches {} (case r of Inr n \<Rightarrow> ensureM (is_symlink n) InvalidInput
      | Inl e \<Rightarrow> ensureM (e = NotFound) e)" for r
    by (intro touches_intros)
  show ?thesis
    unfolding atomic_switch_symlink_def
    by (rule valid_bind [OF keep], rule touches_basic, rule valid_bind [OF keep], rule touches_basic,
        rule valid_bind [OF keep], rule touches_kinds, rule valid_bind [OF keep],
        rule touches_try, rule touches_reads, rule valid_bind [OF keep], rule check,
        rule valid_bind [OF tmp], rule valid_bind [OF link], rule body)
qed

subsection \<open>Renames that do not replace\<close>

text \<open>A no-replace rename moves the whole tree or changes nothing.\<close>

lemma rename_new_cases:
  assumes "rename_new h src dst w = (r, w')" and "\<not> prefix src dst" and "\<not> prefix dst src"
  shows "(lookup w' = lookup w \<and> (\<forall>u. r \<noteq> Inr u)) \<or>
    (lookup w dst = None \<and> (\<forall>q. lookup w' q = (if prefix dst q then lookup w (src @ drop (length dst) q)
       else if prefix src q then None else lookup w q)))"
proof -
  let ?moved = "\<lambda>v'. \<forall>q. lookup v' q = (if prefix dst q then lookup w (src @ drop (length dst) q)
       else if prefix src q then None else lookup w q)"
  let ?Q = "\<lambda>v'. lookup w dst = None \<and> ?moved v'"
  have move: "valid (\<lambda>v. lookup v = lookup w) (rename_noreplace src dst) (\<lambda>_. ?Q) (\<lambda>v. lookup v = lookup w)"
    unfolding rename_noreplace_def
    by (rule validI; erule io_cases)
      (auto simp: assms(2,3) lookup_move_tree split: if_splits)
  have after: "valid ?Q m (\<lambda>_. ?Q) ?Q" if "touches {} m" for m :: "unit io"
    by (rule valid_unchanged [OF that]) simp
  let ?E = "\<lambda>v. lookup v = lookup w \<or> ?Q v"
  have same: "valid (\<lambda>v. lookup v = lookup w) m (\<lambda>_ v. lookup v = lookup w) ?E" if "touches {} m" for m :: "unit io"
    by (rule valid_post [OF valid_unchanged [OF that]]) auto
  have move': "valid (\<lambda>v. lookup v = lookup w) (rename_noreplace src dst) (\<lambda>_. ?Q) ?E"
    by (rule valid_post [OF move]) simp_all
  have after': "valid ?Q m (\<lambda>_. ?Q) ?E" if "touches {} m" for m :: "unit io"
    by (rule valid_post [OF after [OF that]]) simp_all
  have go: "valid (\<lambda>v. lookup v = lookup w) (rename_new h src dst) (\<lambda>_. ?Q) ?E"
    unfolding rename_new_def
    apply (cases "parent dst", simp add: ok_orE_def valid_def throwM_apply)
    apply (simp only: ok_orE_def option.case bindM_simps)
    apply (rule valid_bind [OF same], rule touches_kinds, rule valid_bind [OF same], rule touches_kinds)
    apply (rule valid_bind [OF same], rule touches_kinds, rule valid_if)
     apply (rule valid_bind [OF move' after'], rule touches_kinds)
    apply (rule valid_if, simp add: valid_def throwM_apply)
    apply (rule valid_bind [OF same], rule touches_basic, rule valid_bind [OF valid_map_err [OF move']])
    apply (rule valid_bind [OF after'], rule touches_kinds, rule after', (intro touches_intros)[1])
    done
  show ?thesis
  proof (cases r)
    case (Inl k)
    with valid_InlD [OF go refl] assms(1) show ?thesis by auto
  next
    case (Inr u)
    with valid_InrD [OF go refl] assms(1) show ?thesis by auto
  qed
qed

subsection \<open>Directories that were opened are real\<close>

lemma symlink_metadata_Inr: "symlink_metadata p w = (Inr n, w') \<Longrightarrow> lookup w p = Some n \<and> lookup w' = lookup w"
  using symlink_metadata_cases(1,2) by blast

text \<open>All the directories entered on the way to a path that was opened without links.\<close>

lemma walk_unix_real:
  assumes "walk_unix h False cur cs w = (Inr d, w')"
  shows "prefix cur d \<and> (\<forall>q. prefix q d \<and> strict_prefix cur q \<longrightarrow> (\<exists>a. lookup w q = Some (Directory a)))
     \<and> lookup w' = lookup w"
  using assms
proof (induction h False cur cs arbitrary: w rule: walk_unix.induct)
  case (2 h cur n cs)
  let ?c = "join cur n"
  from "2.prems" obtain w1 w2 m where
    opened: "tryM (open_dir_at ?c) w = (Inr (Inr ()), w1)" and
    meta: "symlink_metadata ?c w1 = (Inr m, w2)" "is_dir m" and
    rest: "walk_unix h False ?c cs w2 = (Inr d, w')"
    by (auto simp: bindM_return_iff ensureM_apply monad_simps split: if_splits sum.splits)
  have w1: "lookup w1 = lookup w"
    using touchesD [OF touches_try [OF touches_system(1) [of "{}"]] opened] by (simp add: fun_eq_iff)
  from symlink_metadata_Inr [OF meta(1)] w1 have m: "lookup w ?c = Some m" "lookup w2 = lookup w" by auto
  from "2.hyps" [OF rest] have IH: "prefix ?c d" "lookup w' = lookup w2"
    "\<And>q. prefix q d \<Longrightarrow> strict_prefix ?c q \<Longrightarrow> \<exists>a. lookup w2 q = Some (Directory a)" by auto
  have "\<exists>a. lookup w q = Some (Directory a)" if "prefix q d" "strict_prefix cur q" for q
  proof (cases "strict_prefix ?c q")
    case True
    with IH(3) that m(2) show ?thesis by simp
  next
    case False
    from that(1) IH(1) have "prefix q ?c \<or> prefix ?c q" using prefix_same_cases by blast
    with False have "prefix q ?c" by (auto simp: strict_prefix_def)
    with that(2) have "q = ?c"
      by (auto simp: join_def strict_prefix_def prefix_snoc)
    with m(1) meta(2) show ?thesis by (cases m) auto
  qed
  moreover have "prefix cur d" using IH(1) prefix_join prefix_order.trans by blast
  ultimately show ?case using IH(2) m(2) by auto
qed (auto simp: returnM_apply throwM_apply strict_prefix_def)

end
