(* ===== verification/Archive.thy ===== *)
theory Archive
  imports Signature Executable
begin

text \<open>
  Bounded inspection and extraction of release archives (\<^verbatim>\<open>src/src/release/archive.rs\<close>). The parsers
  of single tar headers, of gzip streams and of ZIP files are third-party code and fields of the
  record \<open>alib\<close>; the tar member loop, the PAX records, the ZIP preflight, the size budgets and the
  choice of what may be written are the source's own and modelled here.
\<close>

subsection \<open>Third-party operations\<close>

datatype tar_type = TarRegular | TarLink | TarSymlink | TarChar | TarBlock | TarDirectory | TarFifo
  | TarContinuous | TarGnuLongName | TarGnuLongLink | TarGnuSparse | TarPaxGlobal | TarPaxLocal | TarOther

datatype zip_method = Stored | Deflated | OtherMethod

record zip_entry =
  z_name_raw :: bytes
  z_encrypted :: bool
  z_compression :: zip_method
  z_symlink :: bool
  z_unix_mode :: "u32 option"
  z_size :: u64
  z_dir :: bool
  z_reader :: reader

text \<open>\<open>zip_open\<close> gives the entries as \<open>by_index\<close> returns them, each of which may fail.\<close>

record 'v alib = "'v slib" +
  gz_decode :: "bytes \<Rightarrow> reader"
  tar_type_of :: "bytes \<Rightarrow> tar_type"
  tar_cksum :: "bytes \<Rightarrow> u32 option"
  tar_size :: "bytes \<Rightarrow> u64 option"
  tar_path_bytes :: "bytes \<Rightarrow> bytes"
  tar_mode :: "bytes \<Rightarrow> u32 option"
  zip_open :: "bytes \<Rightarrow> zip_entry option list option"

subsection \<open>Readers\<close>

text \<open>A reader with its adapters: \<open>Limited\<close> is \<open>DecompressedLimit\<close>, \<open>Take\<close> is \<open>std::io::Take\<close>.\<close>

datatype source = Plain reader | Limited u64 source | Take u64 source

primrec src_read :: "source \<Rightarrow> nat \<Rightarrow> (io_kind + bytes) \<times> source" where
  "src_read (Plain r) n = (case read n r of (x, r') \<Rightarrow> (x, Plain r'))"
| "src_read (Limited left s) n =
     (if n = 0 then (Inr [], Limited left s)
      else if left = 0 then
        (case src_read s 1 of
           (Inl e, s') \<Rightarrow> (Inl e, Limited left s')
         | (Inr b, s') \<Rightarrow> ((if b = [] then Inr [] else Inl InvalidData), Limited left s'))
      else
        (case src_read s (min (unat left) n) of
           (Inl e, s') \<Rightarrow> (Inl e, Limited left s')
         | (Inr b, s') \<Rightarrow> (Inr b, Limited (left - of_nat (length b)) s')))"
| "src_read (Take left s) n =
     (if left = 0 then (Inr [], Take left s)
      else
        (case src_read s (min (unat left) n) of
           (Inl e, s') \<Rightarrow> (Inl e, Take left s')
         | (Inr b, s') \<Rightarrow> (Inr b, Take (left - of_nat (length b)) s')))"

primrec src_len :: "source \<Rightarrow> nat" where
  "src_len (Plain r) = length (r_data r)"
| "src_len (Limited left s) = src_len s"
| "src_len (Take left s) = src_len s"

text \<open>Dropping the adapter that \<open>by_ref().take(n)\<close> put around a reader.\<close>

definition untake :: "source \<Rightarrow> source" where
  "untake s = (case s of Take _ t \<Rightarrow> t | t \<Rightarrow> t)"

lemma src_read_len:
  "src_read s n = (x, s') \<Longrightarrow> src_len s' \<le> src_len s \<and> (\<forall>b. x = Inr b \<longrightarrow> length b + src_len s' = src_len s)"
proof (induction s arbitrary: n x s')
  case (Plain r)
  obtain y r' where "read n r = (y, r')" by fastforce
  with Plain show ?case
    using read_split [of n r _ r'] read_error [of n r _ r'] by (cases y) auto
next
  case (Limited left s)
  obtain y t where a: "src_read s 1 = (y, t)" by fastforce
  obtain z u where b: "src_read s (min (unat left) n) = (z, u)" by fastforce
  show ?case
    using Limited.prems Limited.IH [OF a] Limited.IH [OF b] a b
    by (cases y; cases z) (simp_all split: if_splits, auto)
next
  case (Take left s)
  obtain z u where b: "src_read s (min (unat left) n) = (z, u)" by fastforce
  show ?case
    using Take.prems Take.IH [OF b] b by (cases z) (simp_all split: if_splits, auto)
qed

lemma src_read_bound: "src_read s n = (Inr b, s') \<Longrightarrow> length b \<le> n"
proof (induction s arbitrary: n b s')
  case (Plain r)
  then show ?case using read_length [of n r b] by (auto split: prod.splits)
next
  case (Limited left s)
  then show ?case
    by (auto split: if_splits prod.splits sum.splits) (metis min.bounded_iff)
next
  case (Take left s)
  then show ?case
    by (auto split: if_splits prod.splits sum.splits) (metis min.bounded_iff)
qed

text \<open>\<open>Read::read_exact\<close>.\<close>

function read_exact :: "nat \<Rightarrow> (source, io_kind, bytes) comp" where
  "read_exact n s =
     (if n = 0 then (Inr [], s)
      else (case src_read s n of
          (Inl e, s') \<Rightarrow> (Inl e, s')
        | (Inr b, s') \<Rightarrow>
            if b = [] then (Inl UnexpectedEof, s')
            else (case read_exact (n - length b) s' of
                (Inl e, s'') \<Rightarrow> (Inl e, s'')
              | (Inr b', s'') \<Rightarrow> (Inr (b @ b'), s''))))"
  by pat_completeness auto
termination
  by (relation "measure fst") auto

declare read_exact.simps [simp del]

lemma read_exact_len:
  "read_exact n s = (x, s') \<Longrightarrow> src_len s' \<le> src_len s \<and> (\<forall>b. x = Inr b \<longrightarrow> length b = n \<and> length b + src_len s' = src_len s)"
proof (induction n s arbitrary: x s' rule: read_exact.induct)
  case (1 n s)
  show ?case
  proof (cases "n = 0")
    case True
    with 1 show ?thesis by (auto simp: read_exact.simps)
  next
    case False
    obtain y t where y: "src_read s n = (y, t)" by fastforce
    show ?thesis
    proof (cases y)
      case (Inl e)
      with 1 False y src_read_len [OF y] show ?thesis by (auto simp: read_exact.simps [of n s])
    next
      case (Inr b)
      show ?thesis
      proof (cases "b = []")
        case True
        with 1 False y Inr src_read_len [OF y] show ?thesis by (auto simp: read_exact.simps [of n s])
      next
        case ne: False
        obtain z u where z: "read_exact (n - length b) t = (z, u)" by fastforce
        have "length b \<le> n" using src_read_bound y Inr by blast
        with 1(1) [OF False y [symmetric] Inr ne z] z "1.prems" False y Inr ne src_read_len [OF y]
        show ?thesis by (cases z) (auto simp: read_exact.simps [of n s])
      qed
    qed
  qed
qed

lemma src_read_shrinks [termination_simp]:
  "(Inr b, s') = src_read s n \<Longrightarrow> b \<noteq> [] \<Longrightarrow> src_len s' < src_len s"
  using src_read_len [of s n "Inr b" s'] by (cases b) auto

function read_member_loop :: "u64 \<Rightarrow> bool \<Rightarrow> u64 \<Rightarrow> bytes \<Rightarrow> (source, release_error, u64 \<times> bytes) comp" where
  "read_member_loop declared collect actual data s =
     (case src_read s BUFFER of
        (Inl e, s') \<Rightarrow> (Inl (Io e), s')
      | (Inr chunk, s') \<Rightarrow>
          if chunk = [] then (Inr (actual, data), s')
          else (case u64_checked_add actual (of_nat (length chunk)) of
              None \<Rightarrow> (Inl (Archive ''member size overflow''), s')
            | Some actual' \<Rightarrow>
                if MAX_MEMBER_SIZE < actual' \<or> declared < actual'
                then (Inl (Archive ''member actual size exceeds its declared size''), s')
                else read_member_loop declared collect actual' (if collect then data @ chunk else data) s'))"
  by pat_completeness auto
termination
  by (relation "measure (\<lambda>(_, _, _, _, s). src_len s)") (auto intro: src_read_shrinks)

declare read_member_loop.simps [simp del]

definition read_member_data :: "u64 \<Rightarrow> bool \<Rightarrow> (source, release_error, bytes) comp" where
  "read_member_data declared collect =
     bindM (read_member_loop declared collect 0 []) (\<lambda>(actual, data).
     bindM (ensureM (actual = declared) (Archive ''member actual size differs from declared size'')) (\<lambda>_.
     returnM data))"

text \<open>The same through \<open>by_ref().take(size)\<close>; the adapter is dropped afterwards.\<close>

definition take_member :: "u64 \<Rightarrow> bool \<Rightarrow> (source, release_error, bytes) comp" where
  "take_member declared collect s =
     (case read_member_data declared collect (Take declared s) of (x, t) \<Rightarrow> (x, untake t))"

subsection \<open>Member names\<close>

definition validate_member_name :: "bytes \<Rightarrow> string \<Rightarrow> release_error + string" where
  "validate_member_name raw root =
     bindE (ensureE (raw \<noteq> [] \<and> length raw \<le> MAX_ARCHIVE_MEMBER_NAME \<and> CHR 0x00 \<notin> set raw \<and> CHR 0x5C \<notin> set raw)
              (Archive ''malformed archive member name'')) (\<lambda>_.
     bindE (ok_orE (from_utf8 raw) (Archive ''non-UTF-8 archive member name'')) (\<lambda>raw.
     bindE (ensureE (\<not> prefix ''/'' raw \<and> \<not> prefix ''//'' raw) (Archive ''absolute archive member name'')) (\<lambda>_.
     let stem = (case strip_suffix ''/'' raw of Some r \<Rightarrow> r | None \<Rightarrow> raw); cs = split_on (CHR ''/'') stem in
     bindE (ensureE (stem \<noteq> [] \<and> \<not> sublist ''//'' stem \<and> list_all (\<lambda>c. c \<noteq> [] \<and> c \<noteq> ''.'' \<and> c \<noteq> ''..'') cs)
              (Archive ''malformed archive member name'')) (\<lambda>_.
     let first = (case cs of [] \<Rightarrow> [] | c # _ \<Rightarrow> c) in
     bindE (ensureE (CHR '':'' \<notin> set first \<and> first = root \<and> list_all (\<lambda>c. CHR '':'' \<notin> set c) cs)
              (Archive ''archive member is outside canonical root'')) (\<lambda>_.
     Inr stem)))))"

subsection \<open>Which target and version an asset names\<close>

definition canonical_version_from_archive_name :: "('v, 'z) lib_scheme \<Rightarrow> app \<Rightarrow> string \<Rightarrow> target \<Rightarrow> 'v" where
  "canonical_version_from_archive_name lib app name t =
     (let stem = (case strip_suffix (archive_suffix t) name of Some s \<Rightarrow> s | None \<Rightarrow> []);
          version = (case Option.bind (strip_prefix (archive_prefix app) stem) (strip_suffix (''-'' @ as_str t)) of
                       Some v \<Rightarrow> v | None \<Rightarrow> ''0.0.0'')
      in case version_parse lib version of Some v \<Rightarrow> v | None \<Rightarrow> version_zero lib)"

definition target_from_asset :: "('v, 'z) lib_scheme \<Rightarrow> app \<Rightarrow> release_asset \<Rightarrow> release_error + target" where
  "target_from_asset lib app a =
     ok_orE (find (\<lambda>t. a_archive a = archive_name lib t app
                      (canonical_version_from_archive_name lib app (a_archive a) t)) all_targets)
       (Archive ''release asset has no supported target'')"

definition canonical_version_from_asset :: "('v, 'z) lib_scheme \<Rightarrow> app \<Rightarrow> release_asset \<Rightarrow> target \<Rightarrow> 'v" where
  "canonical_version_from_asset lib app a t =
     (let first = hd (split_on (CHR ''/'') (p_path (a_payload a)));
          root = (case Option.bind (strip_prefix (archive_prefix app) first) (strip_suffix (''-'' @ as_str t)) of
                    Some v \<Rightarrow> v | None \<Rightarrow> ''0.0.0'')
      in case version_parse lib root of Some v \<Rightarrow> v | None \<Rightarrow> version_zero lib)"

definition validate_asset_shape :: "('v, 'z) lib_scheme \<Rightarrow> app \<Rightarrow> release_asset \<Rightarrow> release_error + unit" where
  "validate_asset_shape lib app a =
     bindE (ensureE (a_archive_size a \<noteq> 0 \<and> a_archive_size a \<le> MAX_ARCHIVE_SIZE
                     \<and> p_size (a_payload a) \<noteq> 0 \<and> p_size (a_payload a) \<le> MAX_MEMBER_SIZE)
              (Archive ''invalid release asset size'')) (\<lambda>_.
     bindE (ensureE (length (a_archive_sha256 a) = 64 \<and> length (p_sha256 (a_payload a)) = 64)
              (Archive ''invalid release asset hash'')) (\<lambda>_.
     bindE (target_from_asset lib app a) (\<lambda>t.
     if is_windows t then
       bindE (ok_orE (a_launcher a) (Archive ''Windows asset has no launcher metadata'')) (\<lambda>l.
       ensureE (Some (l_protocol l) = launcher_protocol app \<and> l_size l \<noteq> 0 \<and> l_size l \<le> MAX_MEMBER_SIZE)
         (Archive ''invalid Windows launcher metadata''))
     else ensureE (a_launcher a = None) (Archive ''unexpected launcher metadata''))))"

definition verify_archive_bytes :: "('v, 'z) lib_scheme \<Rightarrow> app \<Rightarrow> bytes \<Rightarrow> release_asset \<Rightarrow> release_error + unit" where
  "verify_archive_bytes lib app b a =
     bindE (target_from_asset lib app a) (\<lambda>t.
     bindE (asset_validate lib a app (canonical_version_from_asset lib app a t) t) (\<lambda>_.
     bindE (ensureE (of_nat (length b) \<le> MAX_ARCHIVE_SIZE) (Archive ''archive exceeds maximum size'')) (\<lambda>_.
     verify_bytes lib b (a_archive_size a) (a_archive_sha256 a))))"

subsection \<open>PAX records\<close>

record pax =
  px_path :: "bytes option option"
  px_size :: "u64 option option"

record pax_global =
  pg_path :: "bytes option"
  pg_size :: "u64 option"

definition pax_default :: pax where
  "pax_default = \<lparr>px_path = None, px_size = None\<rparr>"

definition pax_update :: "pax_global \<Rightarrow> pax \<Rightarrow> pax_global" where
  "pax_update g p = \<lparr>pg_path = (case px_path p of None \<Rightarrow> pg_path g | Some x \<Rightarrow> x),
     pg_size = (case px_size p of None \<Rightarrow> pg_size g | Some x \<Rightarrow> x)\<rparr>"

text \<open>One field of a record.\<close>

definition pax_field :: "bytes \<Rightarrow> pax \<Rightarrow> release_error + pax" where
  "pax_field field p =
     bindE (ok_orE (position (\<lambda>c. c = CHR ''='') field) (Archive ''malformed PAX field'')) (\<lambda>equals.
     let key = take equals field; value = drop (equals + 1) field;
         p' = (if key = ''path'' then p\<lparr>px_path := Some (if value = [] then None else Some value)\<rparr> else p) in
     if key = ''size'' then
       bindE (if value = [] then Inr None
              else bindE (ok_orE (Option.bind (from_utf8 value) (parse_unsigned 64)) (Archive ''invalid PAX size''))
                     (\<lambda>n. Inr (Some (of_nat n)))) (\<lambda>n. Inr (p'\<lparr>px_size := Some n\<rparr>))
     else Inr p')"

text \<open>\<open>pax_overrides\<close> moves a cursor over the data; here the data left of the cursor is dropped.\<close>

function pax_records :: "bytes \<Rightarrow> pax \<Rightarrow> release_error + pax" where
  "pax_records data p =
     (if data = [] then Inr p
      else (case position (\<lambda>c. c = CHR '' '') data of
          None \<Rightarrow> Inl (Archive ''malformed PAX record'')
        | Some space \<Rightarrow>
            (case Option.bind (from_utf8 (take space data)) (parse_unsigned 64) of
               None \<Rightarrow> Inl (Archive ''invalid PAX length'')
             | Some len \<Rightarrow>
                 if length data < len then Inl (Archive ''oversized PAX record'')
                 else if len \<le> space + 1 \<or> data ! (len - 1) \<noteq> CHR 0x0A
                 then Inl (Archive ''malformed PAX record'')
                 else (case pax_field (drop (space + 1) (take (len - 1) data)) p of
                     Inl e \<Rightarrow> Inl e
                   | Inr p' \<Rightarrow> pax_records (drop len data) p'))))"
  by pat_completeness auto
termination
  by (relation "measure (\<lambda>(data, _). length data)") auto

declare pax_records.simps [simp del]

definition pax_overrides :: "bytes \<Rightarrow> release_error + pax" where
  "pax_overrides data = pax_records data pax_default"

subsection \<open>The tar member loop\<close>

record verified_member =
  vm_path :: string
  vm_data :: bytes

record extracted_release =
  er_payload :: verified_member
  er_launcher :: "verified_member option"

text \<open>The loop variables of \<open>inspect_tar_gz\<close>, and the part of them \<open>inspect_zip\<close> shares.\<close>

record members =
  mb_names :: "string set"
  mb_total :: u64
  mb_payload :: "verified_member option"
  mb_launcher :: "verified_member option"
  mb_root_seen :: bool

record tar_state =
  ts_members :: members
  ts_long_name :: "bytes option"
  ts_long_link :: "bytes option"
  ts_pax :: "bytes option"
  ts_global :: pax_global
  ts_index :: nat

definition members_start :: members where
  "members_start = \<lparr>mb_names = {}, mb_total = 0, mb_payload = None, mb_launcher = None, mb_root_seen = False\<rparr>"

definition tar_start :: tar_state where
  "tar_start = \<lparr>ts_members = members_start, ts_long_name = None, ts_long_link = None, ts_pax = None,
     ts_global = \<lparr>pg_path = None, pg_size = None\<rparr>, ts_index = 0\<rparr>"

definition is_zero :: "bytes \<Rightarrow> bool" where
  "is_zero b \<longleftrightarrow> list_all (\<lambda>c. c = CHR 0x00) b"

definition trim_tar_nul :: "bytes \<Rightarrow> bytes" where
  "trim_tar_nul b = (case strip_suffix [CHR 0x00] b of Some r \<Rightarrow> r | None \<Rightarrow> b)"

definition checksum :: "bytes \<Rightarrow> u32" where
  "checksum block = sum_list (map (\<lambda>(offset, byte). if 148 \<le> offset \<and> offset < 156 then 32 else of_char byte)
     (enumerate 0 block))"

definition validate_tar_checksum :: "('v, 'z) alib_scheme \<Rightarrow> bytes \<Rightarrow> release_error + unit" where
  "validate_tar_checksum lib block =
     bindE (ok_orE (tar_cksum lib block) (Archive ''invalid tar checksum'')) (\<lambda>expected.
     ensureE (checksum block = expected) (Archive ''tar checksum mismatch''))"

definition skip_padding :: "u64 \<Rightarrow> string \<Rightarrow> string \<Rightarrow> (source, release_error, unit) comp" where
  "skip_padding n truncated nonzero =
     (let padding = unat ((512 - n mod 512) mod 512) in
      whenM (padding \<noteq> 0)
        (bindM (map_errM (\<lambda>_. Archive truncated) (read_exact padding)) (\<lambda>b.
         ensureM (is_zero b) (Archive nonzero))))"

definition read_tar_record :: "u64 \<Rightarrow> (source, release_error, bytes) comp" where
  "read_tar_record n =
     bindM (take_member n True) (\<lambda>data.
     bindM (skip_padding n ''truncated tar metadata padding'' ''nonzero tar metadata padding'') (\<lambda>_.
     returnM data))"

text \<open>Which manifest entry a member stands for: its size, its digest and whether it is the payload.
  The last case is the source's \<open>expect\<close>, unreachable for a validated asset.\<close>

definition expected_member ::
  "release_asset \<Rightarrow> string option \<Rightarrow> string \<Rightarrow> release_error + (u64 \<times> string \<times> bool) option" where
  "expected_member a launcher path =
     (if path = p_path (a_payload a) then Inr (Some (p_size (a_payload a), p_sha256 (a_payload a), True))
      else if launcher = Some path then
        (case a_launcher a of Some l \<Rightarrow> Inr (Some (l_size l, l_sha256 l, False))
         | None \<Rightarrow> Inl (Archive ''panic: validated Windows launcher path without metadata''))
      else Inr None)"

text \<open>The uncompressed size a member adds to the total.\<close>

definition charge :: "u64 \<Rightarrow> members \<Rightarrow> release_error + members" where
  "charge n m =
     bindE (ok_orE (u64_checked_add (mb_total m) n) (Archive ''uncompressed size overflow'')) (\<lambda>total.
     bindE (ensureE (total \<le> MAX_UNCOMPRESSED_SIZE) (Archive ''contents exceed maximum uncompressed size'')) (\<lambda>_.
     Inr (m\<lparr>mb_total := total\<rparr>)))"

text \<open>A member that matched is verified and kept.\<close>

definition keep_member ::
  "('v, 'z) lib_scheme \<Rightarrow> (u64 \<times> string \<times> bool) option \<Rightarrow> string \<Rightarrow> bytes \<Rightarrow> members \<Rightarrow> release_error + members" where
  "keep_member lib expected path data m =
     (case expected of None \<Rightarrow> Inr m
      | Some (n, hash, is_payload) \<Rightarrow>
          bindE (verify_bytes lib data n hash) (\<lambda>_.
          let member = Some \<lparr>vm_path = path, vm_data = data\<rparr> in
          Inr (if is_payload then m\<lparr>mb_payload := member\<rparr> else m\<lparr>mb_launcher := member\<rparr>)))"

definition add_name :: "string \<Rightarrow> members \<Rightarrow> release_error + members" where
  "add_name path m =
     bindE (ensureE (path \<notin> mb_names m) (Archive ''duplicate archive member'')) (\<lambda>_.
     Inr (m\<lparr>mb_names := insert path (mb_names m)\<rparr>))"

text \<open>GNU long names, GNU long links and PAX records are metadata for the members that follow.\<close>

definition tar_is_metadata :: "tar_type \<Rightarrow> bool" where
  "tar_is_metadata ty \<longleftrightarrow> ty = TarGnuLongName \<or> ty = TarGnuLongLink \<or> ty = TarPaxLocal \<or> ty = TarPaxGlobal"

definition tar_metadata :: "tar_type \<Rightarrow> bytes \<Rightarrow> tar_state \<Rightarrow> release_error + tar_state" where
  "tar_metadata ty data st =
     bindE (if ty = TarGnuLongName then
              bindE (ensureE (ts_long_name st = None) (Archive ''duplicate GNU long-name metadata for one tar member''))
                (\<lambda>_. Inr (st\<lparr>ts_long_name := Some data\<rparr>))
            else if ty = TarGnuLongLink then
              bindE (ensureE (ts_long_link st = None) (Archive ''duplicate GNU long-link metadata for one tar member''))
                (\<lambda>_. Inr (st\<lparr>ts_long_link := Some data\<rparr>))
            else if ty = TarPaxLocal then
              bindE (pax_overrides data) (\<lambda>_.
              bindE (ensureE (ts_pax st = None) (Archive ''duplicate local PAX metadata for one tar member''))
                (\<lambda>_. Inr (st\<lparr>ts_pax := Some data\<rparr>)))
            else bindE (pax_overrides data) (\<lambda>p. Inr (st\<lparr>ts_global := pax_update (ts_global st) p\<rparr>))) (\<lambda>st'.
     Inr (st'\<lparr>ts_index := ts_index st' + 1\<rparr>))"

text \<open>Everything about a member that is decided before its data are read: its path and size.\<close>

definition tar_member_head ::
  "('v, 'z) alib_scheme \<Rightarrow> string \<Rightarrow> bytes \<Rightarrow> u64 \<Rightarrow> tar_state \<Rightarrow> release_error + (string \<times> u64 \<times> tar_state)" where
  "tar_member_head lib root block header_size st =
     bindE (case ts_pax st of Some data \<Rightarrow> pax_overrides data | None \<Rightarrow> Inr pax_default) (\<lambda>px.
     let declared = (case (case px_size px of Some n \<Rightarrow> n | None \<Rightarrow> pg_size (ts_global st)) of
                       Some n \<Rightarrow> n | None \<Rightarrow> header_size);
         pax_path = (case px_path px of Some p \<Rightarrow> p | None \<Rightarrow> pg_path (ts_global st));
         raw = (case ts_long_name st of Some n \<Rightarrow> trim_tar_nul n
                | None \<Rightarrow> (case pax_path of Some p \<Rightarrow> p | None \<Rightarrow> tar_path_bytes lib block));
         ty = tar_type_of lib block in
     bindE (validate_member_name raw root) (\<lambda>path.
     bindE (add_name path (ts_members st)) (\<lambda>m.
     bindE (ensureE (ty = TarRegular \<or> ty = TarDirectory) (Archive ''unsupported or unsafe tar entry type'')) (\<lambda>_.
     bindE (ensureE (\<not> (suffix ''/'' raw \<and> ty = TarRegular)) (Archive ''regular tar member has a directory name'')) (\<lambda>_.
     bindE (ensureE (declared \<le> MAX_MEMBER_SIZE) (Archive ''tar member exceeds maximum size'')) (\<lambda>_.
     Inr (path, declared, st\<lparr>ts_members := m, ts_long_name := None, ts_long_link := None, ts_pax := None\<rparr>)))))))"

definition tar_regular ::
  "('v, 'z) alib_scheme \<Rightarrow> release_asset \<Rightarrow> string option \<Rightarrow> string \<Rightarrow> bytes \<Rightarrow> string \<Rightarrow> u64 \<Rightarrow> members
   \<Rightarrow> (source, release_error, members) comp" where
  "tar_regular lib a launcher root block path declared m =
     bindM (ensureM (path \<noteq> root) (Archive ''canonical archive root must be a directory'')) (\<lambda>_.
     bindM (liftE (charge declared m)) (\<lambda>m.
     bindM (liftE (expected_member a launcher path)) (\<lambda>expected.
     bindM (take_member declared (expected \<noteq> None)) (\<lambda>data.
     bindM (skip_padding declared ''truncated tar padding'' ''nonzero tar padding'') (\<lambda>_.
     bindM (whenM (expected \<noteq> None)
              (ensureM ((case tar_mode lib block of Some mode \<Rightarrow> mode | None \<Rightarrow> 0) AND 0x49 \<noteq> 0)
                 (Archive ''expected executable member is not executable''))) (\<lambda>_.
     liftE (keep_member lib expected path data m)))))))"

definition tar_member ::
  "('v, 'z) alib_scheme \<Rightarrow> release_asset \<Rightarrow> string option \<Rightarrow> string \<Rightarrow> bytes \<Rightarrow> u64 \<Rightarrow> tar_state
   \<Rightarrow> (source, release_error, tar_state) comp" where
  "tar_member lib a launcher root block header_size st =
     bindM (liftE (tar_member_head lib root block header_size st)) (\<lambda>(path, declared, st).
     bindM (if tar_type_of lib block = TarDirectory then
              bindM (ensureM (declared = 0) (Archive ''directory member has nonzero size'')) (\<lambda>_.
              returnM (if path = root then (ts_members st)\<lparr>mb_root_seen := True\<rparr> else ts_members st))
            else tar_regular lib a launcher root block path declared (ts_members st)) (\<lambda>m.
     returnM (st\<lparr>ts_members := m, ts_index := ts_index st + 1\<rparr>)))"

function tar_trailing :: "(source, release_error, unit) comp" where
  "tar_trailing s =
     (case src_read s 8192 of
        (Inl e, s') \<Rightarrow> (Inl (Archive ''invalid trailing tar data''), s')
      | (Inr b, s') \<Rightarrow>
          if b = [] then (Inr (), s')
          else if \<not> is_zero b then (Inl (Archive ''tar archive has nonzero data after its end marker''), s')
          else tar_trailing s')"
  by pat_completeness auto
termination
  by (relation "measure src_len") (auto intro: src_read_shrinks)

declare tar_trailing.simps [simp del]

text \<open>What an iteration does with the header block it read; \<open>None\<close> is the loop's \<open>break\<close>.\<close>

definition tar_block ::
  "('v, 'z) alib_scheme \<Rightarrow> release_asset \<Rightarrow> string option \<Rightarrow> string \<Rightarrow> tar_state \<Rightarrow> bytes
   \<Rightarrow> (source, release_error, tar_state option) comp" where
  "tar_block lib a launcher root st block =
     (if is_zero block then
       bindM (ensureM (ts_long_name st = None \<and> ts_long_link st = None \<and> ts_pax st = None)
                (Archive ''tar metadata record has no following member'')) (\<lambda>_.
       bindM tar_trailing (\<lambda>_. returnM None))
     else
       bindM (ensureM (ts_index st < MAX_ARCHIVE_MEMBERS) (Archive ''tar archive exceeds maximum member count'')) (\<lambda>_.
       bindM (liftE (validate_tar_checksum lib block)) (\<lambda>_.
       bindM (liftE (ok_orE (tar_size lib block) (Archive ''invalid tar member size''))) (\<lambda>header_size.
       if tar_is_metadata (tar_type_of lib block) then
         bindM (ensureM (header_size \<le> MAX_TAR_METADATA_SIZE) (Archive ''tar metadata is too large'')) (\<lambda>_.
         bindM (read_tar_record header_size) (\<lambda>data.
         bindM (liftE (tar_metadata (tar_type_of lib block) data st)) (\<lambda>st. returnM (Some st))))
       else
         bindM (tar_member lib a launcher root block header_size st) (\<lambda>st. returnM (Some st))))))"

definition tar_step ::
  "('v, 'z) alib_scheme \<Rightarrow> release_asset \<Rightarrow> string option \<Rightarrow> string \<Rightarrow> tar_state
   \<Rightarrow> (source, release_error, tar_state option) comp" where
  "tar_step lib a launcher root st =
     bindM (map_errM (\<lambda>_. Archive ''invalid tar header'') (read_exact 512)) (tar_block lib a launcher root st)"

subsection \<open>Every step consumes input\<close>

text \<open>\<open>shrinks m\<close>: \<open>m\<close> never lengthens what is left to read.\<close>

definition shrinks :: "(source, 'e, 'a) comp \<Rightarrow> bool" where
  "shrinks m \<longleftrightarrow> (\<forall>s x s'. m s = (x, s') \<longrightarrow> src_len s' \<le> src_len s)"

named_theorems shrinks_intros \<open>computations that do not lengthen the source\<close>

lemma shrinksD: "shrinks m \<Longrightarrow> m s = (x, s') \<Longrightarrow> src_len s' \<le> src_len s"
  by (simp add: shrinks_def)

lemma shrinks_bind [shrinks_intros]: "shrinks m \<Longrightarrow> (\<And>a. shrinks (f a)) \<Longrightarrow> shrinks (bindM m f)"
  unfolding shrinks_def bindM_def by (fastforce split: prod.splits sum.splits intro: le_trans)

lemma shrinks_basic [shrinks_intros]:
  "shrinks (returnM a)" "shrinks (throwM e)" "shrinks (liftE r)" "shrinks (ensureM b e)"
  by (auto simp: shrinks_def monad_simps)

lemma shrinks_if [shrinks_intros]: "shrinks m \<Longrightarrow> shrinks n \<Longrightarrow> shrinks (if b then m else n)"
  by simp

lemma shrinks_when [shrinks_intros]: "shrinks m \<Longrightarrow> shrinks (whenM b m)"
  by (simp add: whenM_def shrinks_basic)

lemma shrinks_map_err [shrinks_intros]: "shrinks m \<Longrightarrow> shrinks (map_errM g m)"
  unfolding shrinks_def map_errM_def by (fastforce split: prod.splits sum.splits)

lemma shrinks_prod [shrinks_intros]: "(\<And>a b. shrinks (f a b)) \<Longrightarrow> shrinks (case x of (a, b) \<Rightarrow> f a b)"
  by (cases x) simp

lemma shrinks_read_exact [shrinks_intros]: "shrinks (read_exact n)"
  using read_exact_len by (fastforce simp: shrinks_def)

lemma shrinks_member_loop [shrinks_intros]: "shrinks (read_member_loop declared collect actual data)"
proof -
  have "src_len (snd (read_member_loop declared collect actual data s)) \<le> src_len s" for s
  proof (induction declared collect actual data s rule: read_member_loop.induct)
    case (1 declared collect actual data s)
    obtain y t where y: "src_read s BUFFER = (y, t)" by fastforce
    have le: "src_len t \<le> src_len s" using src_read_len [OF y] by blast
    show ?case
    proof (cases y)
      case (Inl e)
      with y le show ?thesis by (simp add: read_member_loop.simps [of declared collect actual data s])
    next
      case (Inr c)
      show ?thesis
        using 1 [OF y [symmetric] Inr] y Inr le
        by (cases "u64_checked_add actual (of_nat (length c))")
          (auto simp: read_member_loop.simps [of declared collect actual data s] intro: le_trans)
    qed
  qed
  then show ?thesis unfolding shrinks_def by (metis snd_conv)
qed

lemma shrinks_take_member [shrinks_intros]: "shrinks (take_member declared collect)"
proof -
  have "shrinks (read_member_data declared collect)"
    unfolding read_member_data_def by (intro shrinks_intros)
  then have "src_len (snd (read_member_data declared collect (Take declared s))) \<le> src_len s" for s
    unfolding shrinks_def by (metis prod.collapse src_len.simps(3))
  moreover have "src_len (untake t) = src_len t" for t
    by (cases t) (simp_all add: untake_def)
  ultimately show ?thesis
    by (auto simp: shrinks_def take_member_def split: prod.splits) (metis snd_conv)
qed

lemma shrinks_trailing [shrinks_intros]: "shrinks tar_trailing"
proof -
  have "src_len (snd (tar_trailing s)) \<le> src_len s" for s
  proof (induction s rule: tar_trailing.induct)
    case (1 s)
    obtain y t where y: "src_read s 8192 = (y, t)" by fastforce
    have le: "src_len t \<le> src_len s" using src_read_len [OF y] by blast
    show ?case
      using 1 [OF y [symmetric]] y le
      by (cases y) (auto simp: tar_trailing.simps [of s] intro: le_trans)
  qed
  then show ?thesis unfolding shrinks_def by (metis snd_conv)
qed

lemma shrinks_padding [shrinks_intros]: "shrinks (skip_padding n t z)"
  unfolding skip_padding_def Let_def by (intro shrinks_intros)

lemma shrinks_tar [shrinks_intros]:
  "shrinks (read_tar_record n)" "shrinks (tar_member lib a launcher root block h st)"
  unfolding read_tar_record_def tar_member_def tar_regular_def by (intro shrinks_intros)+

lemma shrinks_tar_block: "shrinks (tar_block lib a launcher root st block)"
  unfolding tar_block_def by (intro shrinks_intros)

lemma tar_step_shrinks [termination_simp]:
  assumes "(Inr x, s') = tar_step lib a launcher root st s"
  shows "src_len s' < src_len s"
proof -
  obtain y t where y: "read_exact 512 s = (y, t)" by fastforce
  with assms obtain block where b: "y = Inr block" "tar_block lib a launcher root st block t = (Inr x, s')"
    by (cases y) (auto simp: tar_step_def bindM_def map_errM_def)
  have "src_len t < src_len s" using read_exact_len [OF y] b by auto
  with shrinksD [OF shrinks_tar_block b(2)] show ?thesis by simp
qed

function tar_loop ::
  "('v, 'z) alib_scheme \<Rightarrow> release_asset \<Rightarrow> string option \<Rightarrow> string \<Rightarrow> tar_state
   \<Rightarrow> (source, release_error, tar_state) comp" where
  "tar_loop lib a launcher root st s =
     (case tar_step lib a launcher root st s of
        (Inl e, s') \<Rightarrow> (Inl e, s')
      | (Inr None, s') \<Rightarrow> (Inr st, s')
      | (Inr (Some st'), s') \<Rightarrow> tar_loop lib a launcher root st' s')"
  by pat_completeness auto
termination
  by (relation "measure (\<lambda>(_, _, _, _, _, s). src_len s)") (auto intro: tar_step_shrinks)

declare tar_loop.simps [simp del]

subsection \<open>The ZIP central directory\<close>

text \<open>\<open>from_le_bytes\<close> at an offset, and \<open>get(offset..offset + n)\<close>.\<close>

definition le16 :: "bytes \<Rightarrow> nat \<Rightarrow> nat" where
  "le16 b i = of_char (b ! i) + 256 * of_char (b ! (i + 1))"

definition le32 :: "bytes \<Rightarrow> nat \<Rightarrow> nat" where
  "le32 b i = le16 b i + 65536 * le16 b (i + 2)"

definition get_range :: "bytes \<Rightarrow> nat \<Rightarrow> nat \<Rightarrow> bytes option" where
  "get_range b i n = (if i + n \<le> length b then Some (take n (drop i b)) else None)"

definition EOCD_SIGNATURE :: bytes where "EOCD_SIGNATURE = [CHR ''P'', CHR ''K'', CHR 0x05, CHR 0x06]"
definition EOCD_SIZE :: nat where "EOCD_SIZE = 22"
definition MAX_COMMENT :: nat where "MAX_COMMENT = 65535"
definition CENTRAL_SIGNATURE :: bytes where "CENTRAL_SIGNATURE = [CHR ''P'', CHR ''K'', CHR 0x01, CHR 0x02]"
definition CENTRAL_HEADER_SIZE :: nat where "CENTRAL_HEADER_SIZE = 46"

text \<open>The name, extra and comment lengths are 16 bits each, so their sum cannot overflow.\<close>

function zip_central_loop :: "bytes \<Rightarrow> nat \<Rightarrow> nat \<Rightarrow> nat \<Rightarrow> nat \<Rightarrow> release_error + nat option" where
  "zip_central_loop b stop cursor members metadata =
     (if stop \<le> cursor then Inr (if cursor = stop then Some members else None)
      else (case get_range b cursor CENTRAL_HEADER_SIZE of
          None \<Rightarrow> Inr None
        | Some header \<Rightarrow>
            if take 4 header \<noteq> CENTRAL_SIGNATURE then Inr None
            else if MAX_ARCHIVE_MEMBER_NAME < le16 header 28 then Inl (Archive ''ZIP member name is too long'')
            else
              let variable = le16 header 28 + le16 header 30 + le16 header 32 in
              (case usize_checked_add metadata variable of
                 None \<Rightarrow> Inl (Archive ''ZIP central metadata size overflow'')
               | Some metadata' \<Rightarrow>
                   if MAX_ARCHIVE_METADATA_SIZE < metadata' then Inl (Archive ''ZIP central metadata is too large'')
                   else (case usize_checked_add cursor (CENTRAL_HEADER_SIZE + variable) of
                       None \<Rightarrow> Inr None
                     | Some next_cursor \<Rightarrow>
                         if stop < next_cursor then Inr None
                         else if MAX_ARCHIVE_MEMBERS < members + 1 then Inr (Some (members + 1))
                         else zip_central_loop b stop next_cursor (members + 1) metadata'))))"
  by pat_completeness auto
termination
  by (relation "measure (\<lambda>(_, stop, cursor, _, _). stop - cursor)") (auto simp: CENTRAL_HEADER_SIZE_def)

declare zip_central_loop.simps [simp del]

definition zip_central_member_count :: "bytes \<Rightarrow> nat \<Rightarrow> nat \<Rightarrow> release_error + nat option" where
  "zip_central_member_count b start stop = zip_central_loop b stop start 0 0"

text \<open>One candidate for the end-of-directory record: \<open>Inr False\<close> is \<open>continue\<close>.\<close>

definition zip_candidate :: "bytes \<Rightarrow> nat \<Rightarrow> release_error + bool" where
  "zip_candidate b offset =
     (if get_range b offset 4 \<noteq> Some EOCD_SIGNATURE then Inr False
      else (case get_range b offset EOCD_SIZE of
          None \<Rightarrow> Inr False
        | Some r \<Rightarrow>
            if offset + EOCD_SIZE + le16 r 20 \<noteq> length b \<or> le16 r 4 \<noteq> 0 \<or> le16 r 6 \<noteq> 0 \<or> le16 r 8 \<noteq> le16 r 10
            then Inr False
            else if le16 r 10 = 65535 \<or> le32 r 12 = 2 ^ 32 - 1 \<or> le32 r 16 = 2 ^ 32 - 1
            then Inl (Archive ''ZIP64 archives are not supported for release assets'')
            else (case usize_checked_add (le32 r 16) (le32 r 12) of
                None \<Rightarrow> Inr False
              | Some stop \<Rightarrow>
                  if stop \<noteq> offset then Inr False
                  else bindE (zip_central_member_count b (le32 r 16) stop) (\<lambda>found. case found of
                      None \<Rightarrow> Inr False
                    | Some actual \<Rightarrow>
                        if actual \<noteq> le16 r 10 then Inr False
                        else bindE (ensureE (actual \<le> MAX_ARCHIVE_MEMBERS)
                               (Archive ''ZIP archive exceeds maximum member count'')) (\<lambda>_. Inr True)))))"

text \<open>The windows are searched from the last one back to \<open>search_start\<close>.\<close>

fun preflight_loop :: "bytes \<Rightarrow> nat \<Rightarrow> nat \<Rightarrow> release_error + unit" where
  "preflight_loop b start 0 = Inl (Archive ''ZIP archive has no valid end-of-directory record'')"
| "preflight_loop b start (Suc k) =
     bindE (zip_candidate b (start + k)) (\<lambda>found. if found then Inr () else preflight_loop b start k)"

definition preflight_zip_member_count :: "bytes \<Rightarrow> release_error + unit" where
  "preflight_zip_member_count b =
     (let start = length b - (EOCD_SIZE + MAX_COMMENT) in preflight_loop b start (length b - start - 3))"

subsection \<open>Inspection\<close>

definition finish_members ::
  "('v, 'z) lib_scheme \<Rightarrow> app \<Rightarrow> members \<Rightarrow> release_asset \<Rightarrow> release_error + extracted_release" where
  "finish_members lib app m a =
     bindE (ok_orE (mb_payload m) (Archive ''archive did not contain exact payload'')) (\<lambda>payload.
     bindE (target_from_asset lib app a) (\<lambda>t.
     bindE (ensureE (\<not> (is_windows t \<and> mb_launcher m = None))
              (Archive ''archive did not contain the exact Windows launcher'')) (\<lambda>_.
     bindE (ensureE (\<not> (\<not> is_windows t \<and> mb_launcher m \<noteq> None))
              (Archive ''non-Windows archive contained an unexpected launcher'')) (\<lambda>_.
     Inr \<lparr>er_payload = payload, er_launcher = mb_launcher m\<rparr>))))"

definition finish_inspection ::
  "('v, 'z) lib_scheme \<Rightarrow> app \<Rightarrow> members \<Rightarrow> release_asset \<Rightarrow> release_error + extracted_release" where
  "finish_inspection lib app m a =
     bindE (ensureE (mb_root_seen m) (Archive ''archive has no canonical root directory''))
       (\<lambda>_. finish_members lib app m a)"

definition inspect_tar_gz ::
  "('v, 'z) alib_scheme \<Rightarrow> app \<Rightarrow> bytes \<Rightarrow> release_asset \<Rightarrow> release_error + extracted_release" where
  "inspect_tar_gz lib app b a =
     bindE (target_from_asset lib app a) (\<lambda>t.
     let v = canonical_version_from_asset lib app a t;
         source = Limited MAX_TAR_DECOMPRESSED_SIZE (Plain (gz_decode lib b)) in
     bindE (fst (tar_loop lib a (launcher_path lib t app v) (target_root_name lib t app v) tar_start source)) (\<lambda>st.
     finish_inspection lib app (ts_members st) a))"

definition zip_checks :: "zip_entry \<Rightarrow> string \<Rightarrow> release_error + unit" where
  "zip_checks z path =
     bindE (ensureE (\<not> z_encrypted z) (Archive ''encrypted ZIP member is not supported'')) (\<lambda>_.
     bindE (ensureE (z_compression z = Stored \<or> z_compression z = Deflated) (Archive ''unsupported ZIP compression'')) (\<lambda>_.
     bindE (ensureE (\<not> z_symlink z) (Archive ''symbolic-link ZIP member is not supported'')) (\<lambda>_.
     bindE (case z_unix_mode z of None \<Rightarrow> Inr ()
            | Some mode \<Rightarrow>
                let file_type = mode AND 0xF000 in
                bindE (ensureE (file_type = 0 \<or> file_type = 0x8000 \<or> file_type = 0x4000)
                         (Archive ''special ZIP member is not supported'')) (\<lambda>_.
                ensureE (\<not> (file_type = 0x4000 \<and> \<not> z_dir z)) (Archive ''ZIP directory mode disagrees with name''))) (\<lambda>_.
     ensureE (z_size z \<le> MAX_MEMBER_SIZE) (Archive ''ZIP member exceeds maximum size'')))))"

definition zip_regular ::
  "('v, 'z) lib_scheme \<Rightarrow> release_asset \<Rightarrow> string option \<Rightarrow> string \<Rightarrow> zip_entry \<Rightarrow> string \<Rightarrow> members
   \<Rightarrow> release_error + members" where
  "zip_regular lib a launcher root z path m =
     bindE (ensureE (path \<noteq> root) (Archive ''canonical archive root must be a directory'')) (\<lambda>_.
     bindE (charge (z_size z) m) (\<lambda>m.
     bindE (expected_member a launcher path) (\<lambda>expected.
     bindE (fst (read_member_data (z_size z) (expected \<noteq> None) (Plain (z_reader z)))) (\<lambda>data.
     keep_member lib expected path data m))))"

definition zip_step ::
  "('v, 'z) lib_scheme \<Rightarrow> release_asset \<Rightarrow> string option \<Rightarrow> string \<Rightarrow> members \<Rightarrow> zip_entry option
   \<Rightarrow> release_error + members" where
  "zip_step lib a launcher root m entry =
     bindE (ok_orE entry (Archive ''invalid ZIP entry'')) (\<lambda>z.
     bindE (validate_member_name (z_name_raw z) root) (\<lambda>path.
     bindE (add_name path m) (\<lambda>m.
     bindE (zip_checks z path) (\<lambda>_.
     if z_dir z then
       bindE (ensureE (z_size z = 0) (Archive ''directory member has nonzero size'')) (\<lambda>_.
       Inr (if path = root then m\<lparr>mb_root_seen := True\<rparr> else m))
     else zip_regular lib a launcher root z path m))))"

fun zip_loop ::
  "('v, 'z) lib_scheme \<Rightarrow> release_asset \<Rightarrow> string option \<Rightarrow> string \<Rightarrow> members \<Rightarrow> zip_entry option list
   \<Rightarrow> release_error + members" where
  "zip_loop lib a launcher root m [] = Inr m"
| "zip_loop lib a launcher root m (z # zs) =
     bindE (zip_step lib a launcher root m z) (\<lambda>m. zip_loop lib a launcher root m zs)"

definition inspect_zip ::
  "('v, 'z) alib_scheme \<Rightarrow> app \<Rightarrow> bytes \<Rightarrow> release_asset \<Rightarrow> release_error + extracted_release" where
  "inspect_zip lib app b a =
     bindE (target_from_asset lib app a) (\<lambda>t.
     let v = canonical_version_from_asset lib app a t in
     bindE (preflight_zip_member_count b) (\<lambda>_.
     bindE (ok_orE (zip_open lib b) (Archive ''invalid ZIP archive'')) (\<lambda>entries.
     bindE (ensureE (length entries \<le> MAX_ARCHIVE_MEMBERS) (Archive ''ZIP archive exceeds maximum member count'')) (\<lambda>_.
     bindE (zip_loop lib a (launcher_path lib t app v) (target_root_name lib t app v) members_start entries) (\<lambda>m.
     finish_inspection lib app m a)))))"

definition inspect_archive ::
  "('v, 'z) alib_scheme \<Rightarrow> app \<Rightarrow> bytes \<Rightarrow> release_asset \<Rightarrow> release_error + extracted_release" where
  "inspect_archive lib app b a =
     bindE (validate_asset_shape lib app a) (\<lambda>_.
     bindE (verify_archive_bytes lib app b a) (\<lambda>_.
     bindE (target_from_asset lib app a) (\<lambda>t.
     if is_windows t then inspect_zip lib app b a else inspect_tar_gz lib app b a)))"

subsection \<open>Extraction\<close>

type_synonym 'a rel = "(world, release_error, 'a) comp"

record extracted_paths =
  ep_payload :: path
  ep_launcher :: "path option"

text \<open>\<open>From<io::Error> for ReleaseError\<close>, and the \<open>map_err\<close> to an archive error.\<close>

definition relIO :: "'a io \<Rightarrow> 'a rel" where
  "relIO m = map_errM Io m"

definition archiveIO :: "string \<Rightarrow> 'a io \<Rightarrow> 'a rel" where
  "archiveIO message m = map_errM (\<lambda>_. Archive message) m"

definition path_is_safe_directory :: "host \<Rightarrow> path \<Rightarrow> unit rel" where
  "path_is_safe_directory h p =
     bindM (whenM (h_windows h)
              (archiveIO ''Windows extraction destination is not private'' (ensure_private_dir h p))) (\<lambda>_.
     archiveIO ''unsafe extraction destination'' (ensure_directory_tree h p))"

definition write_member :: "host \<Rightarrow> path \<Rightarrow> verified_member \<Rightarrow> string \<Rightarrow> path rel" where
  "write_member h dir m name =
     archiveIO ''could not create extracted member'' (create_new_file_at h dir name (vm_data m) (Some 0x1ED))"

text \<open>The launcher could not be written: the payload goes too.\<close>

definition write_launcher :: "host \<Rightarrow> path \<Rightarrow> string \<Rightarrow> (verified_member \<times> string) option \<Rightarrow> path option rel" where
  "write_launcher h d main l =
     (case l of
        None \<Rightarrow> returnM None
      | Some (m, name) \<Rightarrow>
          bindM (tryM (write_member h d m name)) (\<lambda>r. case r of
            Inr p \<Rightarrow> returnM (Some p)
          | Inl e \<Rightarrow> bindM (archiveIO ''payload rollback failed'' (remove_file_at h d main)) (\<lambda>_. throwM e)))"

text \<open>The directory was exchanged: both members are removed again, whatever each removal returns.\<close>

definition roll_back :: "host \<Rightarrow> path \<Rightarrow> string \<Rightarrow> string option \<Rightarrow> unit rel" where
  "roll_back h d main launcher =
     bindM (case launcher of
              None \<Rightarrow> returnM (Inr ())
            | Some l \<Rightarrow> (tryM (remove_file_at h d l) :: (io_kind + unit) rel)) (\<lambda>l.
     bindM (tryM (remove_file_at h d main) :: (io_kind + unit) rel) (\<lambda>p.
     throwM (Archive (if is_ok l \<and> is_ok p then ''extraction destination changed during extraction''
       else ''extraction destination changed and cleanup failed''))))"

definition extract_archive ::
  "('v, 'z) alib_scheme \<Rightarrow> host \<Rightarrow> app \<Rightarrow> bytes \<Rightarrow> release_asset \<Rightarrow> path \<Rightarrow> extracted_paths rel" where
  "extract_archive lib h app b a dest =
     bindM (liftE (inspect_archive lib app b a)) (\<lambda>release.
     bindM (liftE (target_from_asset lib app a)) (\<lambda>t.
     bindM (path_is_safe_directory h dest) (\<lambda>_.
     bindM (archiveIO ''could not open extraction destination'' (open_extraction_directory h dest)) (\<lambda>d.
     let main = target_payload_name t app in
     bindM (case er_launcher release of
              None \<Rightarrow> returnM None
            | Some l \<Rightarrow>
                bindM (liftE (ok_orE (target_launcher_name t app) (Archive ''app does not configure a launcher'')))
                  (\<lambda>name. returnM (Some (l, name)))) (\<lambda>launcher.
     bindM (write_member h d (er_payload release) main) (\<lambda>payload_path.
     bindM (write_launcher h d main launcher) (\<lambda>launcher_path.
     bindM (tryM (path_still_identifies_directory h dest d) :: (io_kind + bool) rel) (\<lambda>identity.
     bindM (whenM (identity \<noteq> Inr True) (roll_back h d main (map_option snd launcher))) (\<lambda>_.
     returnM \<lparr>ep_payload = payload_path, ep_launcher = launcher_path\<rparr>)))))))))"

definition extract_archive_file ::
  "('v, 'z) alib_scheme \<Rightarrow> host \<Rightarrow> app \<Rightarrow> path \<Rightarrow> release_asset \<Rightarrow> path \<Rightarrow> extracted_paths rel" where
  "extract_archive_file lib h app p a dest =
     bindM (relIO (open_regular_file_secure h p)) (\<lambda>f.
     bindM (relIO (symlink_metadata f)) (\<lambda>n.
     bindM (ensureM (is_file n \<and> of_nat (node_len n) \<le> MAX_ARCHIVE_SIZE)
              (Archive ''invalid or oversized release archive'')) (\<lambda>_.
     bindM (relIO (read_handle f)) (\<lambda>content.
     bindM (liftE (fst (read_limited MAX_ARCHIVE_SIZE (reader_of content)))) (\<lambda>b.
     extract_archive lib h app b a dest)))))"

definition verify_archive_file :: "('v, 'z) lib_scheme \<Rightarrow> host \<Rightarrow> app \<Rightarrow> path \<Rightarrow> release_asset \<Rightarrow> unit rel" where
  "verify_archive_file lib h app p a =
     bindM (relIO (open_regular_file_secure h p)) (\<lambda>f.
     bindM (relIO (symlink_metadata f)) (\<lambda>n.
     bindM (ensureM (is_file n) (Archive ''release archive is not a regular file'')) (\<lambda>_.
     bindM (ensureM (of_nat (node_len n) \<le> MAX_ARCHIVE_SIZE) (Archive ''archive exceeds maximum size'')) (\<lambda>_.
     bindM (relIO (read_handle f)) (\<lambda>content.
     bindM (liftE (fst (read_limited MAX_ARCHIVE_SIZE (reader_of content)))) (\<lambda>b.
     liftE (verify_archive_bytes lib app b a)))))))"

subsection \<open>Canonical names are read back\<close>

lemma version_from_archive_name:
  assumes "semver_ok lib"
  shows "canonical_version_from_archive_name lib app (archive_name lib t app v) t = v"
proof -
  have "archive_name lib t app v = (archive_prefix app @ version_string lib v @ ''-'' @ as_str t) @ archive_suffix t"
    by (simp add: archive_name_def target_root_name_def root_name_def archive_prefix_def)
  moreover have "strip_suffix (''-'' @ as_str t) (version_string lib v @ ''-'' @ as_str t) = Some (version_string lib v)"
    by (simp only: strip_suffix_append)
  ultimately show ?thesis
    using semver_okD(1) [OF assms, of v]
    by (simp add: canonical_version_from_archive_name_def del: append.simps append_assoc strip_suffix_Some strip_prefix_Some)
qed

lemma target_from_archive_name:
  assumes "semver_ok lib" and "a_archive a = archive_name lib t app v"
  shows "target_from_asset lib app a = Inr t"
proof -
  let ?P = "\<lambda>u. a_archive a = archive_name lib u app (canonical_version_from_archive_name lib app (a_archive a) u)"
  have "?P t" using assms by (simp add: version_from_archive_name)
  moreover have unique: "u = t" if "?P u" for u
    using archive_name_inject [OF assms(1), of u] assms(2) that by metis
  ultimately have "find ?P all_targets \<noteq> None"
    unfolding find_None_iff using all_targets_complete [of t] by blast
  then obtain u where u: "find ?P all_targets = Some u" by blast
  from find_Some [OF this] unique have "u = t" by blast
  with u have "find ?P all_targets = Some t" by simp
  then show ?thesis by (simp add: target_from_asset_def)
qed

lemma version_from_asset:
  assumes "semver_ok lib" and "CHR ''/'' \<notin> set (app_name app)"
    and "p_path (a_payload a) = payload_path lib t app v"
  shows "canonical_version_from_asset lib app a t = v"
proof -
  have "CHR ''/'' \<notin> set (target_root_name lib t app v)"
    using assms(2) semver_okD(3) [OF assms(1)] as_str_chars [of "CHR ''/''" t] by (force simp: target_root_name_def root_name_def)
  then have "hd (split_on (CHR ''/'') (p_path (a_payload a))) = target_root_name lib t app v"
    by (simp add: assms(3) payload_path_def split_on_append)
  moreover have "target_root_name lib t app v = archive_prefix app @ version_string lib v @ ''-'' @ as_str t"
    by (simp add: target_root_name_def root_name_def archive_prefix_def)
  moreover have "strip_suffix (''-'' @ as_str t) (version_string lib v @ ''-'' @ as_str t) = Some (version_string lib v)"
    by (simp only: strip_suffix_append)
  ultimately show ?thesis
    using semver_okD(1) [OF assms(1), of v]
    by (simp add: canonical_version_from_asset_def del: append.simps append_assoc strip_suffix_Some strip_prefix_Some)
qed

end
