(* ===== verification/Tool_Arguments.thy ===== *)
theory Tool_Arguments
  imports Archive
begin

text \<open>
  The command line of the release tool (\<^verbatim>\<open>src/src/bin/relswap.rs\<close>): the parser of its arguments, the
  accessors of parsed options, the checks of option names, and the pure validators of the values.
  The tool's errors are strings; the fixed part of each message is kept. A \<open>BTreeMap\<close> is its list of
  entries in key order, a \<open>BTreeSet\<close> of flags a set. Texts are compared bytewise, as Rust does.
\<close>

type_synonym 'a checked = "string + 'a"

subsection \<open>Maps in key order\<close>

fun btree_insert :: "'k::linorder \<Rightarrow> 'a \<Rightarrow> ('k \<times> 'a) list \<Rightarrow> ('k \<times> 'a) list" where
  "btree_insert k x [] = [(k, x)]"
| "btree_insert k x ((l, y) # m) =
     (if k < l then (k, x) # (l, y) # m else if k = l then (k, x) # m else (l, y) # btree_insert k x m)"

lemma map_of_btree_insert [simp]: "map_of (btree_insert k x m) = (map_of m)(k \<mapsto> x)"
  by (induction k x m rule: btree_insert.induct) (auto simp: fun_eq_iff)

lemma keys_btree_insert [simp]: "fst ` set (btree_insert k x m) = insert k (fst ` set m)"
  by (induction k x m rule: btree_insert.induct) auto

lemma set_btree_insert: "set (btree_insert k x m) \<subseteq> insert (k, x) (set m)"
  by (induction k x m rule: btree_insert.induct) auto

lemma sorted_btree_insert:
  assumes "sorted_wrt (<) (map fst m)"
  shows "sorted_wrt (<) (map fst (btree_insert k x m))"
  using assms
proof (induction k x m rule: btree_insert.induct)
  case (2 k x l y m)
  have "set (map fst (btree_insert k x m)) = insert k (set (map fst m))" by simp
  with 2 show ?case by (auto simp del: set_map)
qed simp

subsection \<open>Parsed arguments\<close>

record arguments =
  ar_command :: "string option"
  ar_values :: "(string \<times> string list) list"
  ar_flags :: "string set"
  ar_positionals :: "string list"

definition arguments_default :: arguments where
  "arguments_default = \<lparr>ar_command = None, ar_values = [], ar_flags = {}, ar_positionals = []\<rparr>"

definition boolean_flags :: "string list" where
  "boolean_flags = [''append'', ''help'']"

definition push_value :: "string \<Rightarrow> string \<Rightarrow> arguments \<Rightarrow> arguments" where
  "push_value name x a = a\<lparr>ar_values := btree_insert name
     ((case map_of (ar_values a) name of None \<Rightarrow> [] | Some xs \<Rightarrow> xs) @ [x]) (ar_values a)\<rparr>"

definition push_flag :: "string \<Rightarrow> arguments \<Rightarrow> arguments" where
  "push_flag name a = a\<lparr>ar_flags := insert name (ar_flags a)\<rparr>"

definition push_positional :: "string \<Rightarrow> arguments \<Rightarrow> arguments" where
  "push_positional x a = a\<lparr>ar_positionals := ar_positionals a @ [x]\<rparr>"

text \<open>\<open>str::split_once\<close>.\<close>

definition split_once :: "char \<Rightarrow> string \<Rightarrow> (string \<times> string) option" where
  "split_once c s = map_option (\<lambda>i. (take i s, drop (i + 1) s)) (position (\<lambda>x. x = c) s)"

text \<open>
  The loop of \<open>Arguments::parse\<close> with its variable \<open>after_separator\<close>. A value given in the next
  argument is taken from the iterator, so the loop goes on after it.
\<close>

fun parse_loop :: "bool \<Rightarrow> arguments \<Rightarrow> string list \<Rightarrow> arguments checked" where
  "parse_loop sep a [] = Inr a"
| "parse_loop sep a (x # input) =
     (if sep \<or> \<not> prefix ''-'' x \<or> x = ''-'' then parse_loop sep (push_positional x a) input
      else if x = ''--'' then parse_loop True a input
      else (case strip_prefix ''--'' x of
          None \<Rightarrow> Inl ''unsupported argument; use long options''
        | Some raw \<Rightarrow>
            let (name, inline) = (case split_once (CHR ''='') raw of
                  None \<Rightarrow> (raw, None) | Some (n, v) \<Rightarrow> (n, Some v)) in
            if name = [] then Inl ''empty option name''
            else if name \<in> set boolean_flags then
              (if inline \<noteq> None then Inl ''option does not take a value''
               else parse_loop sep (push_flag name a) input)
            else (case inline of
                Some v \<Rightarrow>
                  if v = [] then Inl ''option requires a non-empty value''
                  else if prefix ''-'' v \<and> name \<noteq> ''private-key'' then Inl ''option requires a value, got another option''
                  else parse_loop sep (push_value name v a) input
              | None \<Rightarrow>
                  (case input of
                     [] \<Rightarrow> Inl ''option requires a value''
                   | v # rest \<Rightarrow>
                       if prefix ''-'' v \<and> name \<noteq> ''private-key'' then Inl ''option requires a value, got another option''
                       else parse_loop sep (push_value name v a) rest))))"

fun parse_arguments :: "string list \<Rightarrow> arguments checked" where
  "parse_arguments [] = Inr arguments_default"
| "parse_arguments (command # input) =
     (if command = ''--help'' \<or> command = ''-h'' then Inr (push_flag ''help'' arguments_default)
      else parse_loop False (arguments_default\<lparr>ar_command := Some command\<rparr>) input)"

definition args_flag :: "arguments \<Rightarrow> string \<Rightarrow> bool" where
  "args_flag a name \<longleftrightarrow> name \<in> ar_flags a"

definition args_one :: "arguments \<Rightarrow> string \<Rightarrow> string checked" where
  "args_one a name =
     bindE (ok_orE (map_of (ar_values a) name) ''option is required'') (\<lambda>xs.
     bindE (ensureE (length xs = 1) ''option must be supplied exactly once'') (\<lambda>_. Inr (hd xs)))"

definition args_optional_one :: "arguments \<Rightarrow> string \<Rightarrow> string option checked" where
  "args_optional_one a name = (case map_of (ar_values a) name of
       None \<Rightarrow> Inr None
     | Some xs \<Rightarrow> bindE (ensureE (length xs = 1) ''option must be supplied at most once'') (\<lambda>_. Inr (Some (hd xs))))"

definition args_many :: "arguments \<Rightarrow> string \<Rightarrow> string list" where
  "args_many a name = (case map_of (ar_values a) name of None \<Rightarrow> [] | Some xs \<Rightarrow> xs)"

definition ensure_options :: "arguments \<Rightarrow> string list \<Rightarrow> string list \<Rightarrow> unit checked" where
  "ensure_options a names flags =
     bindE (forE (map fst (ar_values a)) (\<lambda>n. ensureE (n \<in> set names) ''unknown option'')) (\<lambda>_.
     ensureE (\<forall>n \<in> ar_flags a. n \<noteq> ''help'' \<longrightarrow> n \<in> set flags) ''unknown flag'')"

subsection \<open>The product the tool works on\<close>

definition EMPTY_TRUST_ANCHOR :: bytes where
  "EMPTY_TRUST_ANCHOR = [CHR 0x7B, CHR 0x22] @ ''schema_version'' @ [CHR 0x22] @ '':1,'' @ [CHR 0x22] @ ''keys''
     @ [CHR 0x22] @ '':[]'' @ [CHR 0x7D]"

definition PUBLIC_KEY_ALGORITHM :: string where
  "PUBLIC_KEY_ALGORITHM = ''ed25519''"

definition app_from_args :: "arguments \<Rightarrow> app checked" where
  "app_from_args a =
     bindE (args_one a ''name'') (\<lambda>name.
     bindE (args_optional_one a ''launcher-name'') (\<lambda>l.
     let launcher = (case l of Some s \<Rightarrow> s | None \<Rightarrow> name @ ''-launcher.exe'') in
     Inr \<lparr>app_name = name, app_version = ''0.0.0'', app_repository_url = ''https://example.invalid/'',
          app_trust_anchor = EMPTY_TRUST_ANCHOR, app_activation = WindowsLauncher launcher 1,
          app_self_test = None\<rparr>))"

subsection \<open>Validators\<close>

definition is_ascii_alphanumeric :: "char \<Rightarrow> bool" where
  "is_ascii_alphanumeric c \<longleftrightarrow> is_ascii_digit c \<or> is_ascii_alphabetic c"

definition validate_key_id :: "string \<Rightarrow> unit checked" where
  "validate_key_id i = ensureE
     (i \<noteq> [] \<and> length i \<le> 64 \<and> is_ascii_alphanumeric (hd i) \<and> \<not> sublist ''..'' i
      \<and> list_all (\<lambda>c. is_ascii_alphanumeric c \<or> c \<in> set ''-_.'') i)
     ''invalid key id''"

definition is_lower_hex :: "string \<Rightarrow> nat \<Rightarrow> bool" where
  "is_lower_hex s n \<longleftrightarrow> length s = n \<and> list_all is_lower_hex_digit s"

definition tool_from_str :: "string \<Rightarrow> target checked" where
  "tool_from_str s = ok_orE (target_from_str s) ''unsupported release target''"

definition validate_target :: "string \<Rightarrow> unit checked" where
  "validate_target s = bindE (tool_from_str s) (\<lambda>_. Inr ())"

definition target_is_windows :: "string \<Rightarrow> bool" where
  "target_is_windows s = (case target_from_str s of None \<Rightarrow> False | Some t \<Rightarrow> is_windows t)"

definition trim_end_slashes :: "string \<Rightarrow> string" where
  "trim_end_slashes s = rev (dropWhile (\<lambda>c. c = CHR ''/'') (rev s))"

text \<open>The components of a Unix path: empty pieces vanish, and \<open>.\<close> unless it comes first.\<close>

definition path_of :: "string \<Rightarrow> path" where
  "path_of s =
     (let parts = split_on (CHR ''/'') s in
      (if prefix ''/'' s then [RootDir] else if hd parts = ''.'' then [CurDir] else [])
      @ concat (map (\<lambda>c. if c = [] \<or> c = ''.'' then [] else if c = ''..'' then [ParentDir] else [Normal c]) parts))"

text \<open>\<open>str::trim\<close> and \<open>str::split_whitespace\<close> on the UTF-8 encoding, by the encodings of white space.\<close>

definition leading_space :: "string \<Rightarrow> nat option" where
  "leading_space s = map_option length (find (\<lambda>w. w \<noteq> [] \<and> prefix w s) white_space)"

lemma leading_space_bound: "leading_space s = Some n \<Longrightarrow> 0 < n \<and> n \<le> length s"
  by (auto simp: leading_space_def prefix_def dest!: find_Some)

function trim_start :: "string \<Rightarrow> string" where
  "trim_start s = (case leading_space s of None \<Rightarrow> s | Some n \<Rightarrow> trim_start (drop n s))"
  by pat_completeness auto
termination
  by (relation "measure length") (auto dest: leading_space_bound)

function trim_end :: "string \<Rightarrow> string" where
  "trim_end s = (case find (\<lambda>w. w \<noteq> [] \<and> suffix w s) white_space of
       None \<Rightarrow> s | Some w \<Rightarrow> trim_end (take (length s - length w) s))"
  by pat_completeness auto
termination
  by (relation "measure length") (auto simp: suffix_def dest!: find_Some)

declare trim_start.simps [simp del] trim_end.simps [simp del]

definition trim :: "string \<Rightarrow> string" where
  "trim s = trim_end (trim_start s)"

definition has_space :: "string \<Rightarrow> bool" where
  "has_space s \<longleftrightarrow> list_ex (\<lambda>w. sublist w s) white_space"

function split_whitespace_from :: "string \<Rightarrow> string \<Rightarrow> string list" where
  "split_whitespace_from word s =
     (case leading_space s of
        Some n \<Rightarrow> (if word = [] then [] else [word]) @ split_whitespace_from [] (drop n s)
      | None \<Rightarrow> (case s of [] \<Rightarrow> if word = [] then [] else [word]
          | c # r \<Rightarrow> split_whitespace_from (word @ [c]) r))"
  by pat_completeness auto
termination
  by (relation "measure (\<lambda>(_, s). length s)") (auto dest: leading_space_bound)

declare split_whitespace_from.simps [simp del]

definition split_whitespace :: "string \<Rightarrow> string list" where
  "split_whitespace s = split_whitespace_from [] s"

subsection \<open>Archive names and members\<close>

definition is_archive_name :: "app \<Rightarrow> path \<Rightarrow> bool" where
  "is_archive_name app p = (case file_name p of None \<Rightarrow> False
     | Some name \<Rightarrow> from_utf8 name \<noteq> None \<and> prefix (archive_prefix app) name
         \<and> (suffix ''.tar.gz'' name \<or> suffix ''.zip'' name))"

definition validate_member :: "string \<Rightarrow> string \<Rightarrow> unit checked" where
  "validate_member member root =
     (let normalized = trim_end_slashes member in
      bindE (ensureE (CHR 0x5C \<notin> set member \<and> \<not> prefix ''/'' normalized \<and> \<not> prefix ''../'' normalized)
               ''unsafe archive member'') (\<lambda>_.
      bindE (ensureE (\<not> list_ex (\<lambda>c. c = ParentDir \<or> c = CurDir \<or> c = RootDir) (path_of normalized))
               ''unsafe archive member'') (\<lambda>_.
      ensureE (normalized = root \<or> prefix (root @ ''/'') normalized) ''archive member escapes root'')))"

end
