(* ===== verification/Tool.thy ===== *)
theory Tool
  imports Tool_Arguments
begin

text \<open>
  The release tool (\<^verbatim>\<open>src/src/bin/relswap.rs\<close>) in its Unix build: key generation, the inspection of
  finished archives, manifest generation, signing, verification of a release directory, the check of
  a trust document, and the dispatch of commands. What it prints is not modelled. Archives are
  iterated by the crates \<^verbatim>\<open>tar\<close> and \<^verbatim>\<open>zip\<close>; their entries, the environment variable with the private
  key, the pretty JSON of a key document and the printing of an instant are fields of \<open>tlib\<close>. A
  relative path is resolved against the working directory and a \<^verbatim>\<open>..\<close> component lexically, as the model's
  files have real directories above them only.
\<close>

record tool_tar_entry =
  te_path :: "bytes option"
  te_type :: tar_type
  te_mode :: "u32 option"
  te_reader :: reader

record 'v tlib = "'v alib" +
  t_host :: host
  private_key_var :: "string option"
  json_of_key_set :: "trusted_key_set \<Rightarrow> bytes"
  utc_rfc3339 :: "int \<Rightarrow> string"
  tar_entries :: "reader \<Rightarrow> tool_tar_entry option list option"
  zip_name :: "zip_entry \<Rightarrow> string option"

type_synonym 'a tool = "(world, string, 'a) comp"

definition toolIO :: "string \<Rightarrow> 'a io \<Rightarrow> 'a tool" where
  "toolIO message m = map_errM (\<lambda>_. message) m"

text \<open>A release error becomes its text; the kind of error is not kept.\<close>

definition toolR :: "string \<Rightarrow> release_error + 'a \<Rightarrow> 'a tool" where
  "toolR message r = liftE (case r of Inl e \<Rightarrow> Inl message | Inr x \<Rightarrow> Inr x)"

subsection \<open>Files by name\<close>

text \<open>The operating system knows no file with an empty name.\<close>

definition os_path :: "host \<Rightarrow> path \<Rightarrow> path" where
  "os_path h p = (if p = [] then [] else absolute_normalized h p)"

definition path_exists :: "host \<Rightarrow> path \<Rightarrow> bool tool" where
  "path_exists h p = bindM (tryM (open_existing (os_path h p))) (\<lambda>r :: io_kind + node. returnM (is_ok r))"

definition path_is :: "(node \<Rightarrow> bool) \<Rightarrow> host \<Rightarrow> path \<Rightarrow> bool tool" where
  "path_is kind h p = bindM (tryM (open_existing (os_path h p))) (\<lambda>r :: io_kind + node.
     returnM (case r of Inl _ \<Rightarrow> False | Inr n \<Rightarrow> kind n))"

definition read_path :: "host \<Rightarrow> path \<Rightarrow> bytes tool" where
  "read_path h p = toolIO ''read'' (fs_read (os_path h p))"

text \<open>\<open>fs::write\<close>: the file is created or emptied, following symlinks, and then written.\<close>

definition open_truncate :: "host \<Rightarrow> path \<Rightarrow> path io" where
  "open_truncate h p = io (\<lambda>w. case follow 40 w p of
       None \<Rightarrow> (Inl OtherIo, w)
     | Some q \<Rightarrow> (case lookup w q of
         None \<Rightarrow> if parent_is_dir w q then (Inr q, put q (RegularFile (new_attr h 0x1B6) []) w) else (Inl NotFound, w)
       | Some (RegularFile a _) \<Rightarrow> (Inr q, put q (RegularFile a []) w)
       | Some _ \<Rightarrow> (Inl OtherIo, w)))"

definition fs_write :: "host \<Rightarrow> path \<Rightarrow> bytes \<Rightarrow> unit io" where
  "fs_write h p b = bindM (open_truncate h p) (\<lambda>q. write_all q b)"

definition write_path :: "host \<Rightarrow> path \<Rightarrow> bytes \<Rightarrow> unit tool" where
  "write_path h p b = toolIO ''write'' (fs_write h (os_path h p) b)"

text \<open>The entries \<open>read_dir\<close> names are the directory's path, as given, with a name added.\<close>

definition list_directory :: "host \<Rightarrow> path \<Rightarrow> path list tool" where
  "list_directory h p = bindM (toolIO ''read artifacts directory'' (fs_read_dir (os_path h p)))
     (\<lambda>qs. returnM (map (\<lambda>q. p @ [last q]) qs))"

subsection \<open>Key generation\<close>

definition ensure_new_path :: "host \<Rightarrow> path \<Rightarrow> unit tool" where
  "ensure_new_path h p =
     bindM (ensureM (p \<noteq> []) ''path is empty'') (\<lambda>_.
     bindM (path_exists h p) (\<lambda>there. ensureM (\<not> there) ''refusing to overwrite''))"

definition ensure_parent :: "host \<Rightarrow> path \<Rightarrow> unit tool" where
  "ensure_parent h p =
     (let par = (case parent p of Some q \<Rightarrow> if q = [] then [CurDir] else q | None \<Rightarrow> [CurDir]) in
      bindM (path_is is_dir h par) (\<lambda>ok. ensureM ok ''parent directory does not exist''))"

definition node_mode :: "node \<Rightarrow> u32" where
  "node_mode n = (case n of RegularFile a _ \<Rightarrow> at_mode a | Directory a \<Rightarrow> at_mode a
     | Symlink _ \<Rightarrow> 0x1FF | Special a \<Rightarrow> at_mode a)"

definition write_new :: "host \<Rightarrow> path \<Rightarrow> bytes \<Rightarrow> bool \<Rightarrow> unit tool" where
  "write_new h name b is_private =
     (let p = os_path h name in
      bindM (toolIO ''create'' (create_new h p (if is_private then 0x180 else 0x1A4))) (\<lambda>_.
      bindM (toolIO ''write'' (bindM (write_all p b) (\<lambda>_. sync_all))) (\<lambda>_.
      if is_private then
        bindM (toolIO ''stat'' (symlink_metadata p)) (\<lambda>_.
        bindM (toolIO ''protect'' (set_permissions p 0x180)) (\<lambda>_.
        bindM (toolIO ''stat'' (open_existing p)) (\<lambda>n.
        ensureM (node_mode n AND 0x3F = 0) ''private key is not mode 0600'')))
      else returnM ())))"

definition key_document :: "('v, 'z) slib_scheme \<Rightarrow> string \<Rightarrow> bytes \<Rightarrow> trusted_key_set" where
  "key_document lib i secret = \<lparr>ks_schema_version = SIGNATURE_SCHEMA_VERSION,
     ks_keys = [trusted_key_ed25519 lib i (public_of lib secret)]\<rparr>"

text \<open>Both files are new; when the public one cannot be written the private one is removed again.\<close>

definition write_key_pair :: "host \<Rightarrow> path \<Rightarrow> bytes \<Rightarrow> path \<Rightarrow> bytes \<Rightarrow> unit tool" where
  "write_key_pair h private_path private_text public_path public_text =
     bindM (write_new h private_path private_text True) (\<lambda>_.
     bindM (tryM (write_new h public_path public_text False)) (\<lambda>r. case r of
       Inr _ \<Rightarrow> returnM ()
     | Inl err \<Rightarrow>
         bindM (tryM (remove_file (os_path h private_path))) (\<lambda>_ :: io_kind + unit. throwM err)))"

definition generate_key :: "('v, 'z) tlib_scheme \<Rightarrow> arguments \<Rightarrow> unit tool" where
  "generate_key e a =
     bindM (liftE (args_one a ''id'')) (\<lambda>i.
     bindM (liftE (args_one a ''private-key'')) (\<lambda>private_arg.
     bindM (liftE (args_one a ''public-key'')) (\<lambda>public_arg.
     let h = t_host e; private_path = path_of private_arg; public_path = path_of public_arg in
     bindM (liftE (validate_key_id i)) (\<lambda>_.
     bindM (ensureM (private_path \<noteq> public_path) ''--private-key and --public-key must be different paths'') (\<lambda>_.
     bindM (ensure_new_path h private_path) (\<lambda>_.
     bindM (ensure_new_path h public_path) (\<lambda>_.
     bindM (ensure_parent h private_path) (\<lambda>_.
     bindM (ensure_parent h public_path) (\<lambda>_.
     bindM (toolIO ''OS randomness failed'' fill_random) (\<lambda>secret.
     write_key_pair h private_path (base64_encode e secret @ [CHR 0x0A])
       public_path (json_of_key_set e (key_document e i secret) @ [CHR 0x0A])))))))))))"

subsection \<open>Inspection of a finished archive\<close>

record digest_info =
  di_size :: u64
  di_sha256 :: string

record archive_contents =
  ac_payload :: digest_info
  ac_launcher :: "digest_info option"

record artifact_probe =
  ap_target :: string
  ap_size :: u64
  ap_sha256 :: string
  ap_payload :: digest_info
  ap_launcher :: "digest_info option"

function hash_loop :: "('v, 'z) lib_scheme \<Rightarrow> bytes \<Rightarrow> u64 \<Rightarrow> reader \<Rightarrow> digest_info checked" where
  "hash_loop lib fed n r =
     (case read BUFFER r of
        (Inl e, r') \<Rightarrow> Inl ''read archive payload''
      | (Inr chunk, r') \<Rightarrow>
          if chunk = [] then Inr \<lparr>di_size = n, di_sha256 = sha256_hex lib fed\<rparr>
          else (case u64_checked_add n (of_nat (length chunk)) of
              None \<Rightarrow> Inl ''archive member is too large''
            | Some n' \<Rightarrow> hash_loop lib (fed @ chunk) n' r'))"
  by pat_completeness auto
termination
  by (relation "measure (\<lambda>(_, _, _, r). length (r_data r))") auto

declare hash_loop.simps [simp del]

definition hash_reader :: "('v, 'z) lib_scheme \<Rightarrow> reader \<Rightarrow> digest_info checked" where
  "hash_reader lib r = hash_loop lib [] 0 r"

text \<open>No other process changes the files, so a handle's metadata are those its path leads to.\<close>

definition hash_file :: "('v, 'z) tlib_scheme \<Rightarrow> path \<Rightarrow> digest_info tool" where
  "hash_file e p =
     (let q = os_path (t_host e) p in
      bindM (toolIO ''open'' (open_existing q)) (\<lambda>_.
      bindM (toolIO ''stat'' (open_existing q)) (\<lambda>n.
      bindM (ensureM (is_file n) ''not a regular file'') (\<lambda>_.
      bindM (toolIO ''hash'' (sha256_file e (t_host e) p)) (\<lambda>digest.
      bindM (toolIO ''stat'' (open_existing q)) (\<lambda>after.
      bindM (ensureM (node_len after = node_len n) ''changed while hashing'') (\<lambda>_.
      returnM \<lparr>di_size = of_nat (node_len n), di_sha256 = digest\<rparr>)))))))"

text \<open>The variables of the member loops.\<close>

record probe_state =
  pb_paths :: "string set"
  pb_root_seen :: bool
  pb_payload :: "digest_info option"
  pb_launcher :: "digest_info option"

definition probe_start :: probe_state where
  "probe_start = \<lparr>pb_paths = {}, pb_root_seen = False, pb_payload = None, pb_launcher = None\<rparr>"

definition probe_member :: "string \<Rightarrow> string \<Rightarrow> probe_state \<Rightarrow> probe_state checked" where
  "probe_member root member st =
     bindE (validate_member member root) (\<lambda>_.
     bindE (ensureE (member \<notin> pb_paths st) ''archive contains duplicate member'') (\<lambda>_.
     Inr (st\<lparr>pb_paths := insert member (pb_paths st)\<rparr>)))"

definition tool_tar_step ::
  "('v, 'z) lib_scheme \<Rightarrow> string \<Rightarrow> string \<Rightarrow> string \<Rightarrow> probe_state \<Rightarrow> tool_tar_entry option \<Rightarrow> probe_state checked" where
  "tool_tar_step lib root payload launcher st entry =
     bindE (ok_orE entry ''read tar entry'') (\<lambda>t.
     bindE (ok_orE (te_path t) ''read tar member'') (\<lambda>raw.
     bindE (ok_orE (from_utf8 raw) ''tar member name is not UTF-8'') (\<lambda>member.
     bindE (probe_member root member st) (\<lambda>st.
     bindE (ensureE (te_type t \<noteq> TarSymlink \<and> te_type t \<noteq> TarLink) ''archive contains link member'') (\<lambda>_.
     let st = (if trim_end_slashes member = root then st\<lparr>pb_root_seen := True\<rparr> else st);
         executable = ((case te_mode t of Some m \<Rightarrow> m | None \<Rightarrow> 0) AND 0x49 \<noteq> 0) in
     if te_type t = TarRegular then
       bindE (hash_reader lib (te_reader t)) (\<lambda>digest.
       if member = payload then
         bindE (ensureE executable ''payload is not executable'') (\<lambda>_. Inr (st\<lparr>pb_payload := Some digest\<rparr>))
       else if member = launcher then
         bindE (ensureE executable ''launcher is not executable'') (\<lambda>_. Inr (st\<lparr>pb_launcher := Some digest\<rparr>))
       else Inr st)
     else Inr st)))))"

definition tool_zip_step ::
  "('v, 'z) tlib_scheme \<Rightarrow> string \<Rightarrow> string \<Rightarrow> string \<Rightarrow> probe_state \<Rightarrow> zip_entry option \<Rightarrow> probe_state checked" where
  "tool_zip_step e root payload launcher st entry =
     bindE (ok_orE entry ''read zip entry'') (\<lambda>z.
     bindE (ok_orE (zip_name e z) ''read zip entry name'') (\<lambda>member.
     bindE (ensureE (CHR 0x5C \<notin> set member) ''unsafe archive member'') (\<lambda>_.
     bindE (probe_member root member st) (\<lambda>st.
     if z_dir z then Inr (if trim_end_slashes member = root then st\<lparr>pb_root_seen := True\<rparr> else st)
     else
       bindE (ensureE (member \<noteq> root) ''archive root is not a directory'') (\<lambda>_.
       bindE (ensureE (case z_unix_mode z of None \<Rightarrow> True | Some mode \<Rightarrow> mode AND 0xF000 \<noteq> 0xA000)
                ''archive contains symlink member'') (\<lambda>_.
       bindE (hash_reader e (z_reader z)) (\<lambda>digest.
       Inr (if member = payload then st\<lparr>pb_payload := Some digest\<rparr>
            else if member = launcher then st\<lparr>pb_launcher := Some digest\<rparr> else st))))))))"

fun probe_loop :: "(probe_state \<Rightarrow> 'm \<Rightarrow> probe_state checked) \<Rightarrow> probe_state \<Rightarrow> 'm list \<Rightarrow> probe_state checked" where
  "probe_loop step st [] = Inr st"
| "probe_loop step st (m # ms) = bindE (step st m) (\<lambda>st. probe_loop step st ms)"

definition finish_probe :: "probe_state \<Rightarrow> archive_contents checked" where
  "finish_probe st =
     bindE (ensureE (pb_root_seen st) ''archive has no root directory'') (\<lambda>_.
     bindE (ok_orE (pb_payload st) ''archive lacks payload'') (\<lambda>payload.
     Inr \<lparr>ac_payload = payload, ac_launcher = pb_launcher st\<rparr>))"

definition tool_inspect_tar :: "('v, 'z) tlib_scheme \<Rightarrow> path \<Rightarrow> string \<Rightarrow> string \<Rightarrow> string \<Rightarrow> archive_contents tool" where
  "tool_inspect_tar e p root payload launcher =
     bindM (toolIO ''open'' (fs_read (os_path (t_host e) p))) (\<lambda>content.
     bindM (liftE (ok_orE (tar_entries e (gz_decode e content)) ''read tar'')) (\<lambda>entries.
     bindM (liftE (probe_loop (tool_tar_step e root payload launcher) probe_start entries)) (\<lambda>st.
     liftE (finish_probe st))))"

definition tool_inspect_zip :: "('v, 'z) tlib_scheme \<Rightarrow> path \<Rightarrow> string \<Rightarrow> string \<Rightarrow> string \<Rightarrow> archive_contents tool" where
  "tool_inspect_zip e p root payload launcher =
     bindM (toolIO ''open'' (fs_read (os_path (t_host e) p))) (\<lambda>content.
     bindM (liftE (ok_orE (zip_open e content) ''read zip'')) (\<lambda>entries.
     bindM (liftE (probe_loop (tool_zip_step e root payload launcher) probe_start entries)) (\<lambda>st.
     liftE (finish_probe st))))"

definition tool_inspect_archive :: "('v, 'z) tlib_scheme \<Rightarrow> app \<Rightarrow> path \<Rightarrow> string \<Rightarrow> artifact_probe tool" where
  "tool_inspect_archive e app p version =
     bindM (liftE (ok_orE (Option.bind (file_name p) from_utf8) ''archive path is not valid UTF-8'')) (\<lambda>name.
     bindM (ensureM (is_archive_name app p) ''non-canonical archive name'') (\<lambda>_.
     let ending = (if suffix ''.zip'' name then ''.zip'' else ''.tar.gz'') in
     bindM (liftE (ok_orE (Option.bind (strip_suffix ending name) (strip_prefix (archive_prefix app @ version @ ''-'')))
              ''archive does not match version'')) (\<lambda>t.
     bindM (liftE (validate_target t)) (\<lambda>_.
     let windows = target_is_windows t in
     bindM (ensureM (windows = (ending = ''.zip'')) ''archive has the wrong format for its target'') (\<lambda>_.
     let root = (case strip_suffix ending name of Some s \<Rightarrow> s | None \<Rightarrow> name) in
     bindM (hash_file e p) (\<lambda>archive.
     bindM (liftE (ok_orE (launcher_name app) ''app does not configure a Windows launcher'')) (\<lambda>l.
     let payload = root @ ''/'' @ payload_name app windows; launcher = root @ ''/'' @ l in
     bindM (if windows then tool_inspect_zip e p root payload launcher
            else tool_inspect_tar e p root payload launcher) (\<lambda>contents.
     bindM (ensureM (\<not> (windows \<and> ac_launcher contents = None)) ''Windows archive lacks its launcher'') (\<lambda>_.
     bindM (ensureM (\<not> (\<not> windows \<and> ac_launcher contents \<noteq> None)) ''non-Windows archive contains a launcher'') (\<lambda>_.
     returnM \<lparr>ap_target = t, ap_size = di_size archive, ap_sha256 = di_sha256 archive,
       ap_payload = ac_payload contents, ap_launcher = ac_launcher contents\<rparr>))))))))))"

end
