(* ===== verification/Tool_Commands.thy ===== *)
theory Tool_Commands
  imports Tool
begin

text \<open>
  The commands of the release tool that work on a whole release: manifest generation, signing,
  verification, the check of a trust document, and the dispatch in \<open>run\<close>.
\<close>

subsection \<open>The order of paths\<close>

text \<open>\<open>Ord for Path\<close> compares the components, and those by their kind first.\<close>

fun component_rank :: "component \<Rightarrow> nat \<times> string" where
  "component_rank (Prefix s) = (0, s)"
| "component_rank RootDir = (1, [])"
| "component_rank CurDir = (2, [])"
| "component_rank ParentDir = (3, [])"
| "component_rank (Normal s) = (4, s)"

lemma component_rank_inject [simp]: "component_rank c = component_rank d \<longleftrightarrow> c = d"
  by (cases c; cases d) simp_all

instantiation component :: linorder
begin

definition less_component :: "component \<Rightarrow> component \<Rightarrow> bool" where
  "less_component c d \<longleftrightarrow> fst (component_rank c) < fst (component_rank d)
     \<or> fst (component_rank c) = fst (component_rank d) \<and> snd (component_rank c) < snd (component_rank d)"

definition less_eq_component :: "component \<Rightarrow> component \<Rightarrow> bool" where
  "less_eq_component c d \<longleftrightarrow> c = d \<or> c < d"

instance
proof
  fix c d :: component
  have "c = d" if "fst (component_rank c) = fst (component_rank d)" "snd (component_rank c) = snd (component_rank d)"
    using that by (metis component_rank_inject prod_eqI)
  then show "c \<le> d \<or> d \<le> c"
    unfolding less_eq_component_def less_component_def by (metis linorder_less_linear)
qed (auto simp: less_eq_component_def less_component_def)

end

subsection \<open>Manifest generation\<close>

fun artifact_paths :: "host \<Rightarrow> app \<Rightarrow> path list \<Rightarrow> path list tool" where
  "artifact_paths h app [] = returnM []"
| "artifact_paths h app (p # ps) =
     bindM (toolIO ''read artifact entry'' dir_entry) (\<lambda>_.
     bindM (path_is is_file h p) (\<lambda>file.
     bindM (artifact_paths h app ps) (\<lambda>rest.
     returnM (if file \<and> is_archive_name app p then p # rest else rest))))"

definition collect_archives :: "('v, 'z) tlib_scheme \<Rightarrow> arguments \<Rightarrow> app \<Rightarrow> path list tool" where
  "collect_archives e a app =
     bindM (liftE (args_optional_one a ''artifacts-dir'')) (\<lambda>directory.
     bindM (case directory of
              None \<Rightarrow> returnM []
            | Some d \<Rightarrow> bindM (list_directory (t_host e) (path_of d)) (artifact_paths (t_host e) app)) (\<lambda>found.
     let paths = remdups_adj (sort (found @ map path_of (args_many a ''archive'') @ map path_of (ar_positionals a))) in
     bindM (ensureM (paths \<noteq> []) ''no archives supplied; use --artifacts-dir or --archive'') (\<lambda>_.
     returnM paths)))"

definition checksum_path :: "path \<Rightarrow> string \<Rightarrow> path" where
  "checksum_path p name = with_file_name p (name @ ''.sha256'')"

definition write_checksum :: "host \<Rightarrow> path \<Rightarrow> string \<Rightarrow> unit tool" where
  "write_checksum h p digest =
     bindM (liftE (ok_orE (Option.bind (file_name p) from_utf8) ''invalid archive name'')) (\<lambda>name.
     write_path h (checksum_path p name) (digest @ ''  '' @ name @ [CHR 0x0A]))"

text \<open>The asset an archive's probe describes.\<close>

definition probe_asset ::
  "('v, 'z) lib_scheme \<Rightarrow> app \<Rightarrow> 'v \<Rightarrow> target \<Rightarrow> artifact_probe \<Rightarrow> release_asset checked" where
  "probe_asset lib app v t probe =
     (let asset = asset_new lib app v t (ap_size probe) (ap_sha256 probe)
                    (di_size (ap_payload probe)) (di_sha256 (ap_payload probe)) in
      if is_windows t then
        bindE (ok_orE (ap_launcher probe) ''Windows archive lacks launcher metadata'') (\<lambda>l.
        bindE (ok_orE (target_launcher_protocol t app) ''Windows target has no launcher protocol'') (\<lambda>protocol.
        Inr (with_launcher lib asset app v t protocol (di_size l) (di_sha256 l))))
      else Inr asset)"

text \<open>One turn of the loop over the archives.\<close>

definition manifest_step ::
  "('v, 'z) tlib_scheme \<Rightarrow> app \<Rightarrow> string \<Rightarrow> 'v \<Rightarrow> (target \<times> release_asset) list \<Rightarrow> path
   \<Rightarrow> (target \<times> release_asset) list tool" where
  "manifest_step e app version v targets p =
     bindM (tool_inspect_archive e app p version) (\<lambda>probe.
     bindM (liftE (tool_from_str (ap_target probe))) (\<lambda>t.
     bindM (liftE (probe_asset e app v t probe)) (\<lambda>asset.
     bindM (read_path (t_host e) p) (\<lambda>b.
     bindM (toolR ''inspect archive'' (inspect_archive e app b asset)) (\<lambda>_.
     bindM (write_checksum (t_host e) p (ap_sha256 probe)) (\<lambda>_.
     bindM (ensureM (t \<notin> fst ` set targets) ''duplicate release target'') (\<lambda>_.
     returnM (btree_insert t asset targets))))))))"

fun manifest_loop ::
  "('v, 'z) tlib_scheme \<Rightarrow> app \<Rightarrow> string \<Rightarrow> 'v \<Rightarrow> (target \<times> release_asset) list \<Rightarrow> path list
   \<Rightarrow> (target \<times> release_asset) list tool" where
  "manifest_loop e app version v targets [] = returnM targets"
| "manifest_loop e app version v targets (p # ps) =
     bindM (manifest_step e app version v targets p) (\<lambda>targets. manifest_loop e app version v targets ps)"

definition validate_timestamp :: "('v, 'z) tlib_scheme \<Rightarrow> string \<Rightarrow> unit checked" where
  "validate_timestamp e value =
     bindE (ok_orE (parse_rfc3339 e value) ''invalid timestamp'') (\<lambda>parsed.
     ensureE (utc_rfc3339 e parsed = value) ''timestamp must be canonical UTC RFC3339 with second precision'')"

definition validate_published_at :: "('v, 'z) tlib_scheme \<Rightarrow> string \<Rightarrow> unit checked" where
  "validate_published_at e value = validate_timestamp e value"

definition YEAR :: int where
  "YEAR = 365 * 24 * 3600 * 1000000000"

definition generate_manifest :: "('v, 'z) tlib_scheme \<Rightarrow> arguments \<Rightarrow> unit tool" where
  "generate_manifest e a =
     bindM (liftE (app_from_args a)) (\<lambda>app.
     bindM (liftE (args_one a ''version'')) (\<lambda>version.
     bindM (liftE (ok_orE (parse_version e version) ''invalid release version'')) (\<lambda>v.
     bindM (liftE (args_one a ''output'')) (\<lambda>output.
     bindM (collect_archives e a app) (\<lambda>archives.
     bindM (manifest_loop e app version v [] archives) (\<lambda>targets.
     bindM utc_now (\<lambda>published.
     bindM (liftE (args_optional_one a ''expires-at'')) (\<lambda>expires.
     bindM (case expires of
              Some value \<Rightarrow> bindM (liftE (validate_timestamp e value)) (\<lambda>_. returnM value)
            | None \<Rightarrow> returnM (utc_rfc3339 e (published + YEAR))) (\<lambda>expires_at.
     bindM (toolR ''release manifest'' (manifest_new e app v (utc_rfc3339 e published) expires_at targets)) (\<lambda>m.
     bindM (toolR ''release manifest'' (manifest_to_bytes e m app)) (\<lambda>b.
     write_path (t_host e) (path_of output) b)))))))))))"

subsection \<open>Signing\<close>

definition load_private_key :: "('v, 'z) tlib_scheme \<Rightarrow> arguments \<Rightarrow> bytes tool" where
  "load_private_key e a =
     bindM (liftE (args_optional_one a ''private-key'')) (\<lambda>path.
     bindM (case path of
              Some p \<Rightarrow>
                bindM (toolIO ''read private key'' (fs_read (os_path (t_host e) (path_of p)))) (\<lambda>b.
                liftE (ok_orE (from_utf8 b) ''private key is not UTF-8 base64''))
            | None \<Rightarrow> liftE (ok_orE (private_key_var e) ''--private-key or RELSWAP_RELEASE_PRIVATE_KEY is required'')) (\<lambda>text.
     let encoded = trim text in
     bindM (ensureM (encoded \<noteq> [] \<and> \<not> has_space encoded) ''private key must be one base64 value'') (\<lambda>_.
     bindM (liftE (ok_orE (base64_decode e encoded) ''decode private key'')) (\<lambda>secret.
     bindM (ensureM (length secret = 32) ''private key must decode to exactly 32 bytes'') (\<lambda>_.
     returnM secret)))))"

text \<open>The envelope the new signature is added to.\<close>

definition existing_envelope :: "('v, 'z) tlib_scheme \<Rightarrow> arguments \<Rightarrow> path \<Rightarrow> signature_envelope tool" where
  "existing_envelope e a output =
     bindM (if args_flag a ''append'' then path_exists (t_host e) output else returnM False) (\<lambda>append.
     if append then
       bindM (read_path (t_host e) output) (\<lambda>b. toolR ''parse signatures'' (envelope_from_bytes e b))
     else returnM (envelope_new []))"

definition append_signature ::
  "string \<Rightarrow> signature_envelope \<Rightarrow> signature_envelope \<Rightarrow> signature_envelope checked" where
  "append_signature key_id env new =
     bindE (ensureE (\<not> list_ex (\<lambda>s. e_key_id s = key_id) (env_signatures env)) ''signature for key already exists'') (\<lambda>_.
     Inr (env\<lparr>env_signatures := sort_key e_key_id (env_signatures env @ env_signatures new)\<rparr>))"

text \<open>The manifest a command is given, with its bytes, its timestamps in canonical form.\<close>

definition load_manifest :: "('v, 'z) tlib_scheme \<Rightarrow> app \<Rightarrow> path \<Rightarrow> (bytes \<times> 'v release_manifest) tool" where
  "load_manifest e app p =
     bindM (read_path (t_host e) p) (\<lambda>b.
     bindM (toolR ''parse manifest'' (manifest_from_bytes e app b)) (\<lambda>m.
     bindM (liftE (validate_published_at e (m_published_at m))) (\<lambda>_.
     bindM (liftE (validate_timestamp e (m_expires_at m))) (\<lambda>_.
     returnM (b, m)))))"

definition tool_sign_manifest :: "('v, 'z) tlib_scheme \<Rightarrow> arguments \<Rightarrow> unit tool" where
  "tool_sign_manifest e a =
     bindM (liftE (app_from_args a)) (\<lambda>app.
     bindM (liftE (args_one a ''manifest'')) (\<lambda>manifest_arg.
     bindM (liftE (args_one a ''output'')) (\<lambda>output_arg.
     bindM (liftE (args_one a ''key-id'')) (\<lambda>key_id.
     let output = path_of output_arg in
     bindM (liftE (validate_key_id key_id)) (\<lambda>_.
     bindM (load_manifest e app (path_of manifest_arg)) (\<lambda>(b, m).
     bindM (load_private_key e a) (\<lambda>secret.
     bindM (existing_envelope e a output) (\<lambda>env.
     bindM (liftE (append_signature key_id env (sign_manifest_multi e b [(key_id, secret)]))) (\<lambda>env.
     bindM (toolR ''release signatures'' (envelope_to_bytes e env)) (\<lambda>out.
     write_path (t_host e) output out))))))))))"

subsection \<open>Verification\<close>

definition check_trusted_key :: "trusted_key \<Rightarrow> unit checked" where
  "check_trusted_key k =
     bindE (validate_key_id (k_id k)) (\<lambda>_.
     ensureE (k_algorithm k = PUBLIC_KEY_ALGORITHM) ''key uses unsupported algorithm'')"

definition read_keys :: "('v, 'z) tlib_scheme \<Rightarrow> path \<Rightarrow> bool \<Rightarrow> trusted_key_set tool" where
  "read_keys e p require_nonempty =
     bindM (read_path (t_host e) p) (\<lambda>b.
     bindM (toolR ''parse public key document'' (key_set_from_bytes e b)) (\<lambda>document.
     bindM (ensureM (\<not> (require_nonempty \<and> \<not> has_ed25519_key document)) ''public key document contains no trusted keys'') (\<lambda>_.
     bindM (liftE (forE (ks_keys document) check_trusted_key)) (\<lambda>_.
     returnM document))))"

definition trust_check :: "('v, 'z) tlib_scheme \<Rightarrow> arguments \<Rightarrow> unit tool" where
  "trust_check e a =
     bindM (liftE (args_one a ''keys'')) (\<lambda>p.
     bindM (read_keys e (path_of p) True) (\<lambda>_. returnM ()))"

definition verify_checksum_file :: "('v, 'z) tlib_scheme \<Rightarrow> path \<Rightarrow> string \<Rightarrow> unit tool" where
  "verify_checksum_file e archive expected =
     bindM (liftE (ok_orE (Option.bind (file_name archive) from_utf8) ''invalid archive path'')) (\<lambda>name.
     bindM (read_path (t_host e) (checksum_path archive name)) (\<lambda>b.
     bindM (liftE (ok_orE (from_utf8 b) ''read'')) (\<lambda>text.
     let fields = split_whitespace text in
     bindM (ensureM (fields \<noteq> []) ''empty checksum'') (\<lambda>_.
     bindM (ensureM (tl fields \<noteq> []) ''malformed checksum'') (\<lambda>_.
     let actual = fields ! 0; listed = dropWhile (\<lambda>c. c = CHR ''*'') (fields ! 1) in
     bindM (ensureM (length fields = 2 \<and> is_lower_hex actual 64 \<and> listed = name \<and> actual = expected)
              ''checksum does not match'') (\<lambda>_.
     bindM (hash_file e archive) (\<lambda>computed.
     ensureM (di_sha256 computed = expected) ''archive changed after manifest generation'')))))))"

text \<open>The loop over the manifest's targets; it returns the set of listed archives.\<close>

fun verify_listed ::
  "('v, 'z) tlib_scheme \<Rightarrow> app \<Rightarrow> path \<Rightarrow> string set \<Rightarrow> (target \<times> release_asset) list \<Rightarrow> string set tool" where
  "verify_listed e app dir expected [] = returnM expected"
| "verify_listed e app dir expected ((t, a) # rest) =
     bindM (ensureM (a_archive a \<notin> expected) ''manifest repeats archive'') (\<lambda>_.
     let p = join dir (a_archive a) in
     bindM (read_path (t_host e) p) (\<lambda>b.
     bindM (toolR ''verify'' (inspect_archive e app b a)) (\<lambda>_.
     bindM (ensureM (of_nat (length b) = a_archive_size a) ''manifest size does not match final archive'') (\<lambda>_.
     bindM (verify_checksum_file e p (a_archive_sha256 a)) (\<lambda>_.
     verify_listed e app dir (insert (a_archive a) expected) rest)))))"

fun verify_unlisted :: "app \<Rightarrow> string set \<Rightarrow> path list \<Rightarrow> unit tool" where
  "verify_unlisted app expected [] = returnM ()"
| "verify_unlisted app expected (p # ps) =
     bindM (toolIO ''read artifact entry'' dir_entry) (\<lambda>_.
     bindM (if is_archive_name app p then
              bindM (liftE (ok_orE (Option.bind (file_name p) from_utf8) ''invalid artifact path'')) (\<lambda>name.
              ensureM (name \<in> expected) ''unlisted archive in artifacts directory'')
            else returnM ()) (\<lambda>_.
     verify_unlisted app expected ps))"

definition verify_artifacts :: "('v, 'z) tlib_scheme \<Rightarrow> app \<Rightarrow> 'v release_manifest \<Rightarrow> path \<Rightarrow> unit tool" where
  "verify_artifacts e app m dir =
     bindM (path_is is_dir (t_host e) dir) (\<lambda>ok.
     bindM (ensureM ok ''artifacts directory does not exist'') (\<lambda>_.
     bindM (verify_listed e app dir {} (m_targets m)) (\<lambda>expected.
     bindM (list_directory (t_host e) dir) (verify_unlisted app expected))))"

definition verify_release :: "('v, 'z) tlib_scheme \<Rightarrow> arguments \<Rightarrow> unit tool" where
  "verify_release e a =
     bindM (liftE (app_from_args a)) (\<lambda>app.
     bindM (liftE (args_one a ''manifest'')) (\<lambda>manifest_arg.
     bindM (liftE (args_one a ''signatures'')) (\<lambda>signatures_arg.
     bindM (liftE (args_one a ''keys'')) (\<lambda>keys_arg.
     bindM (liftE (args_one a ''artifacts-dir'')) (\<lambda>dir_arg.
     let manifest_path = path_of manifest_arg; signatures_path = path_of signatures_arg in
     bindM (ensureM (file_name manifest_path = Some (metadata_filename app)) ''manifest has the wrong name'') (\<lambda>_.
     bindM (ensureM (file_name signatures_path = Some (signature_filename app)) ''signatures have the wrong name'') (\<lambda>_.
     bindM (load_manifest e app manifest_path) (\<lambda>(b, m).
     bindM (read_path (t_host e) signatures_path) (\<lambda>sigs.
     bindM (toolR ''parse signatures'' (envelope_from_bytes e sigs)) (\<lambda>_.
     bindM (read_keys e (path_of keys_arg) True) (\<lambda>keys.
     bindM (toolR ''verify signatures'' (verify_manifest_with_keys e b sigs (ks_keys keys))) (\<lambda>_.
     bindM utc_now (\<lambda>now.
     bindM (toolR ''expired'' (ensure_not_expired e m now)) (\<lambda>_.
     verify_artifacts e app m (path_of dir_arg)))))))))))))))"

subsection \<open>Commands\<close>

definition no_positionals :: "arguments \<Rightarrow> unit checked" where
  "no_positionals a = ensureE (ar_positionals a = []) ''command does not accept positional arguments''"

definition run_tool :: "('v, 'z) tlib_scheme \<Rightarrow> string list \<Rightarrow> unit tool" where
  "run_tool e input =
     bindM (liftE (parse_arguments input)) (\<lambda>a.
     if args_flag a ''help'' then returnM ()
     else (case ar_command a of
       None \<Rightarrow> returnM ()
     | Some c \<Rightarrow>
         if c = ''keygen'' \<or> c = ''generate-key'' \<or> c = ''rotate'' then
           bindM (liftE (ensure_options a [''id'', ''private-key'', ''public-key''] [])) (\<lambda>_.
           bindM (liftE (no_positionals a)) (\<lambda>_. generate_key e a))
         else if c = ''manifest'' \<or> c = ''generate-manifest'' then
           bindM (liftE (ensure_options a [''name'', ''launcher-name'', ''version'', ''output'', ''artifacts-dir'',
                          ''archive'', ''expires-at''] [])) (\<lambda>_. generate_manifest e a)
         else if c = ''sign'' \<or> c = ''sign-manifest'' then
           bindM (liftE (ensure_options a [''name'', ''launcher-name'', ''manifest'', ''output'', ''key-id'', ''private-key'']
                          [''append''])) (\<lambda>_.
           bindM (liftE (no_positionals a)) (\<lambda>_. tool_sign_manifest e a))
         else if c = ''verify'' \<or> c = ''verify-release'' then
           bindM (liftE (ensure_options a [''name'', ''launcher-name'', ''manifest'', ''signatures'', ''keys'',
                          ''artifacts-dir''] [])) (\<lambda>_.
           bindM (liftE (no_positionals a)) (\<lambda>_. verify_release e a))
         else if c = ''trust-check'' then
           bindM (liftE (ensure_options a [''keys''] [])) (\<lambda>_.
           bindM (liftE (no_positionals a)) (\<lambda>_. trust_check e a))
         else throwM ''unknown command; use --help''))"

end
