(* ===== verification/Download.thy ===== *)
theory Download
  imports Archive
begin

text \<open>
  Release metadata resolution and bounded downloads (\<^verbatim>\<open>src/src/release/download.rs\<close>). URLs and HTTP
  are third-party code: a URL is its serialisation, and the operations of the crates \<^verbatim>\<open>url\<close> and
  \<^verbatim>\<open>ureq\<close> are fields of the record \<open>dlib\<close>. A \<open>Downloader\<close> is a function that may answer the
  n-th request in any way.
\<close>

subsection \<open>Third-party operations\<close>

type_synonym url = string

record download_response =
  dr_requested :: url
  dr_final :: url
  dr_history :: "url list"
  dr_bytes :: bytes

text \<open>A response of the HTTP agent: its URI, the redirects it recorded, the declared length, and
  the body as \<open>read_to_vec\<close> and as a reader, both under a limit.\<close>

record http_response =
  hr_uri :: string
  hr_history :: "string list option"
  hr_length :: "u64 option"
  hr_read_to_vec :: "u64 \<Rightarrow> unit + bytes"
  hr_reader :: "u64 \<Rightarrow> reader"

record 'v dlib = "'v alib" +
  url_parse :: "string \<Rightarrow> url option"
  url_join :: "url \<Rightarrow> string \<Rightarrow> url option"
  url_scheme :: "url \<Rightarrow> string"
  url_path :: "url \<Rightarrow> string"
  url_query :: "url \<Rightarrow> string option"
  url_fragment :: "url \<Rightarrow> string option"
  url_segments :: "url \<Rightarrow> string list option"
  url_set_path :: "string \<Rightarrow> url \<Rightarrow> url"
  url_set_query :: "string option \<Rightarrow> url \<Rightarrow> url"
  url_set_fragment :: "string option \<Rightarrow> url \<Rightarrow> url"
  downloader :: "nat \<Rightarrow> url \<Rightarrow> nat \<Rightarrow> release_error + download_response"
  agent_get :: "nat \<Rightarrow> url \<Rightarrow> http_response option"

definition fetch :: "('v, 'z) dlib_scheme \<Rightarrow> url \<Rightarrow> nat \<Rightarrow> download_response rel" where
  "fetch lib u max_bytes w = (downloader lib (net_pos w) u max_bytes, w\<lparr>net_pos := Suc (net_pos w)\<rparr>)"

definition require_https :: "('v, 'z) dlib_scheme \<Rightarrow> url \<Rightarrow> release_error + unit" where
  "require_https lib u = ensureE (url_scheme lib u = ''https'') (Download ''release downloads require HTTPS'')"

subsection \<open>The production downloader\<close>

definition PROGRESS_CHUNK :: nat where "PROGRESS_CHUNK = 64 * 1024"

definition progress_read_limit :: "nat \<Rightarrow> release_error + u64" where
  "progress_read_limit max_bytes =
     bindE (ok_orE (usize_checked_add max_bytes 1) (Download ''download size limit overflow'')) (\<lambda>n.
     Inr (of_nat n))"

definition read_response_body :: "nat \<Rightarrow> (u64 \<Rightarrow> unit + bytes) \<Rightarrow> release_error + bytes" where
  "read_response_body max_bytes rd =
     bindE (progress_read_limit max_bytes) (\<lambda>limit.
     bindE (case rd limit of Inl _ \<Rightarrow> Inl (Download ''response body'') | Inr b \<Rightarrow> Inr b) (\<lambda>b.
     bindE (ensureE (length b \<le> max_bytes) (Download ''response body exceeds maximum size'')) (\<lambda>_.
     Inr b)))"

text \<open>The observer's calls are the second component: downloaded bytes and the declared total.\<close>

function observed_loop ::
  "u64 option \<Rightarrow> bytes \<Rightarrow> (u64 \<times> u64 option) list \<Rightarrow> reader \<Rightarrow> (release_error + bytes) \<times> (u64 \<times> u64 option) list" where
  "observed_loop len b calls r =
     (case read PROGRESS_CHUNK r of
        (Inl e, r') \<Rightarrow> (Inl (Download ''response body''), calls)
      | (Inr chunk, r') \<Rightarrow>
          if chunk = [] then (Inr b, calls)
          else observed_loop len (b @ chunk) (calls @ [(of_nat (length (b @ chunk)), len)]) r')"
  by pat_completeness auto
termination
  by (relation "measure (\<lambda>(_, _, _, r). length (r_data r))") auto

declare observed_loop.simps [simp del]

definition read_response_body_observed ::
  "nat \<Rightarrow> u64 option \<Rightarrow> (u64 \<Rightarrow> reader) \<Rightarrow> (release_error + bytes) \<times> (u64 \<times> u64 option) list" where
  "read_response_body_observed max_bytes len body =
     (case progress_read_limit max_bytes of
        Inl e \<Rightarrow> (Inl e, [])
      | Inr limit \<Rightarrow>
          (case observed_loop len [] [(0, len)] (body limit) of
             (r, calls) \<Rightarrow>
               (bindE r (\<lambda>b. bindE (ensureE (length b \<le> max_bytes) (Download ''response body exceeds maximum size''))
                  (\<lambda>_. Inr b)), calls)))"

fun parse_urls :: "('v, 'z) dlib_scheme \<Rightarrow> string list \<Rightarrow> release_error + url list" where
  "parse_urls lib [] = Inr []"
| "parse_urls lib (u # us) =
     bindE (ok_orE (url_parse lib u) (Download ''invalid redirect URL'')) (\<lambda>u.
     bindE (parse_urls lib us) (\<lambda>us. Inr (u # us)))"

text \<open>\<open>UreqDownloader::fetch\<close>; \<open>observed\<close> tells whether an observer was configured.\<close>

definition ureq_fetch ::
  "('v, 'z) dlib_scheme \<Rightarrow> bool \<Rightarrow> nat \<Rightarrow> url \<Rightarrow> nat \<Rightarrow> release_error + download_response" where
  "ureq_fetch lib observed n u max_bytes =
     bindE (require_https lib u) (\<lambda>_.
     bindE (ok_orE (agent_get lib n u) (Download ''request failed'')) (\<lambda>response.
     bindE (ok_orE (url_parse lib (hr_uri response)) (Download ''invalid final response URL'')) (\<lambda>final.
     bindE (require_https lib final) (\<lambda>_.
     bindE (parse_urls lib (case hr_history response of Some us \<Rightarrow> us | None \<Rightarrow> [])) (\<lambda>history.
     bindE (if observed then fst (read_response_body_observed max_bytes (hr_length response) (hr_reader response))
            else read_response_body max_bytes (hr_read_to_vec response)) (\<lambda>b.
     Inr \<lparr>dr_requested = u, dr_final = final, dr_history = history, dr_bytes = b\<rparr>))))))"

subsection \<open>Release URLs\<close>

definition repository_base :: "('v, 'z) dlib_scheme \<Rightarrow> url \<Rightarrow> release_error + url" where
  "repository_base lib u =
     bindE (require_https lib u) (\<lambda>_.
     bindE (ensureE (url_query lib u = None \<and> url_fragment lib u = None)
              (Download ''repository URL must not contain a query or fragment'')) (\<lambda>_.
     Inr (if suffix ''/'' (url_path lib u) then u else url_set_path lib (url_path lib u @ ''/'') u)))"

definition latest_metadata_url :: "('v, 'z) dlib_scheme \<Rightarrow> app \<Rightarrow> url \<Rightarrow> release_error + url" where
  "latest_metadata_url lib app u =
     bindE (repository_base lib u) (\<lambda>base.
     ok_orE (url_join lib base (''releases/latest/download/'' @ metadata_filename app))
       (Download ''invalid latest metadata URL''))"

definition exact_metadata_url :: "('v, 'z) dlib_scheme \<Rightarrow> app \<Rightarrow> url \<Rightarrow> 'v \<Rightarrow> release_error + url" where
  "exact_metadata_url lib app u v =
     bindE (repository_base lib u) (\<lambda>base.
     ok_orE (url_join lib base (''releases/download/v'' @ version_string lib v @ ''/'' @ metadata_filename app))
       (Download ''invalid release metadata URL''))"

text \<open>The loop over the segments returns at the first index whose four segments end the path.\<close>

fun manifest_url_scan :: "('v, 'z) dlib_scheme \<Rightarrow> app \<Rightarrow> url \<Rightarrow> string list \<Rightarrow> release_error + ('v \<times> url) option" where
  "manifest_url_scan lib app u (a # b # tag # file # rest) =
     (if a \<noteq> ''releases'' \<or> b \<noteq> ''download'' \<or> file \<noteq> metadata_filename app \<or> rest \<noteq> []
      then manifest_url_scan lib app u (b # tag # file # rest)
      else
        bindE (ok_orE (strip_prefix ''v'' tag) (Download ''versioned release URL is missing v prefix'')) (\<lambda>raw.
        bindE (ok_orE (version_parse lib raw) (Download ''invalid release URL version'')) (\<lambda>v.
        bindE (ensureE (version_string lib v = raw \<and> url_query lib u = None \<and> url_fragment lib u = None)
                 (Download ''release manifest redirect URL is not canonical'')) (\<lambda>_.
        Inr (Some (v, u))))))"
| "manifest_url_scan lib app u _ = Inr None"

definition versioned_manifest_url ::
  "('v, 'z) dlib_scheme \<Rightarrow> app \<Rightarrow> url \<Rightarrow> release_error + ('v \<times> url) option" where
  "versioned_manifest_url lib app u =
     bindE (ok_orE (url_segments lib u) (Download ''release URL has no path segments''))
       (manifest_url_scan lib app u)"

fun release_version_scan :: "('v, 'z) dlib_scheme \<Rightarrow> string list \<Rightarrow> release_error + 'v option" where
  "release_version_scan lib (a # b # tag # rest) =
     (if a = ''releases'' \<and> b = ''download'' then
        bindE (ok_orE (strip_prefix ''v'' tag) (Download ''versioned release redirect is missing v prefix'')) (\<lambda>raw.
        bindE (ok_orE (version_parse lib raw) (Download ''invalid release redirect version'')) (\<lambda>v.
        bindE (ensureE (version_string lib v = raw) (Download ''release redirect version is not canonical'')) (\<lambda>_.
        Inr (Some v))))
      else release_version_scan lib (b # tag # rest))"
| "release_version_scan lib _ = Inr None"

definition versioned_release_version :: "('v, 'z) dlib_scheme \<Rightarrow> url \<Rightarrow> release_error + 'v option" where
  "versioned_release_version lib u =
     (case url_segments lib u of None \<Rightarrow> Inr None | Some ss \<Rightarrow> release_version_scan lib ss)"

definition response_history :: "download_response \<Rightarrow> url list" where
  "response_history r = dr_history r @ [dr_requested r, dr_final r]"

definition validate_response_transport :: "('v, 'z) dlib_scheme \<Rightarrow> download_response \<Rightarrow> release_error + unit" where
  "validate_response_transport lib r =
     bindE (require_https lib (dr_requested r)) (\<lambda>_.
     bindE (require_https lib (dr_final r)) (\<lambda>_.
     forE (dr_history r) (require_https lib)))"

definition reject_cross_release_redirects ::
  "('v, 'z) dlib_scheme \<Rightarrow> app \<Rightarrow> download_response \<Rightarrow> 'v \<Rightarrow> release_error + unit" where
  "reject_cross_release_redirects lib app r expected =
     forE (response_history r) (\<lambda>u.
       bindE (versioned_manifest_url lib app u) (\<lambda>found. case found of
         Some (v, _) \<Rightarrow> ensureE (v = expected) (Download ''redirect history points at another release'')
       | None \<Rightarrow>
           bindE (versioned_release_version lib u) (\<lambda>found. case found of
             Some v \<Rightarrow> ensureE (v = expected) (Download ''redirect history points at another release'')
           | None \<Rightarrow> Inr ())))"

fun manifest_candidates_of ::
  "('v, 'z) dlib_scheme \<Rightarrow> app \<Rightarrow> url list \<Rightarrow> release_error + ('v \<times> url) list" where
  "manifest_candidates_of lib app [] = Inr []"
| "manifest_candidates_of lib app (u # us) =
     bindE (versioned_manifest_url lib app u) (\<lambda>found.
     bindE (manifest_candidates_of lib app us) (\<lambda>rest.
     Inr (case found of Some (v, _) \<Rightarrow> (v, u) # rest | None \<Rightarrow> rest)))"

definition versioned_manifest_candidates ::
  "('v, 'z) dlib_scheme \<Rightarrow> app \<Rightarrow> download_response \<Rightarrow> release_error + ('v \<times> url) list" where
  "versioned_manifest_candidates lib app r = manifest_candidates_of lib app (response_history r)"

definition release_base_from_manifest_url ::
  "('v, 'z) dlib_scheme \<Rightarrow> app \<Rightarrow> url \<Rightarrow> release_error + url" where
  "release_base_from_manifest_url lib app u =
     bindE (versioned_manifest_url lib app u) (\<lambda>found.
     bindE (ok_orE found (Download ''URL is not a version-specific release manifest'')) (\<lambda>(v, _).
     let base = ''/releases/download/v'' @ version_string lib v @ ''/'' in
     bindE (ok_orE (strip_suffix (base @ metadata_filename app) (url_path lib u))
              (Download ''cannot derive exact release base URL'')) (\<lambda>front.
     Inr (url_set_path lib (front @ base) (url_set_fragment lib None (url_set_query lib None u))))))"

subsection \<open>Metadata and archives\<close>

record 'v release_metadata =
  rm_version :: 'v
  rm_manifest_bytes :: bytes
  rm_manifest :: "'v release_manifest"
  rm_signature_bytes :: bytes
  rm_signature :: signature_envelope
  rm_key_id :: string
  rm_release_base :: url

record downloaded_archive =
  da_target :: target
  da_name :: string
  da_bytes :: bytes

text \<open>The signature check, with the keys injected or the application's own trust anchor.\<close>

definition verify_with ::
  "('v, 'z) slib_scheme \<Rightarrow> app \<Rightarrow> trusted_key list option \<Rightarrow> bytes \<Rightarrow> bytes \<Rightarrow> release_error + string" where
  "verify_with lib app keys manifest sigs =
     (case keys of Some ks \<Rightarrow> verify_manifest_with_keys lib manifest sigs ks
      | None \<Rightarrow> verify_manifest lib app manifest sigs)"

definition fetch_verified_metadata ::
  "('v, 'z) dlib_scheme \<Rightarrow> app \<Rightarrow> bytes \<Rightarrow> url \<Rightarrow> 'v \<Rightarrow> trusted_key list option \<Rightarrow> 'v release_metadata rel" where
  "fetch_verified_metadata lib app manifest_bytes base v keys =
     bindM (ensureM (length manifest_bytes \<le> MAX_METADATA_SIZE) (Download ''release manifest exceeds metadata limit'')) (\<lambda>_.
     bindM (liftE (ok_orE (url_join lib base (signature_filename app)) (Download ''invalid signature URL''))) (\<lambda>u.
     bindM (fetch lib u MAX_METADATA_SIZE) (\<lambda>response.
     bindM (liftE (validate_response_transport lib response)) (\<lambda>_.
     bindM (liftE (reject_cross_release_redirects lib app response v)) (\<lambda>_.
     bindM (liftE (verify_with lib app keys manifest_bytes (dr_bytes response))) (\<lambda>key_id.
     bindM (liftE (envelope_from_bytes lib (dr_bytes response))) (\<lambda>envelope.
     bindM (liftE (manifest_from_bytes lib app manifest_bytes)) (\<lambda>manifest.
     bindM utc_now (\<lambda>now.
     bindM (liftE (ensure_not_expired lib manifest now)) (\<lambda>_.
     bindM (ensureM (m_version manifest = v) (Download ''release manifest version differs from resolved version'')) (\<lambda>_.
     returnM \<lparr>rm_version = v, rm_manifest_bytes = manifest_bytes, rm_manifest = manifest,
              rm_signature_bytes = dr_bytes response, rm_signature = envelope, rm_key_id = key_id,
              rm_release_base = base\<rparr>)))))))))))"

text \<open>The set of version strings the redirects name must have exactly one element.\<close>

definition resolve_latest_response ::
  "('v, 'z) dlib_scheme \<Rightarrow> app \<Rightarrow> download_response \<Rightarrow> trusted_key list option \<Rightarrow> 'v release_metadata rel" where
  "resolve_latest_response lib app response keys =
     bindM (liftE (validate_response_transport lib response)) (\<lambda>_.
     bindM (liftE (versioned_manifest_candidates lib app response)) (\<lambda>candidates.
     bindM (ensureM (length (remdups (map (version_string lib \<circ> fst) candidates)) = 1)
              (Download ''latest metadata redirect history names multiple release versions'')) (\<lambda>_.
     bindM (liftE (ok_orE (case candidates of [] \<Rightarrow> None | c # _ \<Rightarrow> Some c)
              (Download ''latest metadata did not resolve to a versioned release URL''))) (\<lambda>(v, u).
     bindM (liftE (release_base_from_manifest_url lib app u)) (\<lambda>base.
     fetch_verified_metadata lib app (dr_bytes response) base v keys)))))"

definition fetch_version_metadata_response ::
  "('v, 'z) dlib_scheme \<Rightarrow> app \<Rightarrow> url \<Rightarrow> download_response \<Rightarrow> 'v \<Rightarrow> trusted_key list option \<Rightarrow> 'v release_metadata rel" where
  "fetch_version_metadata_response lib app repository response v keys =
     bindM (liftE (validate_response_transport lib response)) (\<lambda>_.
     bindM (liftE (reject_cross_release_redirects lib app response v)) (\<lambda>_.
     bindM (liftE (repository_base lib repository)) (\<lambda>base.
     bindM (liftE (ok_orE (url_join lib base (''releases/download/v'' @ version_string lib v @ ''/''))
              (Download ''invalid release base URL''))) (\<lambda>base.
     fetch_verified_metadata lib app (dr_bytes response) base v keys))))"

definition fetch_latest_metadata ::
  "('v, 'z) dlib_scheme \<Rightarrow> app \<Rightarrow> url \<Rightarrow> trusted_key list option \<Rightarrow> 'v release_metadata rel" where
  "fetch_latest_metadata lib app repository keys =
     bindM (liftE (latest_metadata_url lib app repository)) (\<lambda>u.
     bindM (fetch lib u MAX_METADATA_SIZE) (\<lambda>response.
     resolve_latest_response lib app response keys))"

definition fetch_exact_metadata ::
  "('v, 'z) dlib_scheme \<Rightarrow> app \<Rightarrow> url \<Rightarrow> 'v \<Rightarrow> trusted_key list option \<Rightarrow> 'v release_metadata rel" where
  "fetch_exact_metadata lib app repository v keys =
     bindM (liftE (exact_metadata_url lib app repository v)) (\<lambda>u.
     bindM (fetch lib u MAX_METADATA_SIZE) (\<lambda>response.
     fetch_version_metadata_response lib app repository response v keys))"

definition download_archive ::
  "('v, 'z) dlib_scheme \<Rightarrow> app \<Rightarrow> 'v release_metadata \<Rightarrow> target \<Rightarrow> downloaded_archive rel" where
  "download_archive lib app metadata t =
     bindM (liftE (asset_for lib (rm_manifest metadata) app t)) (\<lambda>selected.
     let asset = sel_asset selected in
     bindM (liftE (ok_orE (url_join lib (rm_release_base metadata) (a_archive asset)) (Download ''invalid archive URL''))) (\<lambda>u.
     bindM (fetch lib u (unat MAX_ARCHIVE_SIZE)) (\<lambda>response.
     bindM (liftE (validate_response_transport lib response)) (\<lambda>_.
     bindM (liftE (reject_cross_release_redirects lib app response (rm_version metadata))) (\<lambda>_.
     bindM (liftE (verify_archive_bytes lib app (dr_bytes response) asset)) (\<lambda>_.
     returnM \<lparr>da_target = t, da_name = a_archive asset, da_bytes = dr_bytes response\<rparr>))))))"

end
