(* ===== verification/Install_State.thy ===== *)
theory Install_State
  imports Download
begin

text \<open>
  The managed installation's data, layout and documents (\<^verbatim>\<open>src/src/install/mod.rs\<close>,
  \<^verbatim>\<open>src/src/install/journal.rs\<close>): errors, state records, the paths below the root, the
  authoritative selector (a command symlink on Unix, the file \<open>active\<close> on Windows), the lock, and
  the JSON documents with their validation. The record \<open>env\<close> holds what an \<open>Installation\<close> is
  constructed with, and the third-party operations used here. The fault injector is the
  environment's choice at each boundary, so it takes its answers from the schedule like a system
  call. A path stored in a document is a \<open>path\<close>, standing for its text.
\<close>

subsection \<open>Data\<close>

datatype fault_point = LockAcquired | StagingCreated | PayloadWritten | Verified | StagingSynced
  | VersionRenamed | SelfTested | PendingWritten | PointerSwitched | InstallWritten
  | PendingRemoved | ParentsSynced

datatype 'v install_error = Io io_kind | Release release_error | Json | Invalid string | Unmanaged
  | Downgrade 'v 'v | Fault fault_point io_kind

record launcher_metadata =
  lm_path :: string
  lm_sha256 :: string
  lm_size :: u64
  lm_protocol :: u32

record 'v version_state =
  vs_schema_version :: u32
  vs_version :: 'v
  vs_target :: target
  vs_binary_sha256 :: string
  vs_size :: u64
  vs_installation_id :: string
  vs_launcher :: "launcher_metadata option"

record launcher_ownership =
  lo_owned :: bool
  lo_path :: path
  lo_sha256 :: string
  lo_size :: u64
  lo_protocol :: u32

record 'v install_state =
  is_schema_version :: u32
  is_active :: "'v option"
  is_previous :: "'v option"
  is_installation_id :: string
  is_launcher :: "launcher_ownership option"

record 'v pending_activation =
  pa_schema_version :: u32
  pa_from :: "'v option"
  pa_to :: 'v
  pa_transaction_id :: string

record 'v activation_result =
  ar_version :: 'v
  ar_changed :: bool

record transaction =
  tx_id :: string
  tx_dir :: path
  tx_version_dir :: path

record 'v env = "'v dlib" +
  e_app :: app
  e_root :: path
  e_command :: path
  e_host :: host
  e_target :: "target option"
  e_keys :: "trusted_key list option"
  e_component_eq :: "component \<Rightarrow> component \<Rightarrow> bool"
  version_less :: "'v \<Rightarrow> 'v \<Rightarrow> bool"
  hex_encode :: "bytes \<Rightarrow> string"
  version_state_of_json :: "bytes \<Rightarrow> 'v version_state option"
  json_of_version_state :: "'v version_state \<Rightarrow> bytes"
  install_of_json :: "bytes \<Rightarrow> 'v install_state option"
  json_of_install :: "'v install_state \<Rightarrow> bytes"
  pending_of_json :: "bytes \<Rightarrow> 'v pending_activation option"
  json_of_pending :: "'v pending_activation \<Rightarrow> bytes"

type_synonym ('v, 'a) inst = "(world, 'v install_error, 'a) comp"

text \<open>\<open>From<io::Error>\<close> and \<open>From<ReleaseError>\<close>.\<close>

definition liftIO :: "'a io \<Rightarrow> ('v, 'a) inst" where
  "liftIO m = map_errM Io m"

definition liftR :: "release_error + 'a \<Rightarrow> ('v, 'a) inst" where
  "liftR r = liftE (case r of Inl e \<Rightarrow> Inl (Release e) | Inr a \<Rightarrow> Inr a)"

definition STATE_SCHEMA_VERSION :: u32 where "STATE_SCHEMA_VERSION = 1"

subsection \<open>Layout\<close>

definition versions_dir :: "('v, 'z) env_scheme \<Rightarrow> path" where
  "versions_dir e = join (e_root e) ''versions''"

definition staging_dir :: "('v, 'z) env_scheme \<Rightarrow> path" where
  "staging_dir e = join (e_root e) ''.staging''"

definition version_dir :: "('v, 'z) env_scheme \<Rightarrow> 'v \<Rightarrow> path" where
  "version_dir e v = join (versions_dir e) (version_string e v)"

definition host_payload_name :: "('v, 'z) env_scheme \<Rightarrow> string" where
  "host_payload_name e = payload_name (e_app e) (h_windows (e_host e))"

definition version_payload :: "('v, 'z) env_scheme \<Rightarrow> 'v \<Rightarrow> path" where
  "version_payload e v = join (version_dir e v) (host_payload_name e)"

definition MANIFEST_FILE :: string where "MANIFEST_FILE = ''release.json''"
definition SIGNATURE_FILE :: string where "SIGNATURE_FILE = ''release.signatures.json''"
definition VERSION_FILE :: string where "VERSION_FILE = ''version.json''"
definition LAUNCHER_CREATED_MARKER :: string where "LAUNCHER_CREATED_MARKER = ''.launcher-created''"

definition version_manifest_path :: "('v, 'z) env_scheme \<Rightarrow> 'v \<Rightarrow> path" where
  "version_manifest_path e v = join (version_dir e v) MANIFEST_FILE"

definition version_signature_path :: "('v, 'z) env_scheme \<Rightarrow> 'v \<Rightarrow> path" where
  "version_signature_path e v = join (version_dir e v) SIGNATURE_FILE"

definition lock_path :: "('v, 'z) env_scheme \<Rightarrow> path" where
  "lock_path e = join (e_root e) ''.lock''"

definition install_state_path :: "('v, 'z) env_scheme \<Rightarrow> path" where
  "install_state_path e = join (e_root e) ''install.json''"

definition pending_path :: "('v, 'z) env_scheme \<Rightarrow> path" where
  "pending_path e = join (e_root e) ''pending-activation.json''"

definition active_path :: "('v, 'z) env_scheme \<Rightarrow> path" where
  "active_path e = join (e_root e) ''active''"

definition bin_dir :: "('v, 'z) env_scheme \<Rightarrow> path" where
  "bin_dir e = join (e_root e) ''bin''"

subsection \<open>Paths\<close>

definition lexical_normalize :: "path \<Rightarrow> path" where
  "lexical_normalize p = foldl normalize_step [] p"

text \<open>\<open>std::env::current_dir\<close> may fail, then the path stays relative.\<close>

definition absolute_path :: "bool \<Rightarrow> path option \<Rightarrow> path \<Rightarrow> path" where
  "absolute_path windows cwd p =
     lexical_normalize (if is_absolute windows p then p
       else case cwd of Some d \<Rightarrow> d @ p | None \<Rightarrow> p)"

definition path_starts_with :: "('v, 'z) env_scheme \<Rightarrow> path \<Rightarrow> path \<Rightarrow> bool" where
  "path_starts_with e p base =
     (if h_windows (e_host e)
      then length base \<le> length p \<and> list_all2 (e_component_eq e) (take (length base) p) base
      else prefix base p)"

definition same_path :: "('v, 'z) env_scheme \<Rightarrow> path \<Rightarrow> path \<Rightarrow> bool" where
  "same_path e p q = (if h_windows (e_host e) then list_all2 (e_component_eq e) p q else p = q)"

definition validate_command_path :: "('v, 'z) env_scheme \<Rightarrow> string option \<Rightarrow> 'v install_error + unit" where
  "validate_command_path e launcher =
     (let root = e_root e; cmd = e_command e in
      bindE (ensureE (\<not> same_path e root cmd \<and> \<not> path_starts_with e root cmd)
               (Invalid ''managed command path collides with the installation root'')) (\<lambda>_.
      bindE (forE [active_path e, lock_path e, staging_dir e, versions_dir e,
                   install_state_path e, pending_path e]
               (\<lambda>reserved. ensureE (\<not> path_starts_with e cmd reserved)
                  (Invalid ''managed command path collides with internal path''))) (\<lambda>_.
      case launcher of None \<Rightarrow> Inr ()
      | Some l \<Rightarrow>
          bindE (ensureE (is_safe_basename l True)
                   (Invalid ''Windows launcher name must be a plain basename'')) (\<lambda>_.
          bindE (ok_orE (parent cmd) (Invalid ''managed command has no parent directory'')) (\<lambda>par.
          bindE (ensureE (same_path e par (bin_dir e))
                   (Invalid ''Windows command path must be directly inside bin'')) (\<lambda>_.
          bindE (ok_orE (file_name cmd) (Invalid ''Windows command path has no filename'')) (\<lambda>name.
          ensureE (is_safe_basename name True)
            (Invalid ''Windows command name must be a plain basename''))))))))"

definition validate_configuration :: "('v, 'z) env_scheme \<Rightarrow> 'v install_error + unit" where
  "validate_configuration e =
     bindE (ensureE (is_safe_basename (app_name (e_app e)) (h_windows (e_host e)))
              (Invalid ''application name must be a plain platform-safe basename'')) (\<lambda>_.
     if h_windows (e_host e) then
       bindE (ensureE (launcher_protocol (e_app e) = Some 1)
                (Invalid ''Windows installations require launcher protocol 1'')) (\<lambda>_.
       bindE (ok_orE (launcher_name (e_app e))
                (Invalid ''Windows installations require launcher activation'')) (\<lambda>l.
       validate_command_path e (Some l)))
     else validate_command_path e None)"

subsection \<open>Files\<close>

definition lexists :: "path \<Rightarrow> bool io" where
  "lexists p = bindM (tryM (symlink_metadata p)) (\<lambda>r. case r of
       Inr _ \<Rightarrow> returnM True | Inl e \<Rightarrow> bindM (ensureM (e = NotFound) e) (\<lambda>_. returnM False))"

definition read_regular_limited :: "('v, 'z) env_scheme \<Rightarrow> path \<Rightarrow> nat \<Rightarrow> ('v, bytes) inst" where
  "read_regular_limited e p limit =
     bindM (liftIO (open_regular_file_secure (e_host e) p)) (\<lambda>f.
     bindM (liftIO (symlink_metadata f)) (\<lambda>n.
     bindM (ensureM (node_len n \<le> limit) (Invalid ''file is larger than its limit'')) (\<lambda>_.
     bindM (liftIO (read_handle f)) (\<lambda>all.
     let b = take (limit + 1) all in
     bindM (ensureM (length b \<le> limit) (Invalid ''file is larger than its limit'')) (\<lambda>_.
     returnM b)))))"

definition verify_file_digest :: "('v, 'z) env_scheme \<Rightarrow> path \<Rightarrow> u64 \<Rightarrow> string \<Rightarrow> ('v, unit) inst" where
  "verify_file_digest e p expected_size expected_hash =
     bindM (liftIO (open_regular_file_secure (e_host e) p)) (\<lambda>f.
     bindM (liftIO (symlink_metadata f)) (\<lambda>n.
     bindM (ensureM (of_nat (node_len n) = expected_size) (Invalid ''size mismatch'')) (\<lambda>_.
     bindM (liftIO (bindM (read_handle f) (\<lambda>b. liftE (fst (sha256_reader e (reader_of b)))))) (\<lambda>actual.
     ensureM (actual = expected_hash) (Invalid ''SHA-256 mismatch'')))))"

definition sync_file :: "path \<Rightarrow> unit io" where
  "sync_file p = bindM (open_existing p) (\<lambda>_. sync_all)"

text \<open>
  The recursion goes into subdirectories; \<open>fuel\<close> is the number of nodes of the file system, which
  bounds the depth of a chain of directories.
\<close>

fun sync_regular_files_fuel :: "('v, 'z) env_scheme \<Rightarrow> nat \<Rightarrow> path \<Rightarrow> ('v, unit) inst" where
  "sync_regular_files_fuel e 0 dir = throwM (Io OtherIo)"
| "sync_regular_files_fuel e (Suc fuel) dir =
     bindM (liftIO (fs_read_dir dir)) (\<lambda>entries. forM entries (\<lambda>p.
     bindM (liftIO dir_entry) (\<lambda>_.
     bindM (liftIO (symlink_metadata p)) (\<lambda>n.
     bindM (if is_symlink n then returnM True else liftIO (is_reparse_point (e_host e) p)) (\<lambda>bad.
     bindM (ensureM (\<not> bad) (Invalid ''staging contains a symlink'')) (\<lambda>_.
     if is_dir n then
       bindM (sync_regular_files_fuel e fuel p) (\<lambda>_. liftIO (sync_dir (e_host e) p))
     else if is_file n then liftIO (sync_file p)
     else throwM (Invalid ''staging contains a special file'')))))))"

definition sync_regular_files :: "('v, 'z) env_scheme \<Rightarrow> path \<Rightarrow> ('v, unit) inst" where
  "sync_regular_files e dir w = sync_regular_files_fuel e (Suc (length (files w))) dir w"

definition random_id :: "('v, 'z) env_scheme \<Rightarrow> ('v, string) inst" where
  "random_id e = bindM (map_errM (\<lambda>_. Invalid ''OS randomness failed'') fill_random)
     (\<lambda>b. returnM (hex_encode e b))"

definition valid_id :: "string \<Rightarrow> bool" where
  "valid_id value \<longleftrightarrow> length value = 64 \<and> list_all is_lower_hex_digit value"

definition parse_canonical_version :: "('v, 'z) env_scheme \<Rightarrow> string \<Rightarrow> 'v install_error + 'v" where
  "parse_canonical_version e s =
     bindE (ok_orE (version_parse e s) (Invalid ''invalid managed version'')) (\<lambda>v.
     bindE (ensureE (version_string e v = s) (Invalid ''managed version is not canonical'')) (\<lambda>_.
     Inr v))"

subsection \<open>The authoritative selector\<close>

definition parse_pointer_version :: "('v, 'z) env_scheme \<Rightarrow> path \<Rightarrow> 'v install_error + 'v" where
  "parse_pointer_version e pointer =
     bindE (ok_orE (strip_prefix (versions_dir e) pointer)
              (Invalid ''managed command pointer is outside versions directory'')) (\<lambda>relative.
     (case relative of
        Normal version # below \<Rightarrow>
          (case below of
             Normal payload # rest \<Rightarrow>
               bindE (ensureE (rest = [] \<and> payload = host_payload_name e)
                        (Invalid ''managed command pointer has a noncanonical payload'')) (\<lambda>_.
               parse_canonical_version e version)
           | _ \<Rightarrow> Inl (Invalid ''managed command pointer has no payload''))
      | _ \<Rightarrow> Inl (Invalid ''managed command pointer has no version'')))"

definition read_pointer_unix :: "('v, 'z) env_scheme \<Rightarrow> ('v, 'v option) inst" where
  "read_pointer_unix e =
     bindM (liftIO (read_symlink (e_host e) (e_command e))) (\<lambda>t. case t of
       None \<Rightarrow> returnM None
     | Some target \<Rightarrow>
         bindM (ensureM (is_absolute (h_windows (e_host e)) target)
                  (Invalid ''managed command symlink must contain an absolute payload path'')) (\<lambda>_.
         bindM (liftE (parse_pointer_version e target)) (\<lambda>v.
         bindM (ensureM (same_path e target (version_payload e v))
                  (Invalid ''managed command symlink points outside the current installation'')) (\<lambda>_.
         returnM (Some v)))))"

definition read_pointer_windows :: "('v, 'z) env_scheme \<Rightarrow> ('v, 'v option) inst" where
  "read_pointer_windows e =
     bindM (tryM (symlink_metadata (active_path e))) (\<lambda>r. case r of
       Inl k \<Rightarrow> bindM (ensureM (k = NotFound) (Io k)) (\<lambda>_. returnM None)
     | Inr n \<Rightarrow>
         bindM (if is_symlink n then returnM True
                else bindM (liftIO (is_reparse_point (e_host e) (active_path e))) (\<lambda>reparse.
                     returnM (reparse \<or> \<not> is_file n))) (\<lambda>bad.
         bindM (ensureM (\<not> bad) (Invalid ''active selector is not a regular file'')) (\<lambda>_.
         bindM (read_regular_limited e (active_path e) 128) (\<lambda>b.
         bindM (liftE (ok_orE (from_utf8 b) (Invalid ''active selector is not UTF-8''))) (\<lambda>raw.
         bindM (liftE (parse_canonical_version e raw)) (\<lambda>v.
         returnM (Some v)))))))"

definition read_pointer_unlocked :: "('v, 'z) env_scheme \<Rightarrow> ('v, 'v option) inst" where
  "read_pointer_unlocked e =
     (if h_windows (e_host e) then read_pointer_windows e else read_pointer_unix e)"

definition pointer_path_exists :: "('v, 'z) env_scheme \<Rightarrow> ('v, bool) inst" where
  "pointer_path_exists e =
     (if h_windows (e_host e) then liftIO (lexists (active_path e))
      else bindM (tryM (symlink_metadata (e_command e))) (\<lambda>r. case r of
             Inr n \<Rightarrow> returnM (is_symlink n)
           | Inl k \<Rightarrow> bindM (ensureM (k = NotFound) (Io k)) (\<lambda>_. returnM False)))"

definition switch_pointer :: "('v, 'z) env_scheme \<Rightarrow> 'v \<Rightarrow> ('v, unit) inst" where
  "switch_pointer e v =
     bindM (liftIO (ensure_regular_file (e_host e) (version_payload e v))) (\<lambda>_.
     if h_windows (e_host e)
     then liftIO (atomic_replace_file (e_host e) (active_path e) (version_string e v))
     else liftIO (atomic_switch_symlink (e_host e) (e_command e) (version_payload e v)))"

subsection \<open>Faults, the lock and the private layout\<close>

definition fault :: "fault_point \<Rightarrow> ('v, unit) inst" where
  "fault point = map_errM (Fault point) (io (\<lambda>w. (Inr (), w)))"

definition ensure_root :: "('v, 'z) env_scheme \<Rightarrow> ('v, unit) inst" where
  "ensure_root e =
     bindM (liftIO (lexists (e_root e))) (\<lambda>_. liftIO (ensure_private_dir (e_host e) (e_root e)))"

text \<open>Opening the lock file read-write without following a link, creating it when asked to.\<close>

definition open_or_create :: "host \<Rightarrow> path \<Rightarrow> bool \<Rightarrow> u32 \<Rightarrow> unit io" where
  "open_or_create h p create mode = io (\<lambda>w. case lookup w p of
       Some (RegularFile _ _) \<Rightarrow> (Inr (), w)
     | Some (Special _) \<Rightarrow> (Inr (), w)
     | Some _ \<Rightarrow> (Inl OtherIo, w)
     | None \<Rightarrow> if create \<and> parent_is_dir w p then (Inr (), put p (RegularFile (new_attr h mode) []) w)
               else (Inl NotFound, w))"

text \<open>The lock is exclusive and released when the operation returns; a blocked or failing lock
  call is the failure of that step.\<close>

definition open_lock :: "('v, 'z) env_scheme \<Rightarrow> bool \<Rightarrow> ('v, unit) inst" where
  "open_lock e create =
     bindM (whenM create (liftIO (ensure_private_dir (e_host e) (e_root e)))) (\<lambda>_.
     bindM (tryM (symlink_metadata (lock_path e))) (\<lambda>r.
     bindM (case r of
         Inr n \<Rightarrow>
           bindM (if is_symlink n \<or> \<not> is_file n then returnM True
                  else liftIO (is_reparse_point (e_host e) (lock_path e))) (\<lambda>bad.
           ensureM (\<not> bad) (Invalid ''managed lock path is not a regular file''))
       | Inl k \<Rightarrow> ensureM (k = NotFound \<and> create) (Io k)) (\<lambda>_.
     bindM (liftIO (open_or_create (e_host e) (lock_path e) create 0x180)) (\<lambda>_.
     bindM (liftIO sync_all) (\<lambda>_.
     fault LockAcquired)))))"

definition lock_existing :: "('v, 'z) env_scheme \<Rightarrow> ('v, unit) inst" where
  "lock_existing e = open_lock e False"

definition lock_for_mutation :: "('v, 'z) env_scheme \<Rightarrow> ('v, unit) inst" where
  "lock_for_mutation e = bindM (ensure_root e) (\<lambda>_. open_lock e True)"

definition validate_windows_command_parent :: "('v, 'z) env_scheme \<Rightarrow> path \<Rightarrow> ('v, unit) inst" where
  "validate_windows_command_parent e par =
     bindM (liftIO (same_directory_object (e_host e) par (bin_dir e))) (\<lambda>same.
     ensureM same (Invalid ''Windows launcher parent is not the managed bin directory''))"

definition ensure_private_layout :: "('v, 'z) env_scheme \<Rightarrow> ('v, unit) inst" where
  "ensure_private_layout e =
     (let h = e_host e in
      bindM (liftIO (ensure_private_dir h (e_root e))) (\<lambda>_.
      bindM (liftIO (ensure_private_dir h (versions_dir e))) (\<lambda>_.
      bindM (liftIO (ensure_private_dir h (staging_dir e))) (\<lambda>_.
      whenM (h_windows h)
        (bindM (liftIO (ensure_private_dir h (bin_dir e))) (\<lambda>_.
         case parent (e_command e) of
           None \<Rightarrow> returnM ()
         | Some par \<Rightarrow> bindM (liftIO (lexists par)) (\<lambda>there.
             whenM there (validate_windows_command_parent e par))))))))"

definition ensure_command_parent :: "('v, 'z) env_scheme \<Rightarrow> ('v, unit) inst" where
  "ensure_command_parent e =
     (let h = e_host e in
      bindM (liftE (ok_orE (parent (e_command e)) (Invalid ''managed command has no parent directory''))) (\<lambda>par.
      if h_windows h then
        bindM (liftIO (ensure_private_dir h par)) (\<lambda>_.
        bindM (liftIO (ensure_private_dir h (bin_dir e))) (\<lambda>_.
        validate_windows_command_parent e par))
      else
        bindM (liftIO (create_dir_all h 0x1FF par)) (\<lambda>_.
        bindM (liftIO (symlink_metadata par)) (\<lambda>n.
        bindM (if is_symlink n \<or> \<not> is_dir n then returnM True else liftIO (is_reparse_point h par)) (\<lambda>bad.
        ensureM (\<not> bad) (Invalid ''managed command parent is not a real directory''))))))"

definition sync_affected_parents :: "('v, 'z) env_scheme \<Rightarrow> ('v, unit) inst" where
  "sync_affected_parents e =
     (let h = e_host e in
      bindM (liftIO (sync_dir h (e_root e))) (\<lambda>_.
      bindM (liftIO (lexists (versions_dir e))) (\<lambda>there.
      bindM (whenM there (liftIO (sync_dir h (versions_dir e)))) (\<lambda>_.
      case parent (e_command e) of
        None \<Rightarrow> returnM ()
      | Some par \<Rightarrow> bindM (liftIO (lexists par)) (\<lambda>there.
          whenM there (liftIO (sync_dir h par)))))))"

subsection \<open>Documents\<close>

definition canonical_launcher_path :: "app \<Rightarrow> string \<Rightarrow> bool" where
  "canonical_launcher_path app p =
     (case launcher_name app of None \<Rightarrow> False
      | Some l \<Rightarrow> (case split_on (CHR ''/'') p of
          [root, name] \<Rightarrow> root \<noteq> [] \<and> prefix (archive_prefix app) root \<and> name = l
            \<and> CHR 0x5C \<notin> set p \<and> CHR 0x00 \<notin> set p
        | _ \<Rightarrow> False))"

definition validate_launcher_metadata :: "app \<Rightarrow> launcher_metadata \<Rightarrow> 'v install_error + unit" where
  "validate_launcher_metadata app l =
     ensureE (lm_protocol l = 1 \<and> lm_size l \<noteq> 0 \<and> lower_sha256 (lm_sha256 l)
              \<and> canonical_launcher_path app (lm_path l)) (Invalid ''invalid signed launcher metadata'')"

definition validate_signed_launcher :: "app \<Rightarrow> launcher_info \<Rightarrow> 'v install_error + unit" where
  "validate_signed_launcher app l =
     ensureE (l_protocol l = 1 \<and> l_size l \<noteq> 0 \<and> lower_sha256 (l_sha256 l)
              \<and> canonical_launcher_path app (l_path l)) (Invalid ''invalid signed launcher metadata'')"

definition validate_launcher_ownership :: "launcher_ownership \<Rightarrow> 'v install_error + unit" where
  "validate_launcher_ownership l =
     ensureE (lo_owned l \<and> lo_protocol l = 1 \<and> lo_path l \<noteq> [] \<and> \<not> path_has_nul (lo_path l)
              \<and> lo_size l \<noteq> 0 \<and> lower_sha256 (lo_sha256 l)) (Invalid ''invalid launcher ownership state'')"

definition launcher_metadata_of :: "launcher_info \<Rightarrow> launcher_metadata" where
  "launcher_metadata_of l = \<lparr>lm_path = l_path l, lm_sha256 = l_sha256 l, lm_size = l_size l,
     lm_protocol = l_protocol l\<rparr>"

definition validate_version_state :: "('v, 'z) env_scheme \<Rightarrow> 'v version_state \<Rightarrow> 'v install_error + unit" where
  "validate_version_state e s =
     bindE (ensureE (vs_schema_version s = STATE_SCHEMA_VERSION) (Invalid ''unsupported version state schema'')) (\<lambda>_.
     bindE (ensureE (version_string e (vs_version s) \<noteq> [] \<and> valid_id (vs_installation_id s)
                     \<and> vs_size s \<noteq> 0 \<and> lower_sha256 (vs_binary_sha256 s))
              (Invalid ''invalid version state fields'')) (\<lambda>_.
     if is_windows (vs_target s) then
       bindE (ok_orE (vs_launcher s) (Invalid ''Windows version state lacks launcher metadata''))
         (validate_launcher_metadata (e_app e))
     else ensureE (vs_launcher s = None) (Invalid ''Unix version state contains launcher metadata'')))"

definition validate_install_state :: "('v, 'z) env_scheme \<Rightarrow> 'v install_state \<Rightarrow> 'v install_error + unit" where
  "validate_install_state e s =
     bindE (ensureE (is_schema_version s = STATE_SCHEMA_VERSION \<and> valid_id (is_installation_id s))
              (Invalid ''invalid install state schema or installation id'')) (\<lambda>_.
     bindE (ensureE (is_active s \<noteq> None \<or> is_previous s = None)
              (Invalid ''install state has previous without active'')) (\<lambda>_.
     bindE (ensureE (is_active s \<noteq> is_previous s \<or> is_active s = None)
              (Invalid ''install state active and previous are equal'')) (\<lambda>_.
     if h_windows (e_host e) then
       bindE (ok_orE (is_launcher s) (Invalid ''Windows install state lacks launcher ownership''))
         validate_launcher_ownership
     else ensureE (is_launcher s = None) (Invalid ''Unix install state contains launcher ownership''))))"

definition validate_pending :: "'v pending_activation \<Rightarrow> 'v install_error + unit" where
  "validate_pending p =
     bindE (ensureE (pa_schema_version p = STATE_SCHEMA_VERSION \<and> valid_id (pa_transaction_id p))
              (Invalid ''invalid pending activation schema'')) (\<lambda>_.
     ensureE (pa_from p \<noteq> Some (pa_to p)) (Invalid ''pending activation from and to are equal''))"

definition read_json :: "('v, 'z) env_scheme \<Rightarrow> (bytes \<Rightarrow> 'd option) \<Rightarrow> path \<Rightarrow> ('v, 'd option) inst" where
  "read_json e dec p =
     bindM (tryM (symlink_metadata p)) (\<lambda>r. case r of
       Inl k \<Rightarrow> bindM (ensureM (k = NotFound) (Io k)) (\<lambda>_. returnM None)
     | Inr n \<Rightarrow>
         bindM (if is_symlink n \<or> \<not> is_file n then returnM True
                else liftIO (is_reparse_point (e_host e) p)) (\<lambda>bad.
         bindM (ensureM (\<not> bad) (Invalid ''state path is not a regular file'')) (\<lambda>_.
         bindM (ensureM (node_len n \<le> MAX_METADATA_SIZE) (Invalid ''state file is too large'')) (\<lambda>_.
         bindM (liftIO (fs_read p)) (\<lambda>b.
         bindM (liftE (ok_orE (dec b) Json)) (\<lambda>d.
         returnM (Some d)))))))"

definition write_json :: "('v, 'z) env_scheme \<Rightarrow> path \<Rightarrow> bytes \<Rightarrow> ('v, unit) inst" where
  "write_json e p b = liftIO (atomic_replace_file_with_mode (e_host e) p b (Some 0x180))"

definition read_install_state :: "('v, 'z) env_scheme \<Rightarrow> ('v, 'v install_state option) inst" where
  "read_install_state e = read_json e (install_of_json e) (install_state_path e)"

definition read_pending :: "('v, 'z) env_scheme \<Rightarrow> ('v, 'v pending_activation option) inst" where
  "read_pending e = read_json e (pending_of_json e) (pending_path e)"

definition write_pending :: "('v, 'z) env_scheme \<Rightarrow> 'v pending_activation \<Rightarrow> ('v, unit) inst" where
  "write_pending e p =
     bindM (liftE (validate_pending p)) (\<lambda>_. write_json e (pending_path e) (json_of_pending e p))"

definition remove_pending :: "('v, 'z) env_scheme \<Rightarrow> ('v, unit) inst" where
  "remove_pending e =
     bindM (tryM (symlink_metadata (pending_path e))) (\<lambda>r. case r of
       Inr n \<Rightarrow>
         bindM (ensureM (\<not> is_symlink n \<and> is_file n) (Invalid ''pending activation is not a regular file'')) (\<lambda>_.
         liftIO (remove_file (pending_path e)))
     | Inl k \<Rightarrow> ensureM (k = NotFound) (Io k))"

definition write_install_state :: "('v, 'z) env_scheme \<Rightarrow> 'v install_state \<Rightarrow> ('v, unit) inst" where
  "write_install_state e s =
     bindM (liftE (validate_install_state e s)) (\<lambda>_.
     write_json e (install_state_path e) (json_of_install e s))"

definition write_version_state :: "('v, 'z) env_scheme \<Rightarrow> path \<Rightarrow> 'v version_state \<Rightarrow> ('v, unit) inst" where
  "write_version_state e dir s =
     bindM (liftE (validate_version_state e s)) (\<lambda>_.
     write_json e (join dir VERSION_FILE) (json_of_version_state e s))"

end
