(* ===== verification/Ownership.thy ===== *)
theory Ownership
  imports Install_State
begin

text \<open>
  Verification of immutable version directories and of who owns the command path
  (\<^verbatim>\<open>src/src/install/activation.rs\<close>, \<^verbatim>\<open>src/src/install/recovery.rs\<close>). Every operation here only reads,
  apart from \<open>ensure_private_dir\<close>, which creates the directory it is asked for when it is missing.
\<close>

definition current_target :: "('v, 'z) env_scheme \<Rightarrow> 'v install_error + target" where
  "current_target e = ok_orE (e_target e) (Invalid ''this host has no supported signed release target'')"

text \<open>The signature check with the injected keys or the application's own trust anchor.\<close>

definition verify_signature :: "('v, 'z) env_scheme \<Rightarrow> bytes \<Rightarrow> bytes \<Rightarrow> release_error + string" where
  "verify_signature e manifest sigs = verify_with e (e_app e) (e_keys e) manifest sigs"

subsection \<open>Version directories\<close>

definition metadata_members :: "string list" where
  "metadata_members = [MANIFEST_FILE, SIGNATURE_FILE, VERSION_FILE]"

definition validate_exact_version_members :: "('v, 'z) env_scheme \<Rightarrow> path \<Rightarrow> target \<Rightarrow> ('v, unit) inst" where
  "validate_exact_version_members e dir t =
     (let payload = payload_name (e_app e) (is_windows t) in
      bindM (liftIO (fs_read_dir dir)) (\<lambda>entries.
      bindM (forM entries (\<lambda>p.
        bindM (liftIO dir_entry) (\<lambda>_.
        bindM (liftE (ok_orE (file_name p) (Invalid ''version member is not UTF-8''))) (\<lambda>name.
        ensureM (name = payload \<or> name \<in> set metadata_members)
          (Invalid ''unexpected immutable version member''))))) (\<lambda>_.
      forM (payload # metadata_members) (\<lambda>name.
        bindM (liftIO (lexists (join dir name))) (\<lambda>there.
        ensureM there (Invalid ''missing immutable version member''))))))"

definition verify_version_dir_inner ::
  "('v, 'z) env_scheme \<Rightarrow> path \<Rightarrow> string option \<Rightarrow> ('v, 'v version_state) inst" where
  "verify_version_dir_inner e dir installation_id =
     bindM (liftIO (ensure_private_dir (e_host e) dir)) (\<lambda>_.
     bindM (read_json e (version_state_of_json e) (join dir VERSION_FILE)) (\<lambda>found.
     bindM (liftE (ok_orE found (Invalid ''version.json is missing''))) (\<lambda>state.
     bindM (liftE (validate_version_state e state)) (\<lambda>_.
     bindM (case installation_id of None \<Rightarrow> returnM ()
            | Some expected \<Rightarrow> ensureM (vs_installation_id state = expected)
                (Invalid ''version installation id differs from managed installation'')) (\<lambda>_.
     bindM (liftE (current_target e)) (\<lambda>t.
     bindM (ensureM (vs_target state = t) (Invalid ''version target differs from current host target'')) (\<lambda>_.
     bindM (read_regular_limited e (join dir MANIFEST_FILE) MAX_METADATA_SIZE) (\<lambda>manifest_bytes.
     bindM (read_regular_limited e (join dir SIGNATURE_FILE) MAX_METADATA_SIZE) (\<lambda>signature_bytes.
     bindM (liftR (verify_signature e manifest_bytes signature_bytes)) (\<lambda>key_id.
     bindM (liftR (manifest_from_bytes e (e_app e) manifest_bytes)) (\<lambda>manifest.
     bindM (ensureM (m_version manifest = vs_version state)
              (Invalid ''version state does not match signed release version'')) (\<lambda>_.
     bindM (liftR (asset_for e manifest (e_app e) t)) (\<lambda>selected.
     let asset = sel_asset selected in
     bindM (ensureM (p_path (a_payload asset) = target_root_name e t (e_app e) (vs_version state) @ ''/''
                       @ target_payload_name t (e_app e)) (Invalid ''signed payload path is not canonical'')) (\<lambda>_.
     bindM (ensureM (key_id \<noteq> []) (Invalid ''release signature key id is empty'')) (\<lambda>_.
     bindM (ensureM (vs_binary_sha256 state = p_sha256 (a_payload asset) \<and> vs_size state = p_size (a_payload asset))
              (Invalid ''version state payload digest does not match signed manifest'')) (\<lambda>_.
     let payload = join dir (target_payload_name t (e_app e)) in
     bindM (liftIO (ensure_regular_file (e_host e) payload)) (\<lambda>_.
     bindM (verify_file_digest e payload (vs_size state) (vs_binary_sha256 state)) (\<lambda>_.
     bindM (if is_windows t then
              bindM (liftE (ok_orE (a_launcher asset) (Invalid ''Windows release is missing launcher metadata''))) (\<lambda>l.
              bindM (liftE (validate_signed_launcher (e_app e) l)) (\<lambda>_.
              ensureM (vs_launcher state = Some (launcher_metadata_of l))
                (Invalid ''version state launcher metadata does not match signed manifest'')))
            else ensureM (vs_launcher state = None \<and> a_launcher asset = None)
                (Invalid ''Unix version contains Windows launcher metadata'')) (\<lambda>_.
     bindM (validate_exact_version_members e dir t) (\<lambda>_.
     returnM state))))))))))))))))))))"

definition verify_final_version ::
  "('v, 'z) env_scheme \<Rightarrow> 'v \<Rightarrow> string option \<Rightarrow> ('v, 'v version_state) inst" where
  "verify_final_version e v installation_id =
     bindM (verify_version_dir_inner e (version_dir e v) installation_id) (\<lambda>state.
     bindM (ensureM (vs_version state = v)
              (Invalid ''version.json does not match its immutable directory name'')) (\<lambda>_.
     returnM state))"

definition verify_staged_version ::
  "('v, 'z) env_scheme \<Rightarrow> transaction \<Rightarrow> 'v \<Rightarrow> string \<Rightarrow> ('v, 'v version_state) inst" where
  "verify_staged_version e tx v installation_id =
     bindM (verify_version_dir_inner e (tx_version_dir tx) (Some installation_id)) (\<lambda>state.
     bindM (ensureM (vs_version state = v)
              (Invalid ''staged version state differs from transaction version'')) (\<lambda>_.
     returnM state))"

subsection \<open>The installed launcher\<close>

definition verify_installed_launcher_record :: "('v, 'z) env_scheme \<Rightarrow> launcher_ownership \<Rightarrow> ('v, unit) inst" where
  "verify_installed_launcher_record e l =
     bindM (ensureM (lo_owned l \<and> lo_protocol l = 1)
              (Invalid ''Windows launcher ownership/protocol metadata is invalid'')) (\<lambda>_.
     bindM (liftIO (same_regular_file_object (e_host e) (lo_path l) (e_command e))) (\<lambda>same.
     bindM (ensureM same (Invalid ''Windows launcher ownership path identifies a different file'')) (\<lambda>_.
     bindM (liftIO (ensure_regular_file (e_host e) (e_command e))) (\<lambda>_.
     verify_file_digest e (e_command e) (lo_size l) (lo_sha256 l)))))"

definition verify_installed_launcher :: "('v, 'z) env_scheme \<Rightarrow> 'v install_state \<Rightarrow> ('v, unit) inst" where
  "verify_installed_launcher e s =
     (if h_windows (e_host e) then
        bindM (liftE (ok_orE (is_launcher s)
                 (Invalid ''managed Windows installation lacks launcher ownership'')))
          (verify_installed_launcher_record e)
      else returnM ())"

definition launcher_ownership_for ::
  "('v, 'z) env_scheme \<Rightarrow> 'v \<Rightarrow> 'v install_state option \<Rightarrow> ('v, launcher_ownership option) inst" where
  "launcher_ownership_for e v prior =
     (if h_windows (e_host e) then
        (case prior of
           Some p \<Rightarrow> bindM (verify_installed_launcher e p) (\<lambda>_. returnM (is_launcher p))
         | None \<Rightarrow>
             bindM (verify_final_version e v None) (\<lambda>state.
             bindM (liftE (ok_orE (vs_launcher state)
                      (Invalid ''Windows version has no signed launcher metadata''))) (\<lambda>l.
             let ownership = \<lparr>lo_owned = True, lo_path = e_command e, lo_sha256 = lm_sha256 l,
                              lo_size = lm_size l, lo_protocol = lm_protocol l\<rparr> in
             bindM (verify_installed_launcher_record e ownership) (\<lambda>_.
             returnM (Some ownership)))))
      else returnM None)"

text \<open>The search for a retained version whose signed launcher is the one at the command path; the
  loop returns at the first match and fails on the first version that does not verify.\<close>

fun retained_launcher_loop :: "('v, 'z) env_scheme \<Rightarrow> path list \<Rightarrow> ('v, launcher_ownership option) inst" where
  "retained_launcher_loop e [] = returnM None"
| "retained_launcher_loop e (p # ps) =
     bindM (liftIO dir_entry) (\<lambda>_.
     bindM (liftIO (symlink_metadata p)) (\<lambda>n.
     if \<not> is_dir n then retained_launcher_loop e ps
     else (case file_name p of
         None \<Rightarrow> retained_launcher_loop e ps
       | Some name \<Rightarrow>
           bindM (liftE (parse_canonical_version e name)) (\<lambda>v.
           bindM (verify_final_version e v None) (\<lambda>state.
           (case vs_launcher state of
              None \<Rightarrow> retained_launcher_loop e ps
            | Some l \<Rightarrow>
                bindM (liftIO (lexists (e_command e))) (\<lambda>there.
                if \<not> there then retained_launcher_loop e ps
                else
                  bindM (liftIO (ensure_regular_file (e_host e) (e_command e))) (\<lambda>_.
                  bindM (tryM (verify_file_digest e (e_command e) (lm_size l) (lm_sha256 l))
                           :: ('v, 'v install_error + unit) inst) (\<lambda>r.
                  if is_ok r then
                    returnM (Some \<lparr>lo_owned = True, lo_path = e_command e, lo_sha256 = lm_sha256 l,
                                  lo_size = lm_size l, lo_protocol = lm_protocol l\<rparr>)
                  else retained_launcher_loop e ps)))))))))"

definition retained_launcher_ownership :: "('v, 'z) env_scheme \<Rightarrow> ('v, launcher_ownership option) inst" where
  "retained_launcher_ownership e =
     bindM (liftIO (lexists (versions_dir e))) (\<lambda>there.
     if \<not> there then returnM None
     else bindM (liftIO (fs_read_dir (versions_dir e))) (retained_launcher_loop e))"

definition prove_retained_launcher_ownership :: "('v, 'z) env_scheme \<Rightarrow> ('v, bool) inst" where
  "prove_retained_launcher_ownership e =
     bindM (retained_launcher_ownership e) (\<lambda>l. returnM (l \<noteq> None))"

subsection \<open>Who owns the command path\<close>

definition ensure_command_owned ::
  "('v, 'z) env_scheme \<Rightarrow> 'v option \<Rightarrow> 'v install_state option \<Rightarrow> ('v, unit) inst" where
  "ensure_command_owned e active inst =
     (let windows = h_windows (e_host e) in
      bindM (liftIO (lexists (e_command e))) (\<lambda>there.
      if \<not> there then
        ensureM (\<not> (windows \<and> active \<noteq> None \<and> inst \<noteq> None))
          (Invalid ''managed Windows launcher is missing and cannot be recreated by an update'')
      else (case active of
          None \<Rightarrow>
            bindM (if windows \<and> inst = None then prove_retained_launcher_ownership e else returnM False) (\<lambda>proven.
            ensureM proven (Invalid ''refusing to replace existing unmanaged command''))
        | Some v \<Rightarrow> (case inst of
            None \<Rightarrow> throwM (Invalid ''existing command has no installation ownership record'')
          | Some i \<Rightarrow>
              bindM (ensureM (is_active i = Some v)
                       (Invalid ''existing command ownership does not match the active pointer'')) (\<lambda>_.
              bindM (verify_final_version e v (Some (is_installation_id i))) (\<lambda>_.
              if windows then verify_installed_launcher e i
              else
                bindM (liftIO (read_symlink (e_host e) (e_command e))) (\<lambda>t. case t of
                  None \<Rightarrow> throwM (Invalid ''managed Unix command is missing its symlink'')
                | Some pointer \<Rightarrow>
                    ensureM (is_absolute windows pointer \<and> same_path e pointer (version_payload e v))
                      (Invalid ''existing command symlink is not owned by this installation''))))))))"

definition require_managed_current :: "('v, 'z) env_scheme \<Rightarrow> ('v, 'v) inst" where
  "require_managed_current e =
     bindM (read_pointer_unlocked e) (\<lambda>p.
     bindM (liftE (ok_orE p Unmanaged)) (\<lambda>current.
     bindM (read_install_state e) (\<lambda>i.
     bindM (liftE (ok_orE i Unmanaged)) (\<lambda>inst.
     bindM (liftE (validate_install_state e inst)) (\<lambda>_.
     bindM (ensureM (is_active inst = Some current)
              (Invalid ''managed install metadata does not describe the authoritative pointer'')) (\<lambda>_.
     bindM (verify_final_version e current (Some (is_installation_id inst))) (\<lambda>_.
     bindM (ensure_command_owned e (Some current) (Some inst)) (\<lambda>_.
     returnM current))))))))"

fun common_installation_id :: "('v, 'z) env_scheme \<Rightarrow> string option \<Rightarrow> path list \<Rightarrow> ('v, string option) inst" where
  "common_installation_id e found [] = returnM found"
| "common_installation_id e found (p # ps) =
     bindM (liftIO dir_entry) (\<lambda>_.
     bindM (liftIO (symlink_metadata p)) (\<lambda>n.
     bindM (ensureM (is_dir n) (Invalid ''versions contains a non-directory entry'')) (\<lambda>_.
     bindM (liftE (ok_orE (file_name p) (Invalid ''version directory is not UTF-8''))) (\<lambda>name.
     bindM (liftE (parse_canonical_version e name)) (\<lambda>v.
     bindM (verify_final_version e v None) (\<lambda>state.
     (case found of
        None \<Rightarrow> common_installation_id e (Some (vs_installation_id state)) ps
      | Some i \<Rightarrow> bindM (ensureM (i = vs_installation_id state)
                   (Invalid ''retained versions belong to different installations'')) (\<lambda>_.
                 common_installation_id e found ps))))))))"

definition choose_installation_id ::
  "('v, 'z) env_scheme \<Rightarrow> 'v \<Rightarrow> 'v install_state option \<Rightarrow> ('v, string) inst" where
  "choose_installation_id e v inst =
     (case inst of
        Some i \<Rightarrow> bindM (liftE (validate_install_state e i)) (\<lambda>_. returnM (is_installation_id i))
      | None \<Rightarrow>
          bindM (liftIO (lexists (version_dir e v))) (\<lambda>there.
          if there then bindM (verify_final_version e v None) (\<lambda>s. returnM (vs_installation_id s))
          else
            bindM (liftIO (lexists (versions_dir e))) (\<lambda>versions.
            bindM (if versions then bindM (liftIO (fs_read_dir (versions_dir e))) (common_installation_id e None)
                   else returnM None) (\<lambda>found.
            (case found of Some i \<Rightarrow> returnM i | None \<Rightarrow> random_id e)))))"

end
