(* ===== verification/Self_Test.thy ===== *)
theory Self_Test
  imports Ownership
begin

text \<open>
  The self-test of a payload before it is activated (\<^verbatim>\<open>src/src/install/activation.rs\<close>). The child
  process is outside the program: a \<open>probe\<close> is what one run of it shows, namely the outcomes of the
  spawn attempts, of the calls that contain and resume the child on Windows and, per turn of the
  collecting loop, the answer of \<open>try_wait\<close>, the time elapsed and what the channel delivered. Times are
  in milliseconds. What is done to the child is the list of its \<open>child_event\<close>s. The threads that read its
  output are the step relation of theory Self_Test_Readers.
\<close>

definition SELF_TEST_BUSY_RETRY_DELAY :: nat where "SELF_TEST_BUSY_RETRY_DELAY = 25"
definition SELF_TEST_OUTPUT_LIMIT :: nat where "SELF_TEST_OUTPUT_LIMIT = 1024 * 1024"
definition SELF_TEST_READ_CHUNK :: nat where "SELF_TEST_READ_CHUNK = 8 * 1024"

datatype spawn_outcome = Spawned | ExecutableFileBusy nat | SpawnFailed
datatype self_test_output = StData nat bytes | StDone "io_kind option" | StLimitExceeded
datatype recv_outcome = Received self_test_output | RecvTimeout | RecvDisconnected

text \<open>\<open>ob_wait\<close>: \<open>try_wait\<close> fails, or the child still runs, or it exited (successfully or not).\<close>

record observation =
  ob_wait :: "io_kind + bool option"
  ob_elapsed :: nat
  ob_recv :: recv_outcome

text \<open>Windows: the job object that contains the child, and the snapshot of the system's threads.\<close>

record job_calls =
  job_created :: bool
  job_configured :: bool
  job_assigned :: bool

record thread_entry =
  te_owner :: u32
  te_opens :: bool
  te_resumes :: bool

record probe =
  pr_spawns :: "spawn_outcome list"
  pr_job :: job_calls
  pr_child :: u32
  pr_threads :: "thread_entry list option"
  pr_pipes :: bool
  pr_observed :: "observation list"

fun spawn_loop :: "nat \<Rightarrow> spawn_outcome list \<Rightarrow> 'v install_error + unit" where
  "spawn_loop timeout [] = Inl (Invalid ''self-test could not run staged payload'')"
| "spawn_loop timeout (Spawned # os) = Inr ()"
| "spawn_loop timeout (SpawnFailed # os) = Inl (Invalid ''self-test could not run staged payload'')"
| "spawn_loop timeout (ExecutableFileBusy elapsed # os) =
     (if elapsed + SELF_TEST_BUSY_RETRY_DELAY < timeout then spawn_loop timeout os
      else Inl (Invalid ''self-test could not run staged payload''))"

text \<open>
  The state of the collecting loop: the exit status once seen, how many readers are done, and the
  two outputs. One turn polls the child, checks the deadline and takes one message.
\<close>

type_synonym collector = "bool option \<times> nat \<times> bytes \<times> bytes"

definition poll_status :: "bool option \<Rightarrow> observation \<Rightarrow> 'v install_error + bool option" where
  "poll_status status ob =
     (if status \<noteq> None then Inr status
      else (case ob_wait ob of Inl _ \<Rightarrow> Inl (Invalid ''self-test status check failed'') | Inr s \<Rightarrow> Inr s))"

fun take_message :: "recv_outcome \<Rightarrow> nat \<times> bytes \<times> bytes \<Rightarrow> 'v install_error + (nat \<times> bytes \<times> bytes)" where
  "take_message (Received (StData stream b)) (readers_done, out, err) =
     Inr (if stream = 0 then (readers_done, out @ b, err) else (readers_done, out, err @ b))"
| "take_message (Received (StDone None)) (readers_done, r) = Inr (readers_done + 1, r)"
| "take_message (Received (StDone (Some _))) s = Inl (Invalid ''self-test output read failed'')"
| "take_message (Received StLimitExceeded) s = Inl (Invalid ''self-test output exceeds limit'')"
| "take_message RecvTimeout s = Inr s"
| "take_message RecvDisconnected (readers_done, r) =
     (if readers_done = 2 then Inr (readers_done, r)
      else Inl (Invalid ''self-test output readers stopped unexpectedly''))"

definition collect_step :: "nat \<Rightarrow> observation \<Rightarrow> collector \<Rightarrow> 'v install_error + collector" where
  "collect_step timeout ob = (\<lambda>(status, rest).
     bindE (poll_status status ob) (\<lambda>status'.
     bindE (ensureE (ob_elapsed ob < timeout) (Invalid ''self-test timed out'')) (\<lambda>_.
     bindE (take_message (ob_recv ob) rest) (\<lambda>rest'. Inr (status', rest')))))"

text \<open>The loop ends when the child has exited and both readers are done; a list of observations
  that ends earlier is a probe whose time ran out.\<close>

fun collect_loop :: "nat \<Rightarrow> collector \<Rightarrow> observation list \<Rightarrow> 'v install_error + collector" where
  "collect_loop timeout st [] =
     (if fst st \<noteq> None \<and> 2 \<le> fst (snd st) then Inr st else Inl (Invalid ''self-test timed out''))"
| "collect_loop timeout st (ob # obs) =
     (if fst st \<noteq> None \<and> 2 \<le> fst (snd st) then Inr st
      else bindE (collect_step timeout ob st) (\<lambda>st'. collect_loop timeout st' obs))"

fun contains :: "'a list \<Rightarrow> 'a list \<Rightarrow> bool" where
  "contains pat [] = (pat = [])"
| "contains pat (x # xs) = (prefix pat (x # xs) \<or> contains pat xs)"

subsection \<open>Containing and resuming the child\<close>

text \<open>\<open>SelfTestProcessGroup::attach\<close>: on Unix the child was spawned into a process group of its own.\<close>

definition attach_process_group :: "host \<Rightarrow> job_calls \<Rightarrow> io_kind + unit" where
  "attach_process_group h j =
     (if \<not> h_windows h then Inr ()
      else
        bindE (ensureE (job_created j) OtherIo) (\<lambda>_.
        bindE (ensureE (job_configured j) OtherIo) (\<lambda>_.
        ensureE (job_assigned j) OtherIo)))"

fun resume_thread :: "u32 \<Rightarrow> thread_entry list \<Rightarrow> io_kind + unit" where
  "resume_thread child [] = Inl NotFound"
| "resume_thread child (t # ts) =
     (if te_owner t = child then
        bindE (ensureE (te_opens t) OtherIo) (\<lambda>_. ensureE (te_resumes t) OtherIo)
      else resume_thread child ts)"

definition resume_self_test :: "host \<Rightarrow> probe \<Rightarrow> io_kind + unit" where
  "resume_self_test h p =
     (if \<not> h_windows h then Inr ()
      else case pr_threads p of
        None \<Rightarrow> Inl OtherIo
      | Some [] \<Rightarrow> Inl OtherIo
      | Some ts \<Rightarrow> resume_thread (pr_child p) ts)"

text \<open>Closing the job ends every process in it (\<open>JOB_OBJECT_LIMIT_KILL_ON_JOB_CLOSE\<close>).\<close>

datatype child_event = SpawnChild | TerminateGroup | KillChild | ReapChild | CloseJob

definition drop_process_group :: "host \<Rightarrow> job_calls \<Rightarrow> child_event list" where
  "drop_process_group h j = (if h_windows h \<and> job_created j then [CloseJob] else [])"

definition terminate_self_test :: "child_event list" where
  "terminate_self_test = [TerminateGroup, KillChild, ReapChild]"

text \<open>Looking for ASCII text in the lossy UTF-8 decoding is looking for it in the bytes.\<close>

definition judge_output :: "('v, 'z) env_scheme \<Rightarrow> 'v \<Rightarrow> collector \<Rightarrow> 'v install_error + unit" where
  "judge_output e v = (\<lambda>(status, _, out, err).
     bindE (ok_orE status (Invalid ''self-test failed'')) (\<lambda>success.
     bindE (ensureE success (Invalid ''self-test failed'')) (\<lambda>_.
     ensureE (contains (version_string e v) (out @ err)) (Invalid ''self-test output mismatch''))))"

definition self_test_trace ::
  "('v, 'z) env_scheme \<Rightarrow> probe \<Rightarrow> 'v \<Rightarrow> self_test \<Rightarrow> child_event list \<times> ('v install_error + unit)" where
  "self_test_trace e p v config =
     (let h = e_host e; closed = drop_process_group h (pr_job p) in
      case spawn_loop (st_timeout config) (pr_spawns p) of
        Inl k \<Rightarrow> ([], Inl k)
      | Inr _ \<Rightarrow>
      (case attach_process_group h (pr_job p) of
        Inl _ \<Rightarrow> (SpawnChild # closed @ [KillChild, ReapChild], Inl (Invalid ''self-test process containment failed''))
      | Inr _ \<Rightarrow>
      (case resume_self_test h p of
        Inl _ \<Rightarrow> (SpawnChild # terminate_self_test @ closed, Inl (Invalid ''could not resume contained self-test child''))
      | Inr _ \<Rightarrow>
      if \<not> pr_pipes p then (SpawnChild # closed, Inl (Invalid ''self-test failed''))
      else
      (case collect_loop (st_timeout config) (None, 0, [], []) (pr_observed p) of
        Inl k \<Rightarrow> (SpawnChild # terminate_self_test @ closed, Inl k)
      | Inr collected \<Rightarrow> (SpawnChild # closed, judge_output e v collected)))))"

definition run_self_test :: "('v, 'z) env_scheme \<Rightarrow> probe \<Rightarrow> 'v \<Rightarrow> self_test \<Rightarrow> 'v install_error + unit" where
  "run_self_test e p v config = snd (self_test_trace e p v config)"

subsection \<open>What a passed self-test means\<close>

lemma contains_iff: "contains pat xs \<longleftrightarrow> (\<exists>ps ss. xs = ps @ pat @ ss)"
proof (induction xs)
  case (Cons x xs)
  have "(\<exists>ps ss. x # xs = ps @ pat @ ss) \<longleftrightarrow> prefix pat (x # xs) \<or> (\<exists>ps ss. xs = ps @ pat @ ss)"
    by (auto simp: prefix_def Cons_eq_append_conv)
  with Cons.IH show ?case by simp
qed auto

lemma attach_Inr: "attach_process_group h j = Inr u \<Longrightarrow> h_windows h \<longrightarrow> job_created j \<and> job_configured j \<and> job_assigned j"
  by (auto simp: attach_process_group_def bindE_def ensureE_def split: if_splits)

lemma resume_thread_Inr:
  "resume_thread child ts = Inr u \<Longrightarrow> \<exists>t \<in> set ts. te_owner t = child \<and> te_opens t \<and> te_resumes t"
  by (induction child ts rule: resume_thread.induct) (auto simp: bindE_def ensureE_def split: if_splits)

lemma resume_Inr: "resume_self_test h p = Inr u \<Longrightarrow> h_windows h
   \<Longrightarrow> \<exists>ts. pr_threads p = Some ts \<and> (\<exists>t \<in> set ts. te_owner t = pr_child p \<and> te_opens t \<and> te_resumes t)"
  by (auto simp: resume_self_test_def simp del: resume_thread.simps split: option.splits list.splits dest!: resume_thread_Inr)

text \<open>A self-test that passes has gone all the way.\<close>

lemma run_self_test_Inr:
  fixes e :: "('v, 'z) env_scheme"
  assumes "run_self_test e p v config = Inr ()"
  shows "spawn_loop (st_timeout config) (pr_spawns p) = (Inr () :: 'v install_error + unit)
     \<and> attach_process_group (e_host e) (pr_job p) = Inr () \<and> resume_self_test (e_host e) p = Inr ()
     \<and> (\<exists>n out err. collect_loop (st_timeout config) (None, 0, [], []) (pr_observed p)
          = (Inr (Some True, n, out, err) :: 'v install_error + collector) \<and> contains (version_string e v) (out @ err))"
  using assms
  by (auto simp: run_self_test_def self_test_trace_def Let_def judge_output_def bindE_def ensureE_def ok_orE_def
      split: sum.splits if_splits option.splits)

lemma spawn_loop_Inr: "spawn_loop timeout os = Inr u \<Longrightarrow> Spawned \<in> set os"
  by (induction timeout os rule: spawn_loop.induct) (auto split: if_splits)

text \<open>One stream's bytes in the messages, in order.\<close>

definition stream_bytes :: "bool \<Rightarrow> observation list \<Rightarrow> bytes" where
  "stream_bytes first obs = concat (map (\<lambda>ob. case ob_recv ob of
     Received (StData s b) \<Rightarrow> if (s = 0) = first then b else [] | _ \<Rightarrow> []) obs)"

lemma stream_bytes_Nil [simp]: "stream_bytes first [] = []"
  by (simp add: stream_bytes_def)

lemma take_message_out:
  "take_message (ob_recv ob) (n, out, err) = Inr (n', out', err')
   \<Longrightarrow> out' = out @ stream_bytes True [ob] \<and> err' = err @ stream_bytes False [ob]"
  by (cases "(ob_recv ob, (n, out, err))" rule: take_message.cases)
    (auto simp: stream_bytes_def split: if_splits)

lemma poll_status_Inr:
  "poll_status status ob = Inr s \<Longrightarrow> s = status \<or> (status = None \<and> ob_wait ob = Inr s)"
  by (auto simp: poll_status_def split: if_splits sum.splits)

lemma collect_step_Inr:
  "collect_step timeout ob (status, n, out, err) = Inr (status', n', out', err') \<Longrightarrow>
     (status' = status \<or> (status = None \<and> ob_wait ob = Inr status')) \<and> ob_elapsed ob < timeout
     \<and> out' = out @ stream_bytes True [ob] \<and> err' = err @ stream_bytes False [ob]"
  by (auto simp: collect_step_def dest!: poll_status_Inr take_message_out)

text \<open>
  A finished collection has seen an initial part of the observations: the status it reports was
  polled before the deadline, both readers were done, and the outputs are all the bytes delivered.
\<close>

lemma collect_loop_Inr:
  assumes "collect_loop timeout (status, n, out, err) obs
    = (Inr (status', n', out', err') :: 'v install_error + collector)"
  shows "\<exists>seen rest. obs = seen @ rest \<and> status' \<noteq> None \<and> 2 \<le> n'
     \<and> (status' = status \<or> (\<exists>ob \<in> set seen. ob_wait ob = Inr status'))
     \<and> (\<forall>ob \<in> set seen. ob_elapsed ob < timeout)
     \<and> out' = out @ stream_bytes True seen \<and> err' = err @ stream_bytes False seen"
  using assms
proof (induction obs arbitrary: status n out err)
  case Nil
  then have "status' = status \<and> status \<noteq> None \<and> 2 \<le> n' \<and> out' = out \<and> err' = err"
    by (cases status) (simp_all split: if_splits)
  then show ?case by simp
next
  case (Cons ob obs)
  show ?case
  proof (cases "status \<noteq> None \<and> 2 \<le> n")
    case True
    with Cons.prems show ?thesis by (intro exI [of _ "[]"] exI [of _ "ob # obs"]) auto
  next
    case False
    with Cons.prems obtain s1 n1 o1 e1 where
      st: "collect_step timeout ob (status, n, out, err) 
        = (Inr (s1, n1, o1, e1) :: 'v install_error + collector)" and
      rest: "collect_loop timeout (s1, n1, o1, e1) obs
        = (Inr (status', n', out', err') :: 'v install_error + collector)"
      by (auto split: if_splits)
    from Cons.IH [OF rest] obtain seen rs where IH: "obs = seen @ rs" "status' \<noteq> None" "2 \<le> n'"
      "status' = s1 \<or> (\<exists>ob \<in> set seen. ob_wait ob = Inr status')" "\<forall>ob \<in> set seen. ob_elapsed ob < timeout"
      "out' = o1 @ stream_bytes True seen" "err' = e1 @ stream_bytes False seen"
      by blast
    moreover note collect_step_Inr [OF st]
    moreover have "stream_bytes f (ob # seen) = stream_bytes f [ob] @ stream_bytes f seen" for f
      by (simp add: stream_bytes_def)
    ultimately show ?thesis
      by (intro exI [of _ "ob # seen"] exI [of _ rs]) auto
  qed
qed

end
