(* ===== verification/Durable.thy ===== *)
theory Durable
  imports Ownership
begin

text \<open>
  The interface the activation journal rests on: a durable cell is one path that is replaced
  atomically and read back exactly. The selector, \<^verbatim>\<open>install.json\<close> and \<^verbatim>\<open>pending-activation.json\<close> are
  its interpretations. \<open>layout_ok\<close> and \<open>json_ok\<close> collect what the laws need: a validated
  configuration with an absolute root, and JSON that decodes to what was encoded.
\<close>

subsection \<open>Assumptions on the environment\<close>

definition json_ok :: "('v, 'z) env_scheme \<Rightarrow> bool" where
  "json_ok e \<longleftrightarrow> (\<forall>s. install_of_json e (json_of_install e s) = Some s)
     \<and> (\<forall>p. pending_of_json e (json_of_pending e p) = Some p)
     \<and> (\<forall>s. version_state_of_json e (json_of_version_state e s) = Some s)"

text \<open>The root and the command are absolute and normalised, as \<open>absolute_path\<close> makes them, the
  command is not named like one of the temporary files, and comparing path components the way
  Windows does is reflexive.\<close>

fun is_normal :: "component \<Rightarrow> bool" where
  "is_normal (Normal n) = True"
| "is_normal _ = False"

fun canonical_path :: "bool \<Rightarrow> path \<Rightarrow> bool" where
  "canonical_path False (RootDir # cs) = list_all is_normal cs"
| "canonical_path True (Prefix _ # RootDir # cs) = list_all is_normal cs"
| "canonical_path _ _ = False"

definition layout_ok :: "('v, 'z) env_scheme \<Rightarrow> bool" where
  "layout_ok e \<longleftrightarrow> is_ok (validate_configuration e) \<and> canonical_path (h_windows (e_host e)) (e_root e)
     \<and> canonical_path (h_windows (e_host e)) (e_command e) \<and> \<not> temp_like (e_command e)
     \<and> (\<forall>c. e_component_eq e c c)"

definition env_ok :: "('v, 'z) env_scheme \<Rightarrow> bool" where
  "env_ok e \<longleftrightarrow> layout_ok e \<and> json_ok e \<and> semver_ok e"

lemma env_okD: "env_ok e \<Longrightarrow> layout_ok e" "env_ok e \<Longrightarrow> json_ok e" "env_ok e \<Longrightarrow> semver_ok e"
  by (simp_all add: env_ok_def)

subsection \<open>The cells\<close>

definition selector_path :: "('v, 'z) env_scheme \<Rightarrow> path" where
  "selector_path e = (if h_windows (e_host e) then active_path e else e_command e)"

definition points_to :: "('v, 'z) env_scheme \<Rightarrow> 'v \<Rightarrow> node option \<Rightarrow> bool" where
  "points_to e v n \<longleftrightarrow>
     (if h_windows (e_host e) then \<exists>a. n = Some (RegularFile a (version_string e v))
      else n = Some (Symlink (version_payload e v)))"

definition decodes :: "(bytes \<Rightarrow> 'd option) \<Rightarrow> 'd \<Rightarrow> node option \<Rightarrow> bool" where
  "decodes dec d n \<longleftrightarrow> (\<exists>a b. n = Some (RegularFile a b) \<and> dec b = Some d)"

locale durable_cell =
  fixes cell :: path and side :: "path set" and ok :: bool
    and store :: "'d \<Rightarrow> (world, 'e, unit) comp" and load :: "(world, 'e, 'd option) comp"
    and holds :: "'d \<Rightarrow> node option \<Rightarrow> bool"
  assumes store_touches: "touches (insert cell side) (store d)"
    and side_temp: "q \<in> side \<Longrightarrow> temp_like q"
    and store_outcome: "ok \<Longrightarrow> valid (\<lambda>w. lookup w cell = x) (store d)
       (\<lambda>_ w. holds d (lookup w cell)) (\<lambda>w. lookup w cell = x \<or> holds d (lookup w cell))"
    and load_reads: "touches S load"
    and load_exact: "ok \<Longrightarrow> load w = (Inr r, w')
       \<Longrightarrow> (case r of None \<Rightarrow> lookup w cell = None | Some d \<Rightarrow> holds d (lookup w cell))"
    and holds_unique: "ok \<Longrightarrow> holds d n \<Longrightarrow> holds d' n \<Longrightarrow> d = d'"
    and holds_some: "holds d n \<Longrightarrow> n \<noteq> None"
begin

text \<open>Whatever a store returns, the cell has its old or its new content, and every path that is
  not named like a temporary file is as before.\<close>

lemma store_crash:
  assumes ok and "store d w = (r, w')"
  shows "(lookup w' cell = lookup w cell \<or> holds d (lookup w' cell))
    \<and> (\<forall>u. r = Inr u \<longrightarrow> holds d (lookup w' cell))
    \<and> (\<forall>q. q \<noteq> cell \<and> \<not> temp_like q \<longrightarrow> lookup w' q = lookup w q)"
proof -
  note out = store_outcome [OF assms(1), of "lookup w cell" d]
  have "\<forall>q. q \<noteq> cell \<and> \<not> temp_like q \<longrightarrow> lookup w' q = lookup w q"
    using touchesD [OF store_touches assms(2)] side_temp by blast
  moreover have "lookup w' cell = lookup w cell \<or> holds d (lookup w' cell)"
    and "\<forall>u. r = Inr u \<longrightarrow> holds d (lookup w' cell)"
    using assms(2) out by (cases r; force simp: valid_def)+
  ultimately show ?thesis by blast
qed

text \<open>A value that was stored is the value that is loaded.\<close>

lemma load_after_store:
  assumes ok and "store d w = (Inr u, v)" and "lookup v' cell = lookup v cell" and "load v' = (Inr r, w')"
  shows "r = Some d"
proof -
  have h: "holds d (lookup v' cell)" using store_crash [OF assms(1,2)] assms(3) by simp
  with load_exact [OF assms(1,4)] holds_some holds_unique [OF assms(1)] show ?thesis
    by (cases r) auto
qed

lemma load_of_holds:
  assumes ok and "holds d (lookup w cell)" and "load w = (Inr r, w')"
  shows "r = Some d"
  using load_exact [OF assms(1,3)] assms(2) holds_some holds_unique [OF assms(1)]
  by (cases r) auto

lemma load_of_absent:
  assumes ok and "lookup w cell = None" and "load w = (Inr r, w')"
  shows "r = None"
  using load_exact [OF assms(1,3)] assms(2) holds_some by (cases r) auto

end

subsection \<open>Interpretations\<close>

lemma touches_liftIO [touches_intros]: "touches S m \<Longrightarrow> touches S (liftIO m)"
  unfolding liftIO_def by (rule touches_map_err)

lemma touches_liftR [touches_intros]: "touches S (liftR r)"
  unfolding liftR_def by (rule touches_basic)

lemma valid_liftIO [wp]: "valid P m Q E \<Longrightarrow> valid P (liftIO m) Q E"
  unfolding liftIO_def by (rule valid_map_err)

lemma liftIO_iff [simp]:
  "liftIO m w = (Inr a, w') \<longleftrightarrow> m w = (Inr a, w')"
  "liftIO m w = (Inl k, w') \<longleftrightarrow> (\<exists>e. m w = (Inl e, w') \<and> k = Io e)"
  by (simp_all add: liftIO_def)

lemma touches_lexists [touches_intros]: "touches S (lexists p)"
  unfolding lexists_def by (intro touches_intros)

lemma touches_read_json [touches_intros]: "touches S (read_json e dec p)"
  unfolding read_json_def Let_def by (intro touches_intros)

lemma touches_read_regular_limited [touches_intros]: "touches S (read_regular_limited e p n)"
  unfolding read_regular_limited_def Let_def by (intro touches_intros)

lemma touches_read_pointer [touches_intros]: "touches S (read_pointer_unlocked e)"
  unfolding read_pointer_unlocked_def read_pointer_unix_def read_pointer_windows_def
  by (intro touches_intros)

lemma touches_write_json [touches_intros]:
  "p \<in> S \<Longrightarrow> temp_paths p \<subseteq> S \<Longrightarrow> touches S (write_json e p b)"
  unfolding write_json_def by (intro touches_intros)

lemma touches_switch_pointer [touches_intros]:
  "selector_path e \<in> S \<Longrightarrow> temp_paths (selector_path e) \<subseteq> S \<Longrightarrow> touches S (switch_pointer e v)"
  unfolding switch_pointer_def selector_path_def
  by (cases "h_windows (e_host e)") (auto intro!: touches_intros)

lemma write_json_outcome:
  "valid (\<lambda>w. lookup w p = x) (write_json e p b) (\<lambda>_ w. \<exists>a. lookup w p = Some (RegularFile a b))
     (\<lambda>w. lookup w p = x \<or> (\<exists>a. lookup w p = Some (RegularFile a b)))"
  unfolding write_json_def by (rule valid_liftIO) (rule atomic_replace_outcome)

text \<open>A document that was checked before it is written.\<close>

lemma checked_write_outcome:
  assumes "dec b = Some d"
  shows "valid (\<lambda>w. lookup w p = x) (bindM (liftE c) (\<lambda>_. write_json e p b))
     (\<lambda>_ w. decodes dec d (lookup w p)) (\<lambda>w. lookup w p = x \<or> decodes dec d (lookup w p))"
proof -
  have "valid (\<lambda>w. lookup w p = x) (write_json e p b)
     (\<lambda>_ w. decodes dec d (lookup w p)) (\<lambda>w. lookup w p = x \<or> decodes dec d (lookup w p))"
    using assms by (intro valid_post [OF write_json_outcome]) (auto simp: decodes_def)
  then show ?thesis by (cases c) (auto simp: valid_def monad_simps)
qed

lemma reads_lookup: "touches {} m \<Longrightarrow> m w = (r, w') \<Longrightarrow> lookup w' = lookup w"
  using touchesD by fastforce

lemma fs_read_regular:
  "fs_read p w = (Inr b, w') \<Longrightarrow> lookup w p = Some (RegularFile a c) \<Longrightarrow> b = c"
  unfolding fs_read_def
proof (erule io_cases)
  fix v assume "lookup w p = Some (RegularFile a c)" and "lookup v = lookup w"
    and r: "(case stat v p of Inl e \<Rightarrow> (Inl e, v) | Inr (RegularFile x b) \<Rightarrow> (Inr b, v)
      | Inr _ \<Rightarrow> (Inl OtherIo, v)) = (Inr b, w')"
  then have "stat v p = Inr (RegularFile a c)"
    by (simp add: stat_def eval_nat_numeral)
  with r show "b = c" by simp
qed simp

text \<open>A document read as absent is absent, and one read as a value is a regular file holding it.\<close>

lemma read_json_exact:
  fixes e :: "('v, 'z) env_scheme"
  assumes "read_json e dec p w = (Inr r, w')"
  shows "case r of None \<Rightarrow> lookup w p = None | Some d \<Rightarrow> decodes dec d (lookup w p)"
proof -
  obtain m w1 where meta: "symlink_metadata p w = (m, w1)" by fastforce
  show ?thesis
  proof (cases m)
    case (Inl k)
    with assms meta have "k = NotFound \<and> r = None"
      by (auto simp: read_json_def bindM_return_iff ensureM_apply monad_simps split: if_splits)
    with symlink_metadata_cases(3) meta Inl show ?thesis by auto
  next
    case (Inr n)
    with meta have n: "lookup w p = Some n" "lookup w1 = lookup w"
      using symlink_metadata_Inr by blast+
    from assms meta Inr obtain bad w2 b w3 d where
      bad: "(if is_symlink n \<or> \<not> is_file n then returnM True
             else liftIO (is_reparse_point (e_host e) p) :: ('v, bool) inst) w1 = (Inr bad, w2)" "\<not> bad"
      and rd: "fs_read p w2 = (Inr b, w3)" and d: "dec b = Some d" "r = Some d"
      by (auto simp: read_json_def bindM_return_iff ensureM_apply monad_simps split: if_splits)
    then have "is_file n" by (auto simp: returnM_apply split: if_splits)
    then obtain a c where nf: "n = RegularFile a c" by (rule is_file_cases)
    have "touches {} (if is_symlink n \<or> \<not> is_file n then returnM True
             else liftIO (is_reparse_point (e_host e) p) :: ('v, bool) inst)"
      by (intro touches_intros)
    from reads_lookup [OF this bad(1)] n nf have "lookup w2 p = Some (RegularFile a c)" by simp
    with rd have "b = c" by (rule fs_read_regular)
    with d n(1) nf show ?thesis by (auto simp: decodes_def)
  qed
qed

lemma decodes_unique: "decodes dec d n \<Longrightarrow> decodes dec d' n \<Longrightarrow> d = d'"
  by (auto simp: decodes_def)

lemma decodes_some: "decodes dec d n \<Longrightarrow> n \<noteq> None"
  by (auto simp: decodes_def)

interpretation pending: durable_cell "pending_path e" "temp_paths (pending_path e)" "env_ok e"
  "write_pending e" "read_pending e" "decodes (pending_of_json e)" for e :: "('v, 'z) env_scheme"
proof
  show "touches (insert (pending_path e) (temp_paths (pending_path e))) (write_pending e d)" for d
    unfolding write_pending_def by (intro touches_intros) auto
  show "env_ok e \<Longrightarrow> valid (\<lambda>w. lookup w (pending_path e) = x) (write_pending e d)
     (\<lambda>_ w. decodes (pending_of_json e) d (lookup w (pending_path e)))
     (\<lambda>w. lookup w (pending_path e) = x \<or> decodes (pending_of_json e) d (lookup w (pending_path e)))" for d x
    unfolding write_pending_def by (rule checked_write_outcome) (simp add: env_ok_def json_ok_def)
qed (auto simp: read_pending_def temp_paths_like decodes_some dest: read_json_exact decodes_unique
     intro: touches_read_json)

interpretation installed: durable_cell "install_state_path e" "temp_paths (install_state_path e)" "env_ok e"
  "write_install_state e" "read_install_state e" "decodes (install_of_json e)" for e :: "('v, 'z) env_scheme"
proof
  show "touches (insert (install_state_path e) (temp_paths (install_state_path e))) (write_install_state e d)" for d
    unfolding write_install_state_def by (intro touches_intros) auto
  show "env_ok e \<Longrightarrow> valid (\<lambda>w. lookup w (install_state_path e) = x) (write_install_state e d)
     (\<lambda>_ w. decodes (install_of_json e) d (lookup w (install_state_path e)))
     (\<lambda>w. lookup w (install_state_path e) = x \<or> decodes (install_of_json e) d (lookup w (install_state_path e)))" for d x
    unfolding write_install_state_def by (rule checked_write_outcome) (simp add: env_ok_def json_ok_def)
qed (auto simp: read_install_state_def temp_paths_like decodes_some dest: read_json_exact decodes_unique
     intro: touches_read_json)

subsection \<open>Canonical paths open as themselves\<close>

lemma canonical_cases:
  assumes "canonical_path b p"
  obtains (unix) cs where "\<not> b" "p = RootDir # cs" "list_all is_normal cs"
    | (windows) x cs where b "p = Prefix x # RootDir # cs" "list_all is_normal cs"
  using assms by (cases "(b, p)" rule: canonical_path.cases) auto

lemma canonical_join [simp]: "canonical_path b p \<Longrightarrow> canonical_path b (join p n)"
  by (erule canonical_cases) (auto simp: join_def)

lemma canonical_join_iff: "canonical_path b (join p n) \<longleftrightarrow> canonical_path b p"
  by (cases "(b, p)" rule: canonical_path.cases) (auto simp: join_def)

lemma canonical_absolute: "canonical_path b p \<Longrightarrow> is_absolute b p"
  by (erule canonical_cases) auto

lemma normalize_normals: "list_all is_normal cs \<Longrightarrow> foldl normalize_step acc cs = acc @ cs"
proof (induction cs arbitrary: acc)
  case (Cons c cs)
  then show ?case by (cases c) (auto simp: normalize_step_def)
qed simp

lemma canonical_normalized: "canonical_path b p \<Longrightarrow> lexical_normalize p = p"
  by (erule canonical_cases) (auto simp: lexical_normalize_def normalize_normals normalize_step_def)

lemma canonical_absolute_normalized:
  "canonical_path (h_windows h) p \<Longrightarrow> absolute_normalized h p = p"
  using canonical_absolute canonical_normalized
  unfolding absolute_normalized_def lexical_normalize_def by fastforce

lemma normals_names: "list_all is_normal cs \<Longrightarrow> \<exists>ns. cs = map Normal ns"
proof (induction cs)
  case (Cons c cs)
  then obtain ns m where "cs = map Normal ns" "c = Normal m" by (cases c) auto
  then show ?case by (intro exI [of _ "m # ns"]) simp
qed simp

lemma split_root_names: "root \<noteq> [] \<Longrightarrow> split_root root comps (map Normal ns) = Inr (root, comps @ ns)"
  by (induction ns arbitrary: comps) auto

text \<open>A canonical Windows path is a drive's root and the names below it.\<close>

lemma split_root_canonical:
  assumes "canonical_path (h_windows h) p" and "h_windows h"
  obtains x ns where "p = Prefix x # RootDir # map Normal ns"
    "split_root [] [] (absolute_normalized h p) = Inr ([Prefix x, RootDir], ns)"
proof -
  obtain x ns where p: "p = Prefix x # RootDir # map Normal ns"
    using assms by (auto elim!: canonical_cases dest!: normals_names)
  have "split_root [] [] p = Inr ([Prefix x, RootDir], ns)"
    using split_root_names [of "[Prefix x, RootDir]" "[]" ns] by (simp add: p)
  with p canonical_absolute_normalized [OF assms(1)] show ?thesis by (intro that) auto
qed

lemma walk_unix_path:
  "walk_unix h create cur cs w = (Inr d, w') \<Longrightarrow> list_all is_normal cs \<Longrightarrow> d = cur @ cs"
proof (induction h create cur cs arbitrary: w rule: walk_unix.induct)
  case (2 h create cur n cs)
  then show ?case
    by (auto simp: bindM_return_iff ensureM_apply monad_simps join_def split: if_splits)
qed (auto simp: returnM_apply)

lemma open_directory_path:
  assumes "open_directory h p create w = (Inr d, w')" and "canonical_path (h_windows h) p"
  shows "d = p"
  using assms(2)
proof (cases rule: canonical_cases)
  case (unix cs)
  with assms(1) obtain v where "walk_unix h create [RootDir] (RootDir # cs) v = (Inr d, w')"
    by (auto simp: open_directory_def open_directory_tree_def bindM_return_iff Let_def)
  then have "walk_unix h create [RootDir] cs v = (Inr d, w')" by simp
  from walk_unix_path [OF this unix(3)] unix show ?thesis by simp
next
  case (windows x cs)
  with assms(1) have "open_directory_with_descriptor h p create None w = (Inr d, w')"
    by (simp add: open_directory_def)
  from open_directory_desc_path [OF this] canonical_absolute_normalized [OF assms(2)] show ?thesis by simp
qed

lemma canonical_nonempty: "canonical_path b p \<Longrightarrow> p \<noteq> []"
  by (erule canonical_cases) auto

lemma open_regular_file_path:
  assumes "open_regular_file_secure h (join p n) w = (Inr f, w')" and "canonical_path (h_windows h) p"
  shows "f = join p n"
proof -
  note ne = canonical_nonempty [OF assms(2)]
  have "\<exists>d u u'. open_directory h p False u = (Inr d, u') \<and> f = join d n"
  proof (cases "h_windows h")
    case True
    with assms(1) ne show ?thesis
      by (auto simp: open_regular_file_secure_def open_regular_def open_directory_def bindM_return_iff ensureM_apply
          monad_simps dest!: open_relative_path)
  next
    case False
    with assms(1) ne show ?thesis
      by (auto simp: open_regular_file_secure_def open_directory_def bindM_return_iff ensureM_apply monad_simps
          split: if_splits)
  qed
  with open_directory_path assms(2) show ?thesis by blast
qed

text \<open>Reading a file below a canonical directory returns its bytes.\<close>

lemma read_handle_Inr: "read_handle p w = (Inr b, w') \<Longrightarrow> \<exists>a. lookup w p = Some (RegularFile a b)"
  unfolding read_handle_def by (erule io_cases) (auto split: option.splits node.splits)

lemma read_regular_limited_exact:
  fixes e :: "('v, 'z) env_scheme"
  assumes "read_regular_limited e (join p n) limit w = (Inr b, w')"
    and "canonical_path (h_windows (e_host e)) p"
  shows "\<exists>a. lookup w (join p n) = Some (RegularFile a b) \<and> length b \<le> limit"
proof -
  from assms(1) obtain f w1 m w2 all w3 where
    f: "open_regular_file_secure (e_host e) (join p n) w = (Inr f, w1)" and
    m: "symlink_metadata f w1 = (Inr m, w2)" "node_len m \<le> limit" and
    rd: "read_handle f w2 = (Inr all, w3)" and b: "b = take (Suc limit) all" "length b \<le> limit"
    by (auto simp: read_regular_limited_def Let_def bindM_return_iff ensureM_apply monad_simps split: if_splits)
  have "f = join p n" using f assms(2) by (rule open_regular_file_path)
  moreover have "lookup w1 = lookup w"
    using touches_open_regular_file_secure f by (rule reads_lookup)
  moreover have "lookup w1 f = Some m \<and> lookup w2 = lookup w1"
    using symlink_metadata_Inr [OF m(1)] .
  moreover obtain a where "lookup w2 f = Some (RegularFile a all)" using read_handle_Inr [OF rd] by blast
  ultimately show ?thesis using b m(2) by auto
qed

subsection \<open>The selector is a durable cell\<close>

lemma strip_prefix_join: "strip_prefix (versions_dir e) t = Some r \<longleftrightarrow> t = versions_dir e @ r"
  by simp

lemma parse_canonical_Inr: "parse_canonical_version e s = Inr v \<Longrightarrow> version_string e v = s"
  by (auto simp: parse_canonical_version_def)

lemma read_symlink_exact:
  assumes "read_symlink h p w = (Inr r, w')"
  shows "case r of None \<Rightarrow> lookup w p = None | Some t \<Rightarrow> lookup w p = Some (Symlink t)"
proof -
  obtain m w1 where meta: "symlink_metadata p w = (m, w1)" by fastforce
  show ?thesis
  proof (cases m)
    case (Inl k)
    with assms meta have "k = NotFound \<and> r = None"
      by (auto simp: read_symlink_def bindM_return_iff ensureM_apply throwM_apply returnM_apply split: if_splits)
    with symlink_metadata_cases(3) meta Inl show ?thesis by auto
  next
    case (Inr n)
    with meta have n: "lookup w p = Some n" "lookup w1 = lookup w"
      using symlink_metadata_Inr by blast+
    from assms meta Inr obtain t where t: "r = Some t" "read_link p w1 = (Inr t, w')"
      by (auto simp: read_symlink_def bindM_return_iff throwM_apply returnM_apply split: if_splits)
    from t(2) have "lookup w1 p = Some (Symlink t)"
      unfolding read_link_def by (auto elim!: io_cases split: option.splits node.splits)
    with n t show ?thesis by simp
  qed
qed

lemma read_pointer_unix_exact:
  assumes "read_pointer_unix e w = (Inr r, w')" and "\<not> h_windows (e_host e)"
  shows "case r of None \<Rightarrow> lookup w (e_command e) = None
    | Some v \<Rightarrow> lookup w (e_command e) = Some (Symlink (version_payload e v))"
proof -
  from assms(1) obtain t w1 where t: "read_symlink (e_host e) (e_command e) w = (Inr t, w1)"
    by (auto simp: read_pointer_unix_def bindM_return_iff)
  note link = read_symlink_exact [OF t]
  show ?thesis
  proof (cases t)
    case None
    with assms(1) t link show ?thesis
      by (auto simp: read_pointer_unix_def bindM_return_iff returnM_apply)
  next
    case (Some target)
    with assms t have "\<exists>v. r = Some v \<and> target = version_payload e v"
      by (auto simp: read_pointer_unix_def bindM_return_iff ensureM_apply monad_simps same_path_def split: if_splits)
    with Some link show ?thesis by auto
  qed
qed

lemma read_pointer_windows_exact:
  fixes e :: "('v, 'z) env_scheme"
  assumes "read_pointer_windows e w = (Inr r, w')" and "canonical_path (h_windows (e_host e)) (e_root e)"
  shows "case r of None \<Rightarrow> lookup w (active_path e) = None
    | Some v \<Rightarrow> length (version_string e v) \<le> 128
        \<and> (\<exists>a. lookup w (active_path e) = Some (RegularFile a (version_string e v)))"
proof -
  obtain m w1 where meta: "symlink_metadata (active_path e) w = (m, w1)" by fastforce
  show ?thesis
  proof (cases m)
    case (Inl k)
    with assms meta have "k = NotFound \<and> r = None"
      by (auto simp: read_pointer_windows_def bindM_return_iff ensureM_apply returnM_apply split: if_splits)
    with symlink_metadata_cases(3) meta Inl show ?thesis by auto
  next
    case (Inr n)
    with meta have n: "lookup w1 = lookup w" using symlink_metadata_Inr by blast
    from assms(1) meta Inr obtain bad w2 b w3 raw v where
      bad: "(if is_symlink n then returnM True
         else bindM (liftIO (is_reparse_point (e_host e) (active_path e)))
                (\<lambda>reparse. returnM (reparse \<or> \<not> is_file n)) :: ('v, bool) inst) w1 = (Inr bad, w2)" and
      rd: "read_regular_limited e (active_path e) 128 w2 = (Inr b, w3)" and
      raw: "from_utf8 b = Some raw" "parse_canonical_version e raw = Inr v" and r: "r = Some v"
      by (simp add: read_pointer_windows_def bindM_return_iff ensureM_apply liftE_apply returnM_apply
          split: if_splits) blast+
    have v: "b = version_string e v"
      using from_utf8_Some [OF raw(1)] parse_canonical_Inr [OF raw(2)] by simp
    have "touches {} (if is_symlink n then returnM True
         else bindM (liftIO (is_reparse_point (e_host e) (active_path e)))
                (\<lambda>reparse. returnM (reparse \<or> \<not> is_file n)) :: ('v, bool) inst)"
      by (intro touches_intros)
    from reads_lookup [OF this bad] have "lookup w2 = lookup w1" .
    moreover obtain a where "lookup w2 (active_path e) = Some (RegularFile a b)" "length b \<le> 128"
      using read_regular_limited_exact [OF rd [unfolded active_path_def] assms(2)]
      unfolding active_path_def by blast
    ultimately show ?thesis using v n r by simp
  qed
qed

lemma switch_pointer_outcome:
  "valid (\<lambda>w. lookup w (selector_path e) = x) (switch_pointer e v)
     (\<lambda>_ w. points_to e v (lookup w (selector_path e)))
     (\<lambda>w. lookup w (selector_path e) = x \<or> points_to e v (lookup w (selector_path e)))"
    (is "valid ?P _ ?Q ?E")
proof -
  have check: "valid ?P (liftIO (ensure_regular_file (e_host e) (version_payload e v))) (\<lambda>_. ?P) ?E"
    by (rule valid_liftIO, rule valid_at [where I = "\<lambda>n. n = x" and S = "{}"]) (auto intro: touches_intros)
  show ?thesis
  proof (cases "h_windows (e_host e)")
    case True
    have "valid ?P (liftIO (atomic_replace_file (e_host e) (active_path e) (version_string e v))) ?Q ?E"
      unfolding selector_path_def points_to_def atomic_replace_file_def using True
      by (simp add: valid_liftIO atomic_replace_outcome)
    with True check show ?thesis unfolding switch_pointer_def by (auto intro: valid_bind)
  next
    case False
    have "valid ?P (liftIO (atomic_switch_symlink (e_host e) (e_command e) (version_payload e v))) ?Q ?E"
      unfolding selector_path_def points_to_def using False
      by (simp add: valid_liftIO atomic_switch_outcome)
    with False check show ?thesis unfolding switch_pointer_def by (auto intro: valid_bind)
  qed
qed

lemma points_to_unique: "semver_ok e \<Longrightarrow> points_to e v n \<Longrightarrow> points_to e v' n \<Longrightarrow> v = v'"
  by (auto simp: points_to_def version_payload_def version_dir_def version_string_inject split: if_splits)

lemma points_to_some: "points_to e v n \<Longrightarrow> n \<noteq> None"
  by (auto simp: points_to_def split: if_splits)

interpretation selector: durable_cell "selector_path e" "temp_paths (selector_path e)" "env_ok e"
  "switch_pointer e" "read_pointer_unlocked e" "points_to e" for e :: "('v, 'z) env_scheme"
proof
  show "touches (insert (selector_path e) (temp_paths (selector_path e))) (switch_pointer e d)" for d
    by (intro touches_intros) auto
  fix w w' r assume ok: "env_ok e" and r: "read_pointer_unlocked e w = (Inr r, w')"
  have can: "canonical_path (h_windows (e_host e)) (e_root e)"
    using ok by (simp add: env_ok_def layout_ok_def)
  show "case r of None \<Rightarrow> lookup w (selector_path e) = None | Some d \<Rightarrow> points_to e d (lookup w (selector_path e))"
  proof (cases "h_windows (e_host e)")
    case True
    with r have "read_pointer_windows e w = (Inr r, w')" by (simp add: read_pointer_unlocked_def)
    from read_pointer_windows_exact [OF this can] True show ?thesis
      unfolding selector_path_def points_to_def by (cases r) auto
  next
    case False
    with r have "read_pointer_unix e w = (Inr r, w')" by (simp add: read_pointer_unlocked_def)
    from read_pointer_unix_exact [OF this False] False show ?thesis
      unfolding selector_path_def points_to_def by (cases r) auto
  qed
qed (rule temp_paths_like switch_pointer_outcome touches_read_pointer points_to_unique points_to_some;
     (assumption | erule env_okD))+

subsection \<open>Everything else stays away from the cells\<close>

definition protected :: "('v, 'z) env_scheme \<Rightarrow> path set" where
  "protected e = {selector_path e, pending_path e, install_state_path e}"

definition scaffold :: "('v, 'z) env_scheme \<Rightarrow> path set" where
  "scaffold e = {q. temp_like q \<or> (\<exists>v. prefix q (version_dir e v)) \<or> prefix q (staging_dir e)
     \<or> prefix (staging_dir e) q \<or> q = lock_path e
     \<or> (h_windows (e_host e) \<and> (prefix q (bin_dir e)
         \<or> (\<exists>par. parent (e_command e) = Some par \<and> prefix par q))) \<or> strict_prefix q (e_command e)}"

lemma parent_prefix: "parent q = Some p \<Longrightarrow> prefix p q"
  by (auto dest!: parent_Some)

lemma path_starts_with_prefix: "\<forall>c. e_component_eq e c c \<Longrightarrow> prefix base p \<Longrightarrow> path_starts_with e p base"
  by (auto simp: path_starts_with_def prefix_def list_all2_same)

lemma validate_command_pathD:
  assumes "validate_command_path e l = Inr ()" and "\<forall>c. e_component_eq e c c"
  shows "\<not> prefix (e_command e) (e_root e)"
    and "\<forall>q \<in> {active_path e, lock_path e, staging_dir e, versions_dir e, install_state_path e, pending_path e}.
       \<not> prefix q (e_command e)"
  using assms(1) path_starts_with_prefix [OF assms(2)]
  by (auto simp: validate_command_path_def Let_def)

lemma layout_okD:
  assumes "layout_ok e"
  shows "canonical_path (h_windows (e_host e)) (e_root e)"
    and "canonical_path (h_windows (e_host e)) (e_command e)" and "\<not> temp_like (e_command e)"
    and "\<not> prefix (e_command e) (e_root e)"
    and "\<forall>q \<in> {active_path e, lock_path e, staging_dir e, versions_dir e, install_state_path e, pending_path e}.
       \<not> prefix q (e_command e)"
proof -
  have refl: "\<forall>c. e_component_eq e c c" using assms by (simp add: layout_ok_def)
  obtain l where l: "validate_command_path e l = Inr ()"
    using assms by (auto simp: layout_ok_def is_ok_iff validate_configuration_def split: if_splits)
  show "canonical_path (h_windows (e_host e)) (e_root e)"
    and "canonical_path (h_windows (e_host e)) (e_command e)" and "\<not> temp_like (e_command e)"
    using assms by (simp_all add: layout_ok_def)
  from validate_command_pathD [OF l refl] show "\<not> prefix (e_command e) (e_root e)"
    and "\<forall>q \<in> {active_path e, lock_path e, staging_dir e, versions_dir e, install_state_path e, pending_path e}.
       \<not> prefix q (e_command e)" by blast+
qed

lemma prefix_join_iff: "prefix q (join p n) \<longleftrightarrow> q = join p n \<or> prefix q p"
  by (auto simp: join_def)

lemma join_not_prefix [simp]: "\<not> prefix (join p n) p"
  by (auto simp: join_def prefix_def)

lemma prefix_join_join [simp]: "prefix (join p m) (join p n) \<longleftrightarrow> m = n"
  by (auto simp: join_def)

lemma temp_like_join [simp]: "temp_like (join p n) \<longleftrightarrow> prefix ''.'' n \<and> suffix ''.tmp'' n"
  by (simp add: temp_like_def)

lemmas layout_defs = versions_dir_def staging_dir_def version_dir_def install_state_path_def
  pending_path_def active_path_def bin_dir_def lock_path_def

text \<open>On Windows the command's directory lies as deep as \<^verbatim>\<open>bin\<close>, so no file of the root is below it.\<close>

lemma root_file_not_beside_command:
  assumes "layout_ok e" and "h_windows (e_host e)" and "parent (e_command e) = Some par"
    and "n = ''active'' \<or> n = ''install.json'' \<or> n = ''pending-activation.json''"
  shows "\<not> prefix par (join (e_root e) n)"
proof
  assume pre: "prefix par (join (e_root e) n)"
  from assms(1,2) obtain l where "validate_command_path e (Some l) = Inr ()"
    by (auto simp: layout_ok_def is_ok_iff validate_configuration_def)
  with assms(3) have "same_path e par (bin_dir e)"
    by (auto simp: validate_command_path_def Let_def)
  with assms(2) have "length par = length (join (e_root e) n)"
    by (auto simp: same_path_def layout_defs join_def dest: list_all2_lengthD)
  with pre have "par = join (e_root e) n" by (auto simp: prefix_def)
  with assms(3) have "prefix (join (e_root e) n) (e_command e)" using parent_prefix by blast
  then show False using layout_okD(5) [OF assms(1)] assms(4) by (auto simp: layout_defs)
qed

lemma root_file_not_scaffold:
  assumes "layout_ok e" and "n = ''active'' \<or> n = ''install.json'' \<or> n = ''pending-activation.json''"
  shows "join (e_root e) n \<notin> scaffold e"
proof -
  have "\<not> prefix (join (e_root e) n) (e_command e)"
    using layout_okD(5) [OF assms(1)] assms(2) by (auto simp: layout_defs)
  moreover have "\<not> (h_windows (e_host e) \<and> (\<exists>par. parent (e_command e) = Some par \<and> prefix par (join (e_root e) n)))"
    using root_file_not_beside_command [OF assms(1) _ _ assms(2)] by blast
  moreover have "\<not> prefix (staging_dir e) (join (e_root e) n)"
    using assms(2) by (auto simp: layout_defs)
  moreover have "n \<noteq> ''versions'' \<and> n \<noteq> ''.staging'' \<and> n \<noteq> ''bin'' \<and> n \<noteq> ''.lock''
     \<and> \<not> prefix ''.'' n" using assms(2) by auto
  ultimately show ?thesis
    by (auto simp: scaffold_def layout_defs prefix_join_iff)
qed

lemma command_not_scaffold:
  assumes "layout_ok e" and "\<not> h_windows (e_host e)"
  shows "e_command e \<notin> scaffold e"
proof -
  note d = layout_okD [OF assms(1)]
  have "e_command e \<noteq> q \<and> \<not> prefix q (e_command e)"
    if "q \<in> {active_path e, lock_path e, staging_dir e, versions_dir e, install_state_path e, pending_path e}" for q
    using d(5) that by blast
  note this [of "lock_path e"] this [of "staging_dir e"] this [of "versions_dir e"]
  moreover have "\<not> prefix (e_command e) (version_dir e v)" for v
  proof
    assume "prefix (e_command e) (version_dir e v)"
    then have "e_command e = version_dir e v \<or> prefix (e_command e) (versions_dir e)"
      by (simp add: version_dir_def prefix_join_iff)
    then show False
      using d(4,5) by (auto simp: version_dir_def versions_dir_def prefix_join_iff)
  qed
  moreover have "\<not> prefix (versions_dir e) (e_command e)" "\<not> prefix (staging_dir e) (e_command e)"
    using d(5) by auto
  moreover have "\<not> prefix (e_command e) (staging_dir e)"
    using d(4,5) by (auto simp: staging_dir_def prefix_join_iff)
  ultimately show ?thesis
    using d(3) assms(2) unfolding scaffold_def by simp
qed

lemma protected_not_scaffold: "layout_ok e \<Longrightarrow> q \<in> protected e \<Longrightarrow> q \<notin> scaffold e"
  using root_file_not_scaffold [of e "''active''"] root_file_not_scaffold [of e "''install.json''"]
    root_file_not_scaffold [of e "''pending-activation.json''"] command_not_scaffold [of e]
  by (cases "h_windows (e_host e)") (auto simp: protected_def selector_path_def layout_defs)

text \<open>A new version is renamed to its place below \<^verbatim>\<open>versions\<close>.\<close>

definition workspace :: "('v, 'z) env_scheme \<Rightarrow> path set" where
  "workspace e = scaffold e \<union> {q. prefix (versions_dir e) q}"

lemma touches_workspace: "touches (scaffold e) m \<Longrightarrow> touches (workspace e) m"
  by (erule touches_mono) (auto simp: workspace_def)

lemma protected_not_workspace: "layout_ok e \<Longrightarrow> q \<in> protected e \<Longrightarrow> q \<notin> workspace e"
  using protected_not_scaffold [of e q] layout_okD(5) [of e]
  by (auto simp: workspace_def protected_def selector_path_def layout_defs prefix_join_iff split: if_splits)

text \<open>Private directories: what creating a missing one may touch.\<close>

lemma canonical_parent: "canonical_path b p \<Longrightarrow> parent p = Some q \<Longrightarrow> canonical_path b q"
  apply (erule canonical_cases)
  subgoal for cs by (cases cs rule: rev_cases) (auto simp: parent_def split: component.splits)
  subgoal for x cs by (cases cs rule: rev_cases) (auto simp: parent_def split: component.splits)
  done

lemma touches_ensure_private_dir:
  assumes "canonical_path (h_windows h) p" and "{q. prefix q p} \<subseteq> S"
  shows "touches S (ensure_private_dir h p)"
proof (cases "h_windows h")
  case True
  have "touches S (create_private_directory h p sd)" for sd
    using assms canonical_parent canonical_absolute_normalized by (intro touches_create_private_directory) blast+
  with True show ?thesis
    unfolding ensure_private_dir_def ensure_private_dir_windows_def
    by (auto intro!: touches_intros)
next
  case False
  with assms show ?thesis
    unfolding ensure_private_dir_def ensure_private_dir_unix_def
    by (auto intro!: touches_intros)
qed

text \<open>The operations of the installer that are not stores of a cell.\<close>

lemma scaffold_dirs:
  "{q. prefix q (e_root e)} \<subseteq> scaffold e" "{q. prefix q (versions_dir e)} \<subseteq> scaffold e"
  "{q. prefix q (version_dir e v)} \<subseteq> scaffold e" "{q. prefix q (staging_dir e)} \<subseteq> scaffold e"
  "h_windows (e_host e) \<Longrightarrow> {q. prefix q (bin_dir e)} \<subseteq> scaffold e"
  "prefix (staging_dir e) p \<Longrightarrow> {q. prefix p q} \<subseteq> scaffold e"
  by (auto simp: scaffold_def version_dir_def versions_dir_def prefix_join_iff
      intro: prefix_order.trans)

lemma canonical_layout:
  assumes "layout_ok e"
  shows "canonical_path (h_windows (e_host e)) (versions_dir e)"
    "canonical_path (h_windows (e_host e)) (version_dir e v)"
    "canonical_path (h_windows (e_host e)) (staging_dir e)" "canonical_path (h_windows (e_host e)) (bin_dir e)"
  using layout_okD(1) [OF assms] by (simp_all add: layout_defs)

lemma touches_private_dirs:
  assumes "layout_ok e"
  shows "touches (scaffold e) (ensure_private_dir (e_host e) (e_root e))"
    and "touches (scaffold e) (ensure_private_dir (e_host e) (versions_dir e))"
    and "touches (scaffold e) (ensure_private_dir (e_host e) (version_dir e v))"
    and "touches (scaffold e) (ensure_private_dir (e_host e) (staging_dir e))"
    and "h_windows (e_host e) \<Longrightarrow> touches (scaffold e) (ensure_private_dir (e_host e) (bin_dir e))"
  using canonical_layout [OF assms] layout_okD(1) [OF assms] scaffold_dirs [of e]
  by (simp_all add: touches_ensure_private_dir)

lemma command_parent:
  assumes "layout_ok e" and "h_windows (e_host e)"
  obtains par where "parent (e_command e) = Some par"
  using assms by (auto simp: layout_ok_def is_ok_iff validate_configuration_def validate_command_path_def Let_def)

lemma beside_command_scaffold:
  "h_windows (e_host e) \<Longrightarrow> parent (e_command e) = Some par \<Longrightarrow> {q. prefix par q} \<subseteq> scaffold e"
  by (auto simp: scaffold_def)

lemma command_scaffold: "layout_ok e \<Longrightarrow> h_windows (e_host e) \<Longrightarrow> e_command e \<in> scaffold e"
  using beside_command_scaffold parent_prefix by (metis command_parent mem_Collect_eq subsetD)

lemma touches_fault [touches_intros]: "touches S (fault point)"
  unfolding fault_def by (intro touches_intros touches_io) simp

lemma touches_random_id [touches_intros]: "touches S (random_id e)"
  unfolding random_id_def by (intro touches_intros)

lemma touches_verify_file_digest [touches_intros]: "touches S (verify_file_digest e p n d)"
  unfolding verify_file_digest_def by (intro touches_intros)

lemma touches_sync_affected [touches_intros]: "touches S (sync_affected_parents e)"
  unfolding sync_affected_parents_def Let_def by (intro touches_intros)

lemma touches_exact_members [touches_intros]: "touches S (validate_exact_version_members e dir t)"
  unfolding validate_exact_version_members_def Let_def by (intro touches_intros)

lemma touches_version_dir_inner:
  "touches S (ensure_private_dir (e_host e) dir) \<Longrightarrow> touches S (verify_version_dir_inner e dir i)"
  unfolding verify_version_dir_inner_def Let_def by (intro touches_intros)

lemma touches_verify_final: "layout_ok e \<Longrightarrow> touches (scaffold e) (verify_final_version e v i)"
  unfolding verify_final_version_def
  by (intro touches_intros touches_version_dir_inner touches_private_dirs)

lemma touches_launcher_record [touches_intros]: "touches S (verify_installed_launcher_record e l)"
  unfolding verify_installed_launcher_record_def by (intro touches_intros)

lemma touches_installed_launcher [touches_intros]: "touches S (verify_installed_launcher e i)"
  unfolding verify_installed_launcher_def by (intro touches_intros)

lemma touches_launcher_for: "layout_ok e \<Longrightarrow> touches (scaffold e) (launcher_ownership_for e v prior)"
  unfolding launcher_ownership_for_def Let_def by (intro touches_intros touches_verify_final)

lemma touches_retained_loop: "layout_ok e \<Longrightarrow> touches (scaffold e) (retained_launcher_loop e ps)"
  by (induction e ps rule: retained_launcher_loop.induct) (auto intro!: touches_intros touches_verify_final)

lemma touches_retained: "layout_ok e \<Longrightarrow> touches (scaffold e) (retained_launcher_ownership e)"
  unfolding retained_launcher_ownership_def by (intro touches_intros touches_retained_loop)

lemma touches_prove_retained: "layout_ok e \<Longrightarrow> touches (scaffold e) (prove_retained_launcher_ownership e)"
  unfolding prove_retained_launcher_ownership_def by (intro touches_intros touches_retained)

lemma touches_command_owned: "layout_ok e \<Longrightarrow> touches (scaffold e) (ensure_command_owned e a i)"
  unfolding ensure_command_owned_def Let_def
  by (intro touches_intros touches_verify_final touches_prove_retained)

lemma touches_require_managed: "layout_ok e \<Longrightarrow> touches (scaffold e) (require_managed_current e)"
  unfolding require_managed_current_def read_install_state_def
  by (intro touches_intros touches_verify_final touches_command_owned)

lemma touches_common_id: "layout_ok e \<Longrightarrow> touches (scaffold e) (common_installation_id e f ps)"
  by (induction e f ps rule: common_installation_id.induct)
    (auto intro!: touches_intros touches_verify_final)

lemma touches_choose_id: "layout_ok e \<Longrightarrow> touches (scaffold e) (choose_installation_id e v i)"
  unfolding choose_installation_id_def by (intro touches_intros touches_verify_final touches_common_id)

subsection \<open>The three cells at once\<close>

definition view :: "('v, 'z) env_scheme \<Rightarrow> world \<Rightarrow> node option \<times> node option \<times> node option" where
  "view e w = (lookup w (selector_path e), lookup w (pending_path e), lookup w (install_state_path e))"

lemma cells_distinct:
  assumes "layout_ok e"
  shows "selector_path e \<noteq> pending_path e" "selector_path e \<noteq> install_state_path e"
    "pending_path e \<noteq> install_state_path e"
  using layout_okD(5) [OF assms] by (auto simp: selector_path_def layout_defs)

lemma cells_not_temp:
  assumes "layout_ok e"
  shows "\<not> temp_like (selector_path e)" "\<not> temp_like (pending_path e)" "\<not> temp_like (install_state_path e)"
  using protected_not_scaffold [OF assms] unfolding protected_def scaffold_def by blast+

lemma valid_view_workspace:
  assumes "layout_ok e" and "touches (workspace e) m" and "\<And>w. P (view e w) \<Longrightarrow> E w"
  shows "valid (\<lambda>w. P (view e w)) m (\<lambda>_ w. P (view e w)) E"
proof -
  have "valid (\<lambda>w. P (view e w)) m (\<lambda>_ w. P (view e w)) (\<lambda>w. P (view e w))"
  proof (rule valid_touches [OF assms(2)])
    fix w w' assume "P (view e w)" and "\<forall>p. p \<notin> workspace e \<longrightarrow> lookup w' p = lookup w p"
    moreover from this(2) have "view e w' = view e w"
      using protected_not_workspace [OF assms(1)] by (simp add: view_def protected_def)
    ultimately show "P (view e w')" by simp
  qed
  then show ?thesis by (rule valid_post) (use assms(3) in auto)
qed

lemma valid_view:
  assumes "layout_ok e" and "touches (scaffold e) m" and "\<And>w. P (view e w) \<Longrightarrow> E w"
  shows "valid (\<lambda>w. P (view e w)) m (\<lambda>_ w. P (view e w)) E"
  using assms(1) touches_workspace [OF assms(2)] assms(3) by (rule valid_view_workspace)

lemma write_pending_view:
  assumes "env_ok e"
  shows "valid (\<lambda>w. view e w = (s, x, i)) (write_pending e p)
     (\<lambda>_ w. \<exists>x'. view e w = (s, x', i) \<and> decodes (pending_of_json e) p x')
     (\<lambda>w. view e w = (s, x, i) \<or> (\<exists>x'. view e w = (s, x', i) \<and> decodes (pending_of_json e) p x'))"
  using pending.store_crash [OF assms] cells_distinct [OF env_okD(1) [OF assms]]
    cells_not_temp [OF env_okD(1) [OF assms]]
  by (intro validI) (fastforce simp: view_def)+

lemma write_install_view:
  assumes "env_ok e"
  shows "valid (\<lambda>w. view e w = (s, x, i)) (write_install_state e p)
     (\<lambda>_ w. \<exists>i'. view e w = (s, x, i') \<and> decodes (install_of_json e) p i')
     (\<lambda>w. view e w = (s, x, i) \<or> (\<exists>i'. view e w = (s, x, i') \<and> decodes (install_of_json e) p i'))"
  using installed.store_crash [OF assms] cells_distinct [OF env_okD(1) [OF assms]]
    cells_not_temp [OF env_okD(1) [OF assms]]
  by (intro validI) (fastforce simp: view_def)+

lemma switch_pointer_view:
  assumes "env_ok e"
  shows "valid (\<lambda>w. view e w = (s, x, i)) (switch_pointer e v)
     (\<lambda>_ w. \<exists>s'. view e w = (s', x, i) \<and> points_to e v s')
     (\<lambda>w. view e w = (s, x, i) \<or> (\<exists>s'. view e w = (s', x, i) \<and> points_to e v s'))"
  using selector.store_crash [OF assms] cells_distinct [OF env_okD(1) [OF assms]]
    cells_not_temp [OF env_okD(1) [OF assms]]
  by (intro validI) (fastforce simp: view_def)+

lemma remove_pending_cases:
  fixes e :: "('v, 'z) env_scheme"
  assumes "remove_pending e w = (r, w')"
  shows "(\<forall>q. q \<noteq> pending_path e \<longrightarrow> lookup w' q = lookup w q)
    \<and> (\<forall>u. r = Inr u \<longrightarrow> lookup w' (pending_path e) = None)
    \<and> (\<forall>k. r = Inl k \<longrightarrow> lookup w' = lookup w)"
proof -
  obtain m w1 where meta: "symlink_metadata (pending_path e) w = (m, w1)" by fastforce
  show ?thesis
  proof (cases m)
    case (Inl k)
    with assms meta symlink_metadata_cases(1,3) [OF meta] show ?thesis
      by (auto simp: remove_pending_def bindM_def tryM_def ensureM_apply split: if_splits)
  next
    case (Inr n)
    with meta have "lookup w1 = lookup w" using symlink_metadata_Inr by blast
    with assms meta Inr show ?thesis
      by (auto simp: remove_pending_def bindM_def tryM_def ensureM_apply liftIO_def map_errM_def
          split: if_splits prod.splits sum.splits dest!: remove_file_Inr remove_file_Inl)
  qed
qed

lemma remove_pending_view:
  assumes "layout_ok e"
  shows "valid (\<lambda>w. view e w = (s, x, i)) (remove_pending e) (\<lambda>_ w. view e w = (s, None, i))
     (\<lambda>w. view e w = (s, x, i))"
  using cells_distinct [OF assms] by (intro validI) (auto simp: view_def dest!: remove_pending_cases)

end
