(* ===== verification/Activation.thy ===== *)
theory Activation
  imports Self_Test Durable
begin

text \<open>
  The durable activation pipeline (\<^verbatim>\<open>src/src/install/activation.rs\<close>): self-test, journal, selector
  switch, state document, and what a crash at any of its steps leaves behind.
\<close>

definition remove_transaction_after_rename :: "('v, 'z) env_scheme \<Rightarrow> transaction \<Rightarrow> ('v, unit) inst" where
  "remove_transaction_after_rename e tx =
     bindM (liftIO (lexists (tx_dir tx))) (\<lambda>there.
     whenM there
       (bindM (liftIO (remove_dir_all (tx_dir tx))) (\<lambda>_.
        liftIO (sync_dir (e_host e) (staging_dir e)))))"

text \<open>\<open>random_id\<close> runs even when a transaction id is given: the argument of \<open>unwrap_or\<close> is eager.\<close>

definition activate_pointer_and_state ::
  "('v, 'z) env_scheme \<Rightarrow> probe \<Rightarrow> 'v option \<Rightarrow> 'v \<Rightarrow> string \<Rightarrow> 'v install_state option \<Rightarrow> string option
   \<Rightarrow> transaction option \<Rightarrow> ('v, 'v activation_result) inst" where
  "activate_pointer_and_state e probe from to installation_id prior_install transaction_id tx =
     bindM (case app_self_test (e_app e) of None \<Rightarrow> returnM ()
            | Some config \<Rightarrow> liftE (run_self_test e probe to config)) (\<lambda>_.
     bindM (fault SelfTested) (\<lambda>_.
     bindM (random_id e) (\<lambda>fresh.
     let pending = \<lparr>pa_schema_version = STATE_SCHEMA_VERSION, pa_from = from, pa_to = to,
                    pa_transaction_id = (case transaction_id of Some t \<Rightarrow> t | None \<Rightarrow> fresh)\<rparr> in
     bindM (write_pending e pending) (\<lambda>_.
     bindM (fault PendingWritten) (\<lambda>_.
     bindM (switch_pointer e to) (\<lambda>_.
     bindM (fault PointerSwitched) (\<lambda>_.
     bindM (launcher_ownership_for e to prior_install) (\<lambda>launcher.
     let inst = \<lparr>is_schema_version = STATE_SCHEMA_VERSION, is_active = Some to, is_previous = from,
                 is_installation_id = installation_id, is_launcher = launcher\<rparr> in
     bindM (write_install_state e inst) (\<lambda>_.
     bindM (fault InstallWritten) (\<lambda>_.
     bindM (remove_pending e) (\<lambda>_.
     bindM (fault PendingRemoved) (\<lambda>_.
     bindM (case tx of None \<Rightarrow> returnM () | Some t \<Rightarrow> remove_transaction_after_rename e t) (\<lambda>_.
     bindM (sync_affected_parents e) (\<lambda>_.
     bindM (fault ParentsSynced) (\<lambda>_.
     returnM \<lparr>ar_version = to, ar_changed = True\<rparr>)))))))))))))))"

subsection \<open>Crash consistency\<close>

text \<open>
  The documents an activation writes, and the five states of the selector, the journal and
  \<^verbatim>\<open>install.json\<close> it passes through; \<open>before\<close> is what the three cells held at the start.
\<close>

definition journal_for :: "'v option \<Rightarrow> 'v \<Rightarrow> 'v pending_activation \<Rightarrow> bool" where
  "journal_for from to pend \<longleftrightarrow> pa_from pend = from \<and> pa_to pend = to
     \<and> validate_pending pend = (Inr () :: 'v install_error + unit)"

definition record_for ::
  "('v, 'z) env_scheme \<Rightarrow> 'v option \<Rightarrow> 'v \<Rightarrow> string \<Rightarrow> 'v install_state \<Rightarrow> bool" where
  "record_for e from to i inst \<longleftrightarrow> is_active inst = Some to \<and> is_previous inst = from
     \<and> is_installation_id inst = i \<and> validate_install_state e inst = Inr ()"

datatype phase = Untouched | Journaled | Switched | Recorded | Settled

definition in_phase ::
  "('v, 'z) env_scheme \<Rightarrow> node option \<times> node option \<times> node option \<Rightarrow> 'v option \<Rightarrow> 'v \<Rightarrow> string
   \<Rightarrow> phase \<Rightarrow> node option \<times> node option \<times> node option \<Rightarrow> bool" where
  "in_phase e before from to i ph now \<longleftrightarrow>
     (let (s0, p0, i0) = before; (s, p, j) = now;
          journal = (\<exists>pend. journal_for from to pend \<and> decodes (pending_of_json e) pend p);
          record = (\<exists>inst. record_for e from to i inst \<and> decodes (install_of_json e) inst j)
      in case ph of
           Untouched \<Rightarrow> now = before
         | Journaled \<Rightarrow> s = s0 \<and> journal \<and> j = i0
         | Switched \<Rightarrow> points_to e to s \<and> journal \<and> j = i0
         | Recorded \<Rightarrow> points_to e to s \<and> journal \<and> record
         | Settled \<Rightarrow> points_to e to s \<and> p = None \<and> record)"

definition some_phase ::
  "('v, 'z) env_scheme \<Rightarrow> node option \<times> node option \<times> node option \<Rightarrow> 'v option \<Rightarrow> 'v \<Rightarrow> string
   \<Rightarrow> node option \<times> node option \<times> node option \<Rightarrow> bool" where
  "some_phase e before from to i now \<longleftrightarrow> (\<exists>ph. in_phase e before from to i ph now)"

lemma touches_remove_transaction:
  "prefix (staging_dir e) (tx_dir tx) \<Longrightarrow> touches (scaffold e) (remove_transaction_after_rename e tx)"
  unfolding remove_transaction_after_rename_def
  by (intro touches_intros scaffold_dirs) 

lemma phase_keep:
  "layout_ok e \<Longrightarrow> touches (scaffold e) m
   \<Longrightarrow> valid (\<lambda>w. in_phase e before from to i ph (view e w)) m
        (\<lambda>_ w. in_phase e before from to i ph (view e w)) (\<lambda>w. some_phase e before from to i (view e w))"
  by (erule (1) valid_view) (auto simp: some_phase_def)

text \<open>A step that either leaves the triple alone or changes it as \<open>N\<close> says.\<close>

lemma phase_advance:
  assumes step: "\<And>s x j. valid (\<lambda>w. view e w = (s, x, j)) m (\<lambda>_ w. N s x j (view e w))
      (\<lambda>w. view e w = (s, x, j) \<or> N s x j (view e w))"
    and next_phase: "\<And>s x j v. in_phase e before from to i ph (s, x, j) \<Longrightarrow> N s x j v
      \<Longrightarrow> in_phase e before from to i ph' v"
  shows "valid (\<lambda>w. in_phase e before from to i ph (view e w)) m
    (\<lambda>_ w. in_phase e before from to i ph' (view e w)) (\<lambda>w. some_phase e before from to i (view e w))"
proof (rule validI)
  fix w a w' assume p: "in_phase e before from to i ph (view e w)" and m: "m w = (Inr a, w')"
  obtain s x j where v: "view e w = (s, x, j)" by (rule prod_cases3)
  from valid_InrD [OF step _ m] v have "N s x j (view e w')" by blast
  with next_phase p v show "in_phase e before from to i ph' (view e w')" by metis
next
  fix w k w' assume p: "in_phase e before from to i ph (view e w)" and m: "m w = (Inl k, w')"
  obtain s x j where v: "view e w = (s, x, j)" by (rule prod_cases3)
  from valid_InlD [OF step _ m] v have "view e w' = (s, x, j) \<or> N s x j (view e w')" by blast
  with next_phase p v show "some_phase e before from to i (view e w')"
    unfolding some_phase_def by metis
qed

lemma phase_write_pending:
  assumes "env_ok e" and "pa_from pend = from" "pa_to pend = to"
  shows "valid (\<lambda>w. in_phase e before from to i Untouched (view e w)) (write_pending e pend)
    (\<lambda>_ w. in_phase e before from to i Journaled (view e w)) (\<lambda>w. some_phase e before from to i (view e w))"
proof (cases "validate_pending pend :: 'a install_error + unit")
  case (Inl k)
  then have "write_pending e pend = throwM k" by (simp add: write_pending_def)
  then show ?thesis by (auto simp: valid_def throwM_apply some_phase_def)
next
  case (Inr u)
  with assms(2,3) have "journal_for from to pend" by (simp add: journal_for_def validate_pending_def)
  then show ?thesis
    by (intro phase_advance [where N = "\<lambda>s x j v. \<exists>x'. v = (s, x', j) \<and> decodes (pending_of_json e) pend x'"]
        write_pending_view assms(1)) (auto simp: in_phase_def Let_def)
qed

lemma phase_switch:
  assumes "env_ok e"
  shows "valid (\<lambda>w. in_phase e before from to i Journaled (view e w)) (switch_pointer e to)
    (\<lambda>_ w. in_phase e before from to i Switched (view e w)) (\<lambda>w. some_phase e before from to i (view e w))"
  by (intro phase_advance [where N = "\<lambda>s x j v. \<exists>s'. v = (s', x, j) \<and> points_to e to s'"]
      switch_pointer_view assms) (auto simp: in_phase_def Let_def split: prod.splits)

lemma phase_write_install:
  assumes "env_ok e" and "is_active inst = Some to" "is_previous inst = from" "is_installation_id inst = i"
  shows "valid (\<lambda>w. in_phase e before from to i Switched (view e w)) (write_install_state e inst)
    (\<lambda>_ w. in_phase e before from to i Recorded (view e w)) (\<lambda>w. some_phase e before from to i (view e w))"
proof (cases "validate_install_state e inst")
  case (Inl k)
  then have "write_install_state e inst = throwM k" by (simp add: write_install_state_def)
  then show ?thesis by (auto simp: valid_def throwM_apply some_phase_def)
next
  case (Inr u)
  with assms(2-) have "record_for e from to i inst" by (simp add: record_for_def)
  then show ?thesis
    by (intro phase_advance [where N = "\<lambda>s x j v. \<exists>j'. v = (s, x, j') \<and> decodes (install_of_json e) inst j'"]
        write_install_view assms(1)) (auto simp: in_phase_def Let_def split: prod.splits)
qed

lemma phase_remove_pending:
  assumes "layout_ok e"
  shows "valid (\<lambda>w. in_phase e before from to i Recorded (view e w)) (remove_pending e)
    (\<lambda>_ w. in_phase e before from to i Settled (view e w)) (\<lambda>w. some_phase e before from to i (view e w))"
  by (intro phase_advance [where N = "\<lambda>s x j v. v = (s, None, j)"]
      valid_post [OF remove_pending_view [OF assms]]) (auto simp: in_phase_def Let_def split: prod.splits)

lemma activation_phases:
  assumes "env_ok e" and "\<forall>t. tx = Some t \<longrightarrow> prefix (staging_dir e) (tx_dir t)"
  shows "valid (\<lambda>w. in_phase e before from to i Untouched (view e w))
    (activate_pointer_and_state e probe from to i prior tid tx)
    (\<lambda>_ w. in_phase e before from to i Settled (view e w)) (\<lambda>w. some_phase e before from to i (view e w))"
proof -
  have lay: "layout_ok e" using assms(1) by (rule env_okD)
  note keep = valid_bind [OF phase_keep [OF lay]]
  show ?thesis
    unfolding activate_pointer_and_state_def Let_def
    apply (rule keep, (intro touches_intros)[1])
    apply (rule keep, rule touches_fault, rule keep, rule touches_random_id)
    apply (rule valid_bind [OF phase_write_pending [OF assms(1)]], simp, simp)
    apply (rule keep, rule touches_fault, rule valid_bind [OF phase_switch [OF assms(1)]])
    apply (rule keep, rule touches_fault, rule keep, rule touches_launcher_for [OF lay])
    apply (rule valid_bind [OF phase_write_install [OF assms(1)]], simp, simp, simp)
    apply (rule keep, rule touches_fault, rule valid_bind [OF phase_remove_pending [OF lay]])
    apply (rule keep, rule touches_fault)
    apply (rule keep, (intro touches_option touches_basic touches_remove_transaction; use assms(2) in simp)[1])
    apply (rule keep, rule touches_sync_affected, rule keep, rule touches_fault)
    apply (rule valid_return)
    done
qed

end
