(* ===== verification/Recovery.thy ===== *)
theory Recovery
  imports Activation
begin

text \<open>
  Crash recovery, journal reconciliation and staging cleanup (\<^verbatim>\<open>src/src/install/recovery.rs\<close>).
\<close>

subsection \<open>Staging\<close>

fun retained_launcher_matches_loop :: "('v, 'z) env_scheme \<Rightarrow> string \<Rightarrow> path list \<Rightarrow> ('v, bool) inst" where
  "retained_launcher_matches_loop e expected [] = returnM False"
| "retained_launcher_matches_loop e expected (p # ps) =
     bindM (liftIO dir_entry) (\<lambda>_.
     bindM (liftIO (symlink_metadata p)) (\<lambda>n.
     if \<not> is_dir n then retained_launcher_matches_loop e expected ps
     else
       bindM (read_json e (version_state_of_json e) (join p VERSION_FILE)) (\<lambda>found.
       (case found of
          None \<Rightarrow> retained_launcher_matches_loop e expected ps
        | Some state \<Rightarrow>
            (case vs_launcher state of
               Some l \<Rightarrow> if lm_sha256 l = expected then returnM True
                         else retained_launcher_matches_loop e expected ps
             | None \<Rightarrow> retained_launcher_matches_loop e expected ps)))))"

definition retained_launcher_matches :: "('v, 'z) env_scheme \<Rightarrow> string \<Rightarrow> ('v, bool) inst" where
  "retained_launcher_matches e expected =
     bindM (liftIO (lexists (versions_dir e))) (\<lambda>there.
     if \<not> there then returnM False
     else bindM (liftIO (fs_read_dir (versions_dir e))) (retained_launcher_matches_loop e expected))"

fun staging_marker_loop :: "path list \<Rightarrow> ('v, bool) inst" where
  "staging_marker_loop [] = returnM False"
| "staging_marker_loop (p # ps) =
     bindM (liftIO dir_entry) (\<lambda>_.
     bindM (liftIO (symlink_metadata p)) (\<lambda>n.
     bindM (if is_dir n then liftIO (lexists (join p LAUNCHER_CREATED_MARKER)) else returnM False) (\<lambda>marked.
     if marked then returnM True else staging_marker_loop ps)))"

definition staging_has_launcher_marker :: "('v, 'z) env_scheme \<Rightarrow> ('v, bool) inst" where
  "staging_has_launcher_marker e =
     bindM (liftIO (lexists (staging_dir e))) (\<lambda>there.
     if \<not> there then returnM False
     else bindM (liftIO (fs_read_dir (staging_dir e))) staging_marker_loop)"

text \<open>The orphaned launcher of an interrupted first install on Windows.\<close>

definition remove_orphan :: "('v, 'z) env_scheme \<Rightarrow> path \<Rightarrow> ('v, unit) inst" where
  "remove_orphan e staged =
     (let marker = join staged LAUNCHER_CREATED_MARKER in
      bindM (liftIO (lexists marker)) (\<lambda>marked.
      whenM marked
        (bindM (read_regular_limited e marker 128) (\<lambda>b.
         bindM (liftE (ok_orE (from_utf8 b) (Invalid ''staging launcher marker is not UTF-8''))) (\<lambda>expected.
         bindM (ensureM (lower_sha256 expected) (Invalid ''staging launcher marker has an invalid digest'')) (\<lambda>_.
         bindM (liftIO (lexists (e_command e))) (\<lambda>there.
         whenM there
           (bindM (liftIO (ensure_regular_file (e_host e) (e_command e))) (\<lambda>_.
            bindM (liftIO (sha256_file e (e_host e) (e_command e))) (\<lambda>actual.
            bindM (ensureM (actual = expected)
                     (Invalid ''orphaned launcher differs from its transaction marker'')) (\<lambda>_.
            bindM (retained_launcher_matches e expected) (\<lambda>kept.
            whenM (\<not> kept) (liftIO (remove_file (e_command e)))))))))))))))"

definition cleanup_entry :: "('v, 'z) env_scheme \<Rightarrow> bool \<Rightarrow> path \<Rightarrow> ('v, unit) inst" where
  "cleanup_entry e orphans p =
     bindM (liftIO dir_entry) (\<lambda>_.
     bindM (liftIO (symlink_metadata p)) (\<lambda>n.
     bindM (if is_symlink n \<or> \<not> is_dir n then returnM True else liftIO (is_reparse_point (e_host e) p)) (\<lambda>bad.
     bindM (ensureM (\<not> bad) (Invalid ''staging contains a non-directory entry'')) (\<lambda>_.
     bindM (whenM orphans (remove_orphan e p)) (\<lambda>_.
     liftIO (remove_dir_all p))))))"

definition cleanup_staging :: "('v, 'z) env_scheme \<Rightarrow> ('v, unit) inst" where
  "cleanup_staging e =
     (let staging = staging_dir e; h = e_host e in
      bindM (liftIO (lexists staging)) (\<lambda>there.
      whenM there
        (bindM (liftIO (ensure_private_dir h staging)) (\<lambda>_.
         bindM (if h_windows h then
                  bindM (read_pointer_unlocked e) (\<lambda>p.
                  if p = None then bindM (read_install_state e) (\<lambda>i. returnM (i = None))
                  else returnM False)
                else returnM False) (\<lambda>orphans.
         bindM (liftIO (fs_read_dir staging)) (\<lambda>entries.
         bindM (forM entries (cleanup_entry e orphans)) (\<lambda>_.
         liftIO (sync_dir h staging))))))))"

subsection \<open>Reconciliation\<close>

definition launcher_state_disagrees ::
  "('v, 'z) env_scheme \<Rightarrow> 'v install_state \<Rightarrow> launcher_metadata option \<Rightarrow> ('v, bool) inst" where
  "launcher_state_disagrees e inst recorded =
     (if h_windows (e_host e) then
        (case is_launcher inst of
           None \<Rightarrow> returnM True
         | Some l \<Rightarrow>
             if recorded = None \<or> \<not> lo_owned l \<or> lo_protocol l \<noteq> 1 then returnM True
             else bindM (tryM (verify_installed_launcher_record e l) :: ('v, 'v install_error + unit) inst) (\<lambda>r.
                  returnM (\<not> is_ok r)))
      else returnM (is_launcher inst \<noteq> None))"

text \<open>What every branch does once the journal is settled.\<close>

definition finish_pending :: "('v, 'z) env_scheme \<Rightarrow> ('v, unit) inst" where
  "finish_pending e =
     bindM (remove_pending e) (\<lambda>_.
     bindM (fault PendingRemoved) (\<lambda>_.
     bindM (sync_affected_parents e) (\<lambda>_.
     bindM (fault ParentsSynced) (\<lambda>_.
     cleanup_staging e))))"

definition recover_pending ::
  "('v, 'z) env_scheme \<Rightarrow> 'v pending_activation \<Rightarrow> 'v install_state option \<Rightarrow> 'v option \<Rightarrow> ('v, bool) inst" where
  "recover_pending e pend inst pointer =
     bindM (liftE (validate_pending pend)) (\<lambda>_.
     (case pointer of
        Some p \<Rightarrow>
          if p = pa_to pend then
            bindM (verify_final_version e (pa_to pend) (map_option is_installation_id inst)) (\<lambda>state.
            bindM (case inst of None \<Rightarrow> returnM ()
                   | Some i \<Rightarrow>
                       bindM (ensureM (is_installation_id i = vs_installation_id state)
                                (Invalid ''pending target installation id differs from install.json'')) (\<lambda>_.
                       verify_installed_launcher e i)) (\<lambda>_.
            bindM (launcher_ownership_for e (pa_to pend) inst) (\<lambda>launcher.
            bindM (write_install_state e
                     \<lparr>is_schema_version = STATE_SCHEMA_VERSION, is_active = Some (pa_to pend),
                      is_previous = pa_from pend, is_installation_id = vs_installation_id state,
                      is_launcher = launcher\<rparr>) (\<lambda>_.
            bindM (fault InstallWritten) (\<lambda>_.
            bindM (finish_pending e) (\<lambda>_. returnM True))))))
          else if Some p = pa_from pend then
            bindM (finish_pending e) (\<lambda>_. returnM (inst \<noteq> None))
          else throwM (Invalid ''pending activation pointer is neither from nor to'')
      | None \<Rightarrow>
          if pa_from pend = None then
            bindM (finish_pending e) (\<lambda>_. returnM (inst \<noteq> None))
          else throwM (Invalid ''pending activation lost its prior pointer'')))"

definition reconcile ::
  "('v, 'z) env_scheme \<Rightarrow> 'v install_state option \<Rightarrow> 'v \<Rightarrow> ('v, bool) inst" where
  "reconcile e inst pointer =
     bindM (verify_final_version e pointer None) (\<lambda>state.
     let metadata_matches = (case inst of None \<Rightarrow> False
           | Some i \<Rightarrow> vs_schema_version state = STATE_SCHEMA_VERSION \<and> is_active i = Some pointer
               \<and> is_installation_id i = vs_installation_id state) in
     bindM (case inst of
              None \<Rightarrow> returnM True
            | Some i \<Rightarrow>
                if is_schema_version i \<noteq> STATE_SCHEMA_VERSION \<or> is_active i \<noteq> Some pointer
                   \<or> is_installation_id i \<noteq> vs_installation_id state
                then returnM True
                else launcher_state_disagrees e i (vs_launcher state)) (\<lambda>stale.
     bindM (whenM (stale \<or> \<not> metadata_matches)
       (bindM (case Option.bind inst is_previous of
                 None \<Rightarrow> returnM None
               | Some prev \<Rightarrow>
                   if prev = pointer then returnM None
                   else bindM (tryM (verify_final_version e prev (Some (vs_installation_id state)))
                                 :: ('v, 'v install_error + 'v version_state) inst) (\<lambda>r.
                        returnM (if is_ok r then Some prev else None))) (\<lambda>previous.
        bindM (launcher_ownership_for e pointer inst) (\<lambda>launcher.
        bindM (write_install_state e
                 \<lparr>is_schema_version = STATE_SCHEMA_VERSION, is_active = Some pointer,
                  is_previous = previous, is_installation_id = vs_installation_id state,
                  is_launcher = launcher\<rparr>) (\<lambda>_.
        sync_affected_parents e))))) (\<lambda>_.
     bindM (cleanup_staging e) (\<lambda>_. returnM True))))"

definition recover_locked :: "('v, 'z) env_scheme \<Rightarrow> ('v, bool) inst" where
  "recover_locked e =
     bindM (ensure_private_layout e) (\<lambda>_.
     bindM (read_pending e) (\<lambda>pend.
     bindM (read_install_state e) (\<lambda>inst.
     bindM (case inst of None \<Rightarrow> returnM () | Some i \<Rightarrow> liftE (validate_install_state e i)) (\<lambda>_.
     bindM (read_pointer_unlocked e) (\<lambda>pointer.
     (case pend of
        Some p \<Rightarrow> recover_pending e p inst pointer
      | None \<Rightarrow>
          (case pointer of
             Some v \<Rightarrow> reconcile e inst v
           | None \<Rightarrow>
               bindM (ensureM (Option.bind inst is_active = None)
                        (Invalid ''install.json claims an active version but the authoritative pointer is missing'')) (\<lambda>_.
               bindM (whenM (h_windows (e_host e))
                        (bindM (staging_has_launcher_marker e) (\<lambda>marked. whenM marked (cleanup_staging e)))) (\<lambda>_.
               returnM False)))))))))"

text \<open>The second half of \<open>recover_if_managed\<close>, when the root exists.\<close>

definition recover_existing_root :: "('v, 'z) env_scheme \<Rightarrow> ('v, bool) inst" where
  "recover_existing_root e =
     bindM (liftIO (lexists (install_state_path e))) (\<lambda>has_install.
     bindM (liftIO (lexists (pending_path e))) (\<lambda>has_pending.
     bindM (pointer_path_exists e) (\<lambda>has_pointer.
     bindM (if h_windows (e_host e) then staging_has_launcher_marker e else returnM False) (\<lambda>has_staging.
     if \<not> has_install \<and> \<not> has_pending \<and> \<not> has_pointer \<and> \<not> has_staging then returnM False
     else
       bindM (liftIO (ensure_private_dir (e_host e) (e_root e))) (\<lambda>_.
       bindM (if \<not> h_windows (e_host e) \<and> has_pointer \<and> \<not> has_install \<and> \<not> has_pending
              then bindM (tryM (read_pointer_unlocked e) :: ('v, 'v install_error + 'v option) inst)
                     (\<lambda>r. returnM (\<not> is_ok r))
              else returnM False) (\<lambda>unrelated.
       if unrelated then returnM False
       else bindM (lock_existing e) (\<lambda>_. recover_locked e)))))))"

definition recover_if_managed :: "('v, 'z) env_scheme \<Rightarrow> ('v, bool) inst" where
  "recover_if_managed e =
     bindM (liftE (validate_configuration e)) (\<lambda>_.
     bindM (liftIO (lexists (e_root e))) (\<lambda>root.
     if \<not> root then returnM False else recover_existing_root e))"

subsection \<open>What recovery touches\<close>

lemma fs_read_dir_Inr: "fs_read_dir p w = (Inr ps, w') \<Longrightarrow> \<forall>q \<in> set ps. parent q = Some p"
  unfolding fs_read_dir_def by (erule io_cases) (auto split: sum.splits node.splits)

lemma touches_read_dir_bind:
  assumes "\<And>ps. \<forall>q \<in> set ps. prefix p q \<Longrightarrow> touches S (f ps)"
  shows "touches S (bindM (liftIO (fs_read_dir p)) f)"
proof (rule touches_bind_post, intro conjI allI impI)
  fix w r v q assume "liftIO (fs_read_dir p) w = (r, v)" and "q \<notin> S"
  then show "lookup v q = lookup w q"
    by (rule touchesD [rotated]) (intro touches_intros)
next
  fix w r v ps assume "liftIO (fs_read_dir p) w = (r, v)" and "r = Inr ps"
  then have "fs_read_dir p w = (Inr ps, v)" by simp
  from fs_read_dir_Inr [OF this] show "touches S (f ps)"
    by (intro assms ballI parent_prefix) simp
qed

lemma touches_matches_loop [touches_intros]: "touches S (retained_launcher_matches_loop e x ps)"
  by (induction e x ps rule: retained_launcher_matches_loop.induct) (auto intro!: touches_intros)

lemma touches_marker_loop [touches_intros]: "touches S (staging_marker_loop ps)"
  by (induction ps rule: staging_marker_loop.induct) (auto intro!: touches_intros)

lemma touches_staging_marker [touches_intros]: "touches S (staging_has_launcher_marker e)"
  unfolding staging_has_launcher_marker_def by (intro touches_intros)

lemma touches_remove_orphan [touches_intros]: "e_command e \<in> S \<Longrightarrow> touches S (remove_orphan e p)"
  unfolding remove_orphan_def retained_launcher_matches_def Let_def by (intro touches_intros)

lemma touches_cleanup_entry:
  assumes "layout_ok e" and "prefix (staging_dir e) p" and "b \<longrightarrow> h_windows (e_host e)"
  shows "touches (scaffold e) (cleanup_entry e b p)"
proof -
  have "b \<Longrightarrow> e_command e \<in> scaffold e" using assms by (simp add: command_scaffold)
  then show ?thesis
    unfolding cleanup_entry_def by (intro touches_intros scaffold_dirs(6) assms(2)) auto
qed

text \<open>Only on Windows can an entry's launcher be orphaned.\<close>

lemma touches_orphans_bind:
  assumes "touches S m" and "\<And>b. b \<longrightarrow> win \<Longrightarrow> touches S (f b)"
  shows "touches S (bindM (if win then m else returnM False) f)"
  using assms by (cases win) (auto intro: touches_bind)

lemma touches_cleanup_staging: "layout_ok e \<Longrightarrow> touches (scaffold e) (cleanup_staging e)"
  unfolding cleanup_staging_def Let_def read_install_state_def
  by (intro touches_bind [OF touches_liftIO [OF touches_lexists]] touches_when
      touches_bind [OF touches_liftIO [OF touches_private_dirs(4)]] touches_orphans_bind touches_read_dir_bind)
    (auto intro!: touches_intros touches_cleanup_entry)

subsection \<open>Consistent states of the three cells\<close>

text \<open>\<open>selected\<close> and \<open>recorded\<close> say that the selector and \<^verbatim>\<open>install.json\<close> describe a version, or
  that nothing is installed. A state is recoverable when it is settled, or when the journal explains
  the difference: the selector has its old or its new target, and the record lags behind at most.\<close>

definition selected :: "('v, 'z) env_scheme \<Rightarrow> 'v option \<Rightarrow> node option \<Rightarrow> bool" where
  "selected e v s \<longleftrightarrow> (case v of None \<Rightarrow> s = None | Some v \<Rightarrow> points_to e v s)"

definition recorded :: "('v, 'z) env_scheme \<Rightarrow> 'v option \<Rightarrow> node option \<Rightarrow> bool" where
  "recorded e v j \<longleftrightarrow> (v = None \<and> j = None) \<or> (\<exists>inst. decodes (install_of_json e) inst j \<and> is_active inst = v)"

definition settled ::
  "('v, 'z) env_scheme \<Rightarrow> node option \<times> node option \<times> node option \<Rightarrow> bool" where
  "settled e now \<longleftrightarrow> (case now of (s, p, j) \<Rightarrow> p = None \<and> (\<exists>v. selected e v s \<and> recorded e v j))"

definition interrupted ::
  "('v, 'z) env_scheme \<Rightarrow> 'v pending_activation \<Rightarrow> node option \<times> node option \<times> node option \<Rightarrow> bool" where
  "interrupted e pend now \<longleftrightarrow> (case now of (s, p, j) \<Rightarrow> decodes (pending_of_json e) pend p
     \<and> (selected e (pa_from pend) s \<and> recorded e (pa_from pend) j
        \<or> points_to e (pa_to pend) s \<and> (recorded e (pa_from pend) j \<or> recorded e (Some (pa_to pend)) j)))"

definition recoverable ::
  "('v, 'z) env_scheme \<Rightarrow> node option \<times> node option \<times> node option \<Rightarrow> bool" where
  "recoverable e now \<longleftrightarrow> settled e now \<or> (\<exists>pend. interrupted e pend now)"

lemma settled_recoverable: "settled e now \<Longrightarrow> recoverable e now"
  by (simp add: recoverable_def)

lemma selected_unique:
  "semver_ok e \<Longrightarrow> selected e v s \<Longrightarrow> selected e v' s \<Longrightarrow> v = v'"
  by (cases v; cases v') (auto simp: selected_def dest: points_to_some points_to_unique)

text \<open>Every phase of an activation that starts from a settled state with \<open>from\<close> selected is recoverable.\<close>

lemma phase_recoverable:
  assumes "settled e (s0, p0, j0)" and "semver_ok e" and "selected e from s0"
    and "some_phase e (s0, p0, j0) from to i now"
  shows "recoverable e now"
proof -
  obtain s p j where now: "now = (s, p, j)" by (rule prod_cases3)
  have rec: "recorded e from j0" and "p0 = None"
    using assms(1-3) selected_unique by (auto simp: settled_def)
  from assms(4) obtain ph where ph: "in_phase e (s0, p0, j0) from to i ph now" by (auto simp: some_phase_def)
  have recd: "recorded e (Some to) j" if "\<exists>inst. record_for e from to i inst \<and> decodes (install_of_json e) inst j"
    using that by (auto simp: recorded_def record_for_def)
  show ?thesis
  proof (cases ph)
    case Untouched
    with ph assms(1) show ?thesis by (auto simp: in_phase_def recoverable_def)
  next
    case Settled
    with ph now recd have "settled e now" by (auto simp: in_phase_def settled_def selected_def intro!: exI [of _ "Some to"])
    then show ?thesis by (rule settled_recoverable)
  next
    case Journaled
    with ph now rec assms(3) obtain pend where "interrupted e pend now"
      by (auto simp: in_phase_def interrupted_def journal_for_def)
    then show ?thesis by (auto simp: recoverable_def)
  next
    case Switched
    with ph now rec obtain pend where "interrupted e pend now"
      by (auto simp: in_phase_def interrupted_def journal_for_def)
    then show ?thesis by (auto simp: recoverable_def)
  next
    case Recorded
    with ph now recd obtain pend where "interrupted e pend now"
      by (auto simp: in_phase_def interrupted_def journal_for_def)
    then show ?thesis by (auto simp: recoverable_def)
  qed
qed

subsection \<open>Reading the cells\<close>

lemma read_view:
  assumes "touches {} m" and "\<And>w r w'. view e w = (s, x, j) \<Longrightarrow> m w = (Inr r, w') \<Longrightarrow> Q r"
  shows "valid (\<lambda>w. view e w = (s, x, j)) m (\<lambda>r w. view e w = (s, x, j) \<and> Q r) (\<lambda>w. view e w = (s, x, j))"
proof -
  have "view e w' = view e w" if "m w = (r, w')" for w r w'
    using reads_lookup [OF assms(1) that] by (simp add: view_def)
  with assms(2) show ?thesis by (intro validI) auto
qed

lemma read_cells_view:
  assumes "env_ok e"
  shows "valid (\<lambda>w. view e w = (s, x, j)) (read_pending e)
      (\<lambda>r w. view e w = (s, x, j) \<and> (case r of None \<Rightarrow> x = None | Some d \<Rightarrow> decodes (pending_of_json e) d x))
      (\<lambda>w. view e w = (s, x, j))"
    and "valid (\<lambda>w. view e w = (s, x, j)) (read_install_state e)
      (\<lambda>r w. view e w = (s, x, j) \<and> (case r of None \<Rightarrow> j = None | Some d \<Rightarrow> decodes (install_of_json e) d j))
      (\<lambda>w. view e w = (s, x, j))"
    and "valid (\<lambda>w. view e w = (s, x, j)) (read_pointer_unlocked e)
      (\<lambda>r w. view e w = (s, x, j) \<and> selected e r s) (\<lambda>w. view e w = (s, x, j))"
proof -
  have a: "case r of None \<Rightarrow> x = None | Some d \<Rightarrow> decodes (pending_of_json e) d x"
    if "view e w = (s, x, j)" "read_pending e w = (Inr r, w')" for w r w'
    using pending.load_exact [OF assms that(2)] that(1) by (auto simp: view_def split: option.splits)
  have b: "case r of None \<Rightarrow> j = None | Some d \<Rightarrow> decodes (install_of_json e) d j"
    if "view e w = (s, x, j)" "read_install_state e w = (Inr r, w')" for w r w'
    using installed.load_exact [OF assms that(2)] that(1) by (auto simp: view_def split: option.splits)
  have c: "selected e r s" if "view e w = (s, x, j)" "read_pointer_unlocked e w = (Inr r, w')" for w r w'
    using selector.load_exact [OF assms that(2)] that(1) by (auto simp: view_def selected_def split: option.splits)
  show "valid (\<lambda>w. view e w = (s, x, j)) (read_pending e)
      (\<lambda>r w. view e w = (s, x, j) \<and> (case r of None \<Rightarrow> x = None | Some d \<Rightarrow> decodes (pending_of_json e) d x))
      (\<lambda>w. view e w = (s, x, j))"
    by (rule read_view [OF pending.load_reads a])
  show "valid (\<lambda>w. view e w = (s, x, j)) (read_install_state e)
      (\<lambda>r w. view e w = (s, x, j) \<and> (case r of None \<Rightarrow> j = None | Some d \<Rightarrow> decodes (install_of_json e) d j))
      (\<lambda>w. view e w = (s, x, j))"
    by (rule read_view [OF installed.load_reads b])
  show "valid (\<lambda>w. view e w = (s, x, j)) (read_pointer_unlocked e)
      (\<lambda>r w. view e w = (s, x, j) \<and> selected e r s) (\<lambda>w. view e w = (s, x, j))"
    by (rule read_view [OF selector.load_reads c])
qed

subsection \<open>What recovery does to the cells\<close>

text \<open>The outcome of recovery from the triple \<open>(s, x, j)\<close>: the selector is never moved, success
  leaves no journal, and a recoverable state becomes settled, or stays recoverable on failure.\<close>

definition recovered ::
  "('v, 'z) env_scheme \<Rightarrow> node option \<times> node option \<times> node option
   \<Rightarrow> node option \<times> node option \<times> node option \<Rightarrow> bool" where
  "recovered e before now \<longleftrightarrow> fst now = fst before \<and> fst (snd now) = None
     \<and> (recoverable e before \<longrightarrow> settled e now)"

definition still_recoverable ::
  "('v, 'z) env_scheme \<Rightarrow> node option \<times> node option \<times> node option
   \<Rightarrow> node option \<times> node option \<times> node option \<Rightarrow> bool" where
  "still_recoverable e before now \<longleftrightarrow> fst now = fst before \<and> (recoverable e before \<longrightarrow> recoverable e now)"

lemma still_refl: "still_recoverable e v v"
  by (simp add: still_recoverable_def)

lemma recovered_still: "recovered e v v' \<Longrightarrow> still_recoverable e v v'"
  by (auto simp: recovered_def still_recoverable_def settled_recoverable)

lemma finish_pending_view:
  assumes "layout_ok e" and "recovered e v0 (s, None, j)" and "still_recoverable e v0 (s, x, j)"
  shows "valid (\<lambda>w. view e w = (s, x, j)) (finish_pending e) (\<lambda>_ w. recovered e v0 (view e w))
    (\<lambda>w. still_recoverable e v0 (view e w))"
proof -
  note keep = valid_view [where P = "recovered e v0" and E = "\<lambda>w. still_recoverable e v0 (view e w)", OF assms(1)]
  have "valid (\<lambda>w. recovered e v0 (view e w))
      (bindM (fault PendingRemoved) (\<lambda>_. bindM (sync_affected_parents e) (\<lambda>_.
       bindM (fault ParentsSynced) (\<lambda>_. cleanup_staging e))))
      (\<lambda>_ w. recovered e v0 (view e w)) (\<lambda>w. still_recoverable e v0 (view e w))"
    by (rule keep) (auto intro!: touches_intros touches_cleanup_staging assms(1) recovered_still)
  then show ?thesis
    unfolding finish_pending_def
    by (intro valid_bind [OF valid_post [OF remove_pending_view [OF assms(1)]]])
      (use assms(2,3) in \<open>auto elim: valid_pre\<close>)
qed

lemma write_install_records:
  assumes "env_ok e" and "is_active inst = v"
    and "still_recoverable e v0 (s, x, j)" and "\<And>j'. recorded e v j' \<Longrightarrow> still_recoverable e v0 (s, x, j')"
    and "\<And>j'. recorded e v j' \<Longrightarrow> valid (\<lambda>w. view e w = (s, x, j')) m Q (\<lambda>w. still_recoverable e v0 (view e w))"
  shows "valid (\<lambda>w. view e w = (s, x, j)) (bindM (write_install_state e inst) (\<lambda>_. m)) Q
    (\<lambda>w. still_recoverable e v0 (view e w))"
proof -
  have rec: "decodes (install_of_json e) inst j' \<Longrightarrow> recorded e v j'" for j'
    using assms(2) by (auto simp: recorded_def)
  have "valid (\<lambda>w. view e w = (s, x, j)) (write_install_state e inst)
      (\<lambda>_ w. \<exists>j'. view e w = (s, x, j') \<and> recorded e v j') (\<lambda>w. still_recoverable e v0 (view e w))"
    by (rule valid_post [OF write_install_view [OF assms(1)]]) (use rec assms(3,4) in auto)
  moreover have "valid (\<lambda>w. \<exists>j'. view e w = (s, x, j') \<and> recorded e v j') m Q (\<lambda>w. still_recoverable e v0 (view e w))"
    using assms(5) by (fastforce simp: valid_def)
  ultimately show ?thesis by (rule valid_bind)
qed

lemma keep_view:
  assumes "layout_ok e" and "touches (scaffold e) m" and "\<And>w. view e w = v0 \<Longrightarrow> E w"
    and "\<And>a. valid (\<lambda>w. view e w = v0) (f a) Q E"
  shows "valid (\<lambda>w. view e w = v0) (bindM m f) Q E"
  by (rule valid_bind [OF valid_view [where P = "\<lambda>v. v = v0", OF assms(1,2)] assms(4)]) (rule assms(3))

lemma look_view:
  assumes "valid (\<lambda>w. view e w = v0) m (\<lambda>r w. view e w = v0 \<and> R r) (\<lambda>w. view e w = v0)"
    and "\<And>w. view e w = v0 \<Longrightarrow> E w" and "\<And>r. R r \<Longrightarrow> valid (\<lambda>w. view e w = v0) (f r) Q E"
  shows "valid (\<lambda>w. view e w = v0) (bindM m f) Q E"
proof (rule valid_bind)
  show "valid (\<lambda>w. view e w = v0) m (\<lambda>r w. view e w = v0 \<and> R r) E"
    by (rule valid_post [OF assms(1)]) (simp_all add: assms(2))
  show "valid (\<lambda>w. view e w = v0 \<and> R a) (f a) Q E" for a
    using assms(3) [of a] by (cases "R a") (auto simp: valid_def)
qed

lemma keep_cells:
  assumes "layout_ok e" and "touches (scaffold e) m" and "still_recoverable e v0 (s, x, j)"
    and "\<And>a. valid (\<lambda>w. view e w = (s, x, j)) (f a) Q (\<lambda>w. still_recoverable e v0 (view e w))"
  shows "valid (\<lambda>w. view e w = (s, x, j)) (bindM m f) Q (\<lambda>w. still_recoverable e v0 (view e w))"
  by (rule keep_view [OF assms(1,2) _ assms(4)]) (simp add: assms(3))

lemma throw_cells:
  "still_recoverable e v0 (s, x, j)
   \<Longrightarrow> valid (\<lambda>w. view e w = (s, x, j)) (throwM k) Q (\<lambda>w. still_recoverable e v0 (view e w))"
  by (auto simp: valid_def throwM_apply)

lemma recover_pending_view:
  fixes e :: "('v, 'z) env_scheme"
  assumes ok: "env_ok e" and "decodes (pending_of_json e) pend x" and "selected e pointer s"
  shows "valid (\<lambda>w. view e w = (s, x, j)) (recover_pending e pend inst pointer)
    (\<lambda>_ w. recovered e (s, x, j) (view e w)) (\<lambda>w. still_recoverable e (s, x, j) (view e w))"
proof -
  note lay = env_okD(1) [OF ok] and sem = env_okD(3) [OF ok]
  note here = still_refl [of e "(s, x, j)"]
  note keep = keep_cells [OF lay _ here]
  have final: "valid (\<lambda>w. view e w = (s, x, j')) (bindM (finish_pending e) (\<lambda>_. returnM b))
      (\<lambda>_ w. recovered e (s, x, j) (view e w)) (\<lambda>w. still_recoverable e (s, x, j) (view e w))"
    if "recovered e (s, x, j) (s, None, j')" and "still_recoverable e (s, x, j) (s, x, j')" for j' b
    by (rule valid_bind [OF finish_pending_view [OF lay that]], rule valid_return)
  have pend: "\<exists>v. selected e v s \<and> recorded e v j"
    if "recoverable e (s, x, j)" "pa_from pend = pointer" "pointer \<noteq> Some (pa_to pend)"
  proof -
    have "\<not> settled e (s, x, j)" using assms(2) by (auto simp: settled_def dest: decodes_some)
    with that(1) obtain p where p: "interrupted e p (s, x, j)" by (auto simp: recoverable_def)
    with assms(2) have "p = pend" by (auto simp: interrupted_def dest: decodes_unique)
    moreover have "\<not> points_to e (pa_to pend) s"
      using assms(3) that(3) selected_unique [OF sem, of pointer s "Some (pa_to pend)"] by (auto simp: selected_def)
    ultimately show ?thesis using p that(2) by (auto simp: interrupted_def)
  qed
  have old: "recovered e (s, x, j) (s, None, j)" if "pa_from pend = pointer" "pointer \<noteq> Some (pa_to pend)"
    using pend that by (auto simp: recovered_def settled_def)
  have new: "recovered e (s, x, j) (s, None, j')" "still_recoverable e (s, x, j) (s, x, j')"
    if "pointer = Some (pa_to pend)" "recorded e (Some (pa_to pend)) j'" for j'
    using that assms(2,3)
    by (auto simp: recovered_def settled_def still_recoverable_def recoverable_def interrupted_def selected_def
        intro!: exI [of _ "Some (pa_to pend)"] exI [of _ pend])
  have rec_step: "valid (\<lambda>w. view e w = (s, x, j))
      (bindM (write_install_state e r) (\<lambda>_. bindM (fault InstallWritten) (\<lambda>_. bindM (finish_pending e) (\<lambda>_. returnM b))))
      (\<lambda>_ w. recovered e (s, x, j) (view e w)) (\<lambda>w. still_recoverable e (s, x, j) (view e w))"
    if "pointer = Some (pa_to pend)" "is_active r = Some (pa_to pend)" for r b
    by (rule write_install_records [OF ok that(2) here new(2) [OF that(1)]], assumption,
        rule keep_cells [OF lay touches_fault new(2) [OF that(1)]], assumption,
        rule final [OF new [OF that(1)]])
  show ?thesis
  proof (cases pointer)
    case None
    show ?thesis
      unfolding recover_pending_def None option.simps
      apply (rule keep, rule touches_basic, rule valid_if)
       apply (rule final [OF old here]; use None in simp)
      apply (rule throw_cells [OF here])
      done
  next
    case (Some p)
    show ?thesis
      unfolding recover_pending_def Some option.simps
      apply (rule keep, rule touches_basic, rule valid_if)
       apply (rule keep, rule touches_verify_final [OF lay], rule keep, (intro touches_intros)[1],
          rule keep, rule touches_launcher_for [OF lay], rule rec_step; use Some in simp)
      apply (rule valid_if)
       apply (rule final [OF old here]; use Some in auto)
      apply (rule throw_cells [OF here])
      done
  qed
qed

lemma touches_state_disagrees [touches_intros]: "touches S (launcher_state_disagrees e i r)"
  unfolding launcher_state_disagrees_def by (intro touches_intros)

lemma reconcile_view:
  fixes e :: "('v, 'z) env_scheme"
  assumes ok: "env_ok e" and "points_to e pointer s"
    and inst: "case inst of None \<Rightarrow> j = None | Some d \<Rightarrow> decodes (install_of_json e) d j"
  shows "valid (\<lambda>w. view e w = (s, None, j)) (reconcile e inst pointer)
    (\<lambda>_ w. recovered e (s, None, j) (view e w)) (\<lambda>w. still_recoverable e (s, None, j) (view e w))"
proof -
  note lay = env_okD(1) [OF ok]
  note here = still_refl [of e "(s, None, j)"]
  note keep = keep_cells [OF lay _ here]
  have new: "recovered e (s, None, j) (s, None, j')" if "recorded e (Some pointer) j'" for j'
    using that assms(2) by (auto simp: recovered_def settled_def selected_def intro!: exI [of _ "Some pointer"])
  have clean: "valid (\<lambda>w. view e w = (s, None, j')) (bindM (cleanup_staging e) (\<lambda>_. returnM True))
      (\<lambda>_ w. recovered e (s, None, j) (view e w)) (\<lambda>w. still_recoverable e (s, None, j) (view e w))"
    if "recorded e (Some pointer) j'" for j'
    by (rule keep_cells [OF lay touches_cleanup_staging [OF lay] recovered_still [OF new [OF that]]])
      (use new [OF that] in \<open>auto simp: valid_def monad_simps\<close>)
  have rewrite: "valid (\<lambda>w. view e w = (s, None, j))
      (bindM (bindM (write_install_state e r) (\<lambda>_. sync_affected_parents e)) (\<lambda>_. bindM (cleanup_staging e) (\<lambda>_. returnM True)))
      (\<lambda>_ w. recovered e (s, None, j) (view e w)) (\<lambda>w. still_recoverable e (s, None, j) (view e w))"
    if "is_active r = Some pointer" for r
    unfolding bindM_assoc
    by (rule write_install_records [OF ok that here recovered_still [OF new]], assumption,
        rule keep_cells [OF lay touches_sync_affected recovered_still [OF new]], assumption, rule clean)
  show ?thesis
    unfolding reconcile_def Let_def
    apply (rule keep, rule touches_verify_final [OF lay], rule keep, (intro touches_intros)[1])
    subgoal for state stale
    proof (cases "stale \<or> \<not> (case inst of None \<Rightarrow> False
           | Some i \<Rightarrow> vs_schema_version state = STATE_SCHEMA_VERSION \<and> is_active i = Some pointer
               \<and> is_installation_id i = vs_installation_id state)")
      case True
      then show ?thesis
        by (simp add: bindM_assoc)
          (rule keep, (intro touches_intros touches_verify_final lay)[1], rule keep, rule touches_launcher_for [OF lay],
           rule rewrite [unfolded bindM_assoc], simp)
    next
      case False
      then obtain i where i: "inst = Some i" "is_active i = Some pointer" by (auto split: option.splits)
      then have "recorded e (Some pointer) j" using inst by (auto simp: recorded_def)
      with False clean show ?thesis by simp
    qed
    done
qed

lemma touches_private_layout: "layout_ok e \<Longrightarrow> touches (scaffold e) (ensure_private_layout e)"
  unfolding ensure_private_layout_def validate_windows_command_parent_def Let_def
  by (intro touches_intros touches_private_dirs)

text \<open>Recovery under the lock, from any contents of the three cells.\<close>

lemma recover_locked_view:
  fixes e :: "('v, 'z) env_scheme"
  assumes ok: "env_ok e"
  shows "valid (\<lambda>w. view e w = (s, x, j)) (recover_locked e)
    (\<lambda>_ w. recovered e (s, x, j) (view e w)) (\<lambda>w. still_recoverable e (s, x, j) (view e w))"
proof -
  note lay = env_okD(1) [OF ok]
  note here = still_refl [of e "(s, x, j)"]
  note keep = keep_cells [OF lay _ here]
  note read = read_cells_view [OF ok, of s x j]
  have none: "recovered e (s, x, j) (s, x, j)" if "selected e None s" "x = None"
    "case inst of None \<Rightarrow> j = None | Some d \<Rightarrow> decodes (install_of_json e) d j" "Option.bind inst is_active = None" for inst
    using that by (auto simp: recovered_def settled_def selected_def recorded_def split: option.splits intro!: exI [of _ None])
  show ?thesis
    unfolding recover_locked_def
    apply (rule keep, rule touches_private_layout [OF lay], rule look_view [OF read(1)], simp add: here,
        rule look_view [OF read(2)], simp add: here)
    apply (rule keep, (intro touches_intros)[1], rule look_view [OF read(3)], simp add: here)
    subgoal for _ pend inst _ pointer
    proof (cases pend)
      case (Some p)
      assume "case pend of None \<Rightarrow> x = None | Some d \<Rightarrow> decodes (pending_of_json e) d x" "selected e pointer s"
      with Some recover_pending_view [OF ok] show ?thesis by simp
    next
      case None
      assume x: "case pend of None \<Rightarrow> x = None | Some d \<Rightarrow> decodes (pending_of_json e) d x"
        and inst: "case inst of None \<Rightarrow> j = None | Some d \<Rightarrow> decodes (install_of_json e) d j"
        and s: "selected e pointer s"
      show ?thesis
      proof (cases pointer)
        case (Some v)
        with s x None reconcile_view [OF ok _ inst] show ?thesis by (simp add: selected_def)
      next
        case pn: None
        have "valid (\<lambda>w. view e w = (s, x, j))
            (bindM (whenM (h_windows (e_host e))
                (bindM (staging_has_launcher_marker e) (\<lambda>marked. whenM marked (cleanup_staging e)))) (\<lambda>_. returnM False))
            (\<lambda>_ w. recovered e (s, x, j) (view e w)) (\<lambda>w. still_recoverable e (s, x, j) (view e w))"
          if "Option.bind inst is_active = None"
          by (rule keep, (intro touches_intros touches_cleanup_staging lay)[1])
            (use none [OF _ _ inst that] s x pn None in \<open>auto simp: valid_def monad_simps\<close>)
        with None pn here show ?thesis
          by (auto simp: ensureM_def throw_cells)
      qed
    qed
    done
qed

end
