(* ===== verification/Installer.thy ===== *)
theory Installer
  imports Recovery
begin

text \<open>
  The public operations of an \<open>Installation\<close> (\<^verbatim>\<open>src/src/install/activation.rs\<close>): install, update,
  rollback and check, each from its recovery at the start through download, staging and
  verification to the activation of \<open>Activation\<close>.
\<close>

subsection \<open>Metadata\<close>

definition liftRel :: "'a rel \<Rightarrow> ('v, 'a) inst" where
  "liftRel m = map_errM Release m"

definition version_le :: "('v, 'z) env_scheme \<Rightarrow> 'v \<Rightarrow> 'v \<Rightarrow> bool" where
  "version_le e v w \<longleftrightarrow> version_less e v w \<or> v = w"

definition repository_url :: "('v, 'z) env_scheme \<Rightarrow> 'v install_error + url" where
  "repository_url e = ok_orE (url_parse e (app_repository_url (e_app e))) (Invalid ''invalid release repository URL'')"

definition installer_exact_metadata :: "('v, 'z) env_scheme \<Rightarrow> 'v \<Rightarrow> ('v, 'v release_metadata) inst" where
  "installer_exact_metadata e v =
     bindM (liftE (repository_url e)) (\<lambda>u. liftRel (fetch_exact_metadata e (e_app e) u v (e_keys e)))"

definition installer_latest_metadata :: "('v, 'z) env_scheme \<Rightarrow> ('v, 'v release_metadata) inst" where
  "installer_latest_metadata e =
     bindM (liftE (repository_url e)) (\<lambda>u. liftRel (fetch_latest_metadata e (e_app e) u (e_keys e)))"

text \<open>Downloaded metadata are verified again before they are used.\<close>

definition verify_metadata :: "('v, 'z) env_scheme \<Rightarrow> 'v release_metadata \<Rightarrow> target \<Rightarrow> ('v, selected_asset) inst" where
  "verify_metadata e md t =
     bindM (ensureM (rm_version md = m_version (rm_manifest md))
              (Invalid ''release metadata version does not match its manifest'')) (\<lambda>_.
     bindM (ensureM (version_string e (m_version (rm_manifest md)) = version_string e (rm_version md))
              (Invalid ''release metadata version is not canonical'')) (\<lambda>_.
     bindM (liftR (verify_signature e (rm_manifest_bytes md) (rm_signature_bytes md))) (\<lambda>key_id.
     bindM (ensureM (key_id = rm_key_id md)
              (Invalid ''release signature result differs from downloaded metadata'')) (\<lambda>_.
     bindM (liftR (manifest_from_bytes e (e_app e) (rm_manifest_bytes md))) (\<lambda>parsed.
     bindM utc_now (\<lambda>now.
     bindM (liftR (ensure_not_expired e parsed now)) (\<lambda>_.
     bindM (ensureM (parsed = rm_manifest md)
              (Invalid ''downloaded release metadata changed after verification'')) (\<lambda>_.
     liftR (asset_for e (rm_manifest md) (e_app e) t)))))))))"

subsection \<open>Staging\<close>

definition create_transaction :: "('v, 'z) env_scheme \<Rightarrow> ('v, transaction) inst" where
  "create_transaction e =
     bindM (ensure_private_layout e) (\<lambda>_.
     bindM (random_id e) (\<lambda>i.
     let dir = join (staging_dir e) i; vdir = join dir ''version'' in
     bindM (liftIO (ensure_private_dir (e_host e) dir)) (\<lambda>_.
     bindM (liftIO (ensure_private_dir (e_host e) vdir)) (\<lambda>_.
     bindM (fault StagingCreated) (\<lambda>_.
     returnM \<lparr>tx_id = i, tx_dir = dir, tx_version_dir = vdir\<rparr>)))))"

text \<open>The launcher of a Windows installation: created once, afterwards only verified.\<close>

definition place_launcher :: "('v, 'z) env_scheme \<Rightarrow> transaction \<Rightarrow> launcher_info option \<Rightarrow> bool \<Rightarrow> ('v, unit) inst" where
  "place_launcher e tx chosen already_managed =
     (let h = e_host e in
      bindM (liftE (ok_orE chosen (Invalid ''Windows release is missing signed launcher metadata''))) (\<lambda>l.
      bindM (ensureM (l_protocol l = 1) (Invalid ''managed Windows installations require launcher protocol 1'')) (\<lambda>_.
      bindM (liftE (ok_orE (launcher_name (e_app e))
               (Invalid ''managed Windows installations require a configured launcher name''))) (\<lambda>name.
      let staged = join (tx_version_dir tx) name in
      bindM (liftIO (ensure_regular_file h staged)) (\<lambda>_.
      bindM (verify_file_digest e staged (l_size l) (l_sha256 l)) (\<lambda>_.
      bindM (liftIO (lexists (e_command e))) (\<lambda>there.
      bindM
        (if \<not> there then
           bindM (ensureM (\<not> already_managed)
                    (Invalid ''managed Windows launcher is missing and cannot be recreated by an update'')) (\<lambda>_.
           bindM (ensure_command_parent e) (\<lambda>_.
           bindM (liftIO (atomic_replace_file_with_mode h (join (tx_dir tx) LAUNCHER_CREATED_MARKER)
                    (l_sha256 l) (Some 0x180))) (\<lambda>_.
           bindM (liftIO (fs_read staged)) (\<lambda>b.
           liftIO (create_new_file h (e_command e) b None)))))
         else if \<not> already_managed then
           throwM (Invalid ''existing Windows launcher requires a proven managed owner'')
         else
           bindM (read_install_state e) (\<lambda>inst. case inst of
             Some i \<Rightarrow> verify_installed_launcher e i
           | None \<Rightarrow>
               bindM (prove_retained_launcher_ownership e) (\<lambda>proven.
               ensureM proven (Invalid ''existing Windows launcher ownership could not be re-established'')))) (\<lambda>_.
      liftIO (remove_file staged)))))))))"

definition write_downloaded_version ::
  "('v, 'z) env_scheme \<Rightarrow> transaction \<Rightarrow> 'v release_metadata \<Rightarrow> downloaded_archive \<Rightarrow> string \<Rightarrow> target \<Rightarrow> bool
   \<Rightarrow> ('v, unit) inst" where
  "write_downloaded_version e tx md archive installation_id t already_managed =
     (let h = e_host e in
      bindM (verify_metadata e md t) (\<lambda>chosen.
      let asset = sel_asset chosen; archive_path = join (tx_dir tx) (a_archive asset) in
      bindM (liftIO (create_new_file h archive_path (da_bytes archive) (Some 0x180))) (\<lambda>_.
      bindM (liftRel (extract_archive_file e h (e_app e) archive_path asset (tx_version_dir tx))) (\<lambda>_.
      bindM (liftIO (atomic_replace_file_with_mode h (join (tx_version_dir tx) MANIFEST_FILE)
               (rm_manifest_bytes md) (Some 0x180))) (\<lambda>_.
      bindM (liftIO (atomic_replace_file_with_mode h (join (tx_version_dir tx) SIGNATURE_FILE)
               (rm_signature_bytes md) (Some 0x180))) (\<lambda>_.
      bindM (liftIO (set_executable h (join (tx_version_dir tx) (target_payload_name t (e_app e))))) (\<lambda>_.
      bindM (write_version_state e (tx_version_dir tx)
               \<lparr>vs_schema_version = STATE_SCHEMA_VERSION, vs_version = rm_version md, vs_target = t,
                vs_binary_sha256 = p_sha256 (a_payload asset), vs_size = p_size (a_payload asset),
                vs_installation_id = installation_id,
                vs_launcher = map_option launcher_metadata_of (a_launcher asset)\<rparr>) (\<lambda>_.
      whenM (h_windows h) (place_launcher e tx (a_launcher asset) already_managed)))))))))"

definition sync_staging_transaction :: "('v, 'z) env_scheme \<Rightarrow> transaction \<Rightarrow> ('v, unit) inst" where
  "sync_staging_transaction e tx =
     bindM (sync_regular_files e (tx_version_dir tx)) (\<lambda>_.
     bindM (sync_regular_files e (tx_dir tx)) (\<lambda>_.
     liftIO (sync_dir (e_host e) (staging_dir e))))"

subsection \<open>Activating a downloaded release\<close>

text \<open>The metadata kept beside a retained version must be the ones just verified; the second file
  is only read when the first one agrees.\<close>

definition same_metadata :: "('v, 'z) env_scheme \<Rightarrow> 'v release_metadata \<Rightarrow> 'v \<Rightarrow> ('v, unit) inst" where
  "same_metadata e md v =
     bindM (liftIO (fs_read (version_manifest_path e v))) (\<lambda>m.
     bindM (if m \<noteq> rm_manifest_bytes md then returnM False
            else bindM (liftIO (fs_read (version_signature_path e v))) (\<lambda>g. returnM (g = rm_signature_bytes md))) (\<lambda>same.
     ensureM same (Invalid ''existing final version has different signed metadata'')))"

text \<open>The requested version is not newer than the managed one.\<close>

definition not_newer ::
  "('v, 'z) env_scheme \<Rightarrow> 'v release_metadata \<Rightarrow> 'v install_state \<Rightarrow> 'v \<Rightarrow> 'v \<Rightarrow> ('v, 'v activation_result) inst" where
  "not_newer e md inst active v =
     (if v = active then
        bindM (verify_final_version e active (Some (is_installation_id inst))) (\<lambda>_.
        bindM (same_metadata e md active) (\<lambda>_.
        bindM (ensure_command_owned e (Some active) (Some inst)) (\<lambda>_.
        returnM \<lparr>ar_version = active, ar_changed = False\<rparr>)))
      else throwM (Downgrade active v))"

text \<open>The version's directory exists already: it is reused if everything about it verifies.\<close>

definition reuse_version ::
  "('v, 'z) env_scheme \<Rightarrow> 'v release_metadata \<Rightarrow> 'v install_state option \<Rightarrow> launcher_ownership option \<Rightarrow> string \<Rightarrow> 'v
   \<Rightarrow> ('v, unit) inst" where
  "reuse_version e md inst retained installation_id v =
     bindM (verify_final_version e v (Some installation_id)) (\<lambda>state.
     bindM (same_metadata e md v) (\<lambda>_.
     case inst of
       Some i \<Rightarrow> verify_installed_launcher e i
     | None \<Rightarrow>
         whenM (h_windows (e_host e))
           (bindM (case retained of
                     Some l \<Rightarrow> returnM (lo_size l, lo_sha256 l)
                   | None \<Rightarrow>
                       bindM (liftE (ok_orE (vs_launcher state) (Invalid ''Windows version state lacks launcher metadata'')))
                         (\<lambda>l. returnM (lm_size l, lm_sha256 l))) (\<lambda>(n, digest).
            bindM (liftIO (ensure_regular_file (e_host e) (e_command e))) (\<lambda>_.
            verify_file_digest e (e_command e) n digest)))))"

text \<open>The version is staged, verified where it is staged, synced and renamed into place.\<close>

definition stage_version ::
  "('v, 'z) env_scheme \<Rightarrow> 'v release_metadata \<Rightarrow> downloaded_archive \<Rightarrow> string \<Rightarrow> target \<Rightarrow> bool \<Rightarrow> 'v
   \<Rightarrow> ('v, transaction) inst" where
  "stage_version e md archive installation_id t already_managed v =
     bindM (create_transaction e) (\<lambda>tx.
     bindM (write_downloaded_version e tx md archive installation_id t already_managed) (\<lambda>_.
     bindM (fault PayloadWritten) (\<lambda>_.
     bindM (verify_staged_version e tx v installation_id) (\<lambda>_.
     bindM (fault Verified) (\<lambda>_.
     bindM (sync_staging_transaction e tx) (\<lambda>_.
     bindM (fault StagingSynced) (\<lambda>_.
     bindM (liftIO (lexists (version_dir e v))) (\<lambda>appeared.
     bindM (ensureM (\<not> appeared) (Invalid ''retained version directory appeared during installation'')) (\<lambda>_.
     bindM (liftIO (rename_new (e_host e) (tx_version_dir tx) (version_dir e v))) (\<lambda>_.
     bindM (fault VersionRenamed) (\<lambda>_.
     returnM tx)))))))))))"

definition activate_new ::
  "('v, 'z) env_scheme \<Rightarrow> probe \<Rightarrow> 'v release_metadata \<Rightarrow> downloaded_archive \<Rightarrow> target \<Rightarrow> 'v
   \<Rightarrow> 'v install_state option \<Rightarrow> 'v option \<Rightarrow> launcher_ownership option \<Rightarrow> ('v, 'v activation_result) inst" where
  "activate_new e probe md archive t v inst from retained =
     bindM (ensure_private_layout e) (\<lambda>_.
     bindM (choose_installation_id e v inst) (\<lambda>installation_id.
     bindM (if from \<noteq> None then returnM True
            else bindM (liftIO (lexists (e_command e))) (\<lambda>there. returnM (\<not> there))) (\<lambda>clean.
     bindM (whenM clean (cleanup_staging e)) (\<lambda>_.
     bindM (whenM (h_windows (e_host e) \<and> from = None \<and> inst = None) (cleanup_staging e)) (\<lambda>_.
     bindM (ensure_command_owned e from inst) (\<lambda>_.
     let already_managed = (inst \<noteq> None \<or> retained \<noteq> None) in
     bindM (liftIO (lexists (version_dir e v))) (\<lambda>existing.
     bindM (if existing then
              bindM (reuse_version e md inst retained installation_id v) (\<lambda>_. returnM None)
            else bindM (stage_version e md archive installation_id t already_managed v) (\<lambda>tx. returnM (Some tx))) (\<lambda>tx.
     bindM (ensure_command_parent e) (\<lambda>_.
     let prior = (case inst of Some i \<Rightarrow> Some i
           | None \<Rightarrow> map_option (\<lambda>l. \<lparr>is_schema_version = STATE_SCHEMA_VERSION, is_active = None,
               is_previous = None, is_installation_id = installation_id, is_launcher = Some l\<rparr>) retained) in
     bindM (activate_pointer_and_state e probe from v installation_id prior (map_option tx_id tx) tx) (\<lambda>_.
     returnM \<lparr>ar_version = v, ar_changed = True\<rparr>))))))))))"

definition activate_download_locked ::
  "('v, 'z) env_scheme \<Rightarrow> probe \<Rightarrow> 'v release_metadata \<Rightarrow> downloaded_archive \<Rightarrow> 'v \<Rightarrow> ('v, 'v activation_result) inst" where
  "activate_download_locked e probe md archive v =
     bindM (liftE (current_target e)) (\<lambda>t.
     bindM (ensureM (da_target archive = t) (Invalid ''downloaded archive target differs from current target'')) (\<lambda>_.
     bindM (ensureM (rm_version md = v) (Invalid ''downloaded metadata version differs from requested version'')) (\<lambda>_.
     bindM (verify_metadata e md t) (\<lambda>_.
     bindM (read_install_state e) (\<lambda>inst.
     bindM (case inst of None \<Rightarrow> returnM () | Some i \<Rightarrow> liftE (validate_install_state e i)) (\<lambda>_.
     bindM (read_pointer_unlocked e) (\<lambda>from.
     bindM (if h_windows (e_host e) \<and> inst = None then retained_launcher_ownership e else returnM None) (\<lambda>retained.
     case (inst, from) of
       (Some i, Some active) \<Rightarrow>
         if version_le e v active then not_newer e md i active v
         else activate_new e probe md archive t v inst from retained
     | _ \<Rightarrow> activate_new e probe md archive t v inst from retained))))))))"

definition activate_download ::
  "('v, 'z) env_scheme \<Rightarrow> probe \<Rightarrow> 'v release_metadata \<Rightarrow> downloaded_archive \<Rightarrow> 'v \<Rightarrow> ('v, 'v activation_result) inst" where
  "activate_download e probe md archive v =
     bindM (recover_if_managed e) (\<lambda>_.
     bindM (liftIO (lexists (e_command e))) (\<lambda>there.
     bindM (if \<not> there then returnM False
            else bindM (liftIO (lexists (install_state_path e))) (\<lambda>known. returnM (\<not> known))) (\<lambda>foreign.
     bindM (whenM foreign
              (bindM (if h_windows (e_host e) then prove_retained_launcher_ownership e else returnM False) (\<lambda>proven.
               ensureM proven (Invalid ''refusing to replace existing unmanaged command'')))) (\<lambda>_.
     bindM (lock_for_mutation e) (\<lambda>_.
     activate_download_locked e probe md archive v)))))"

subsection \<open>Activating a retained release\<close>

definition activate_existing_locked :: "('v, 'z) env_scheme \<Rightarrow> probe \<Rightarrow> 'v \<Rightarrow> ('v, 'v activation_result) inst" where
  "activate_existing_locked e probe v =
     bindM (read_install_state e) (\<lambda>i.
     bindM (liftE (ok_orE i Unmanaged)) (\<lambda>inst.
     bindM (read_pointer_unlocked e) (\<lambda>p.
     bindM (liftE (ok_orE p Unmanaged)) (\<lambda>from.
     bindM (ensureM (version_less e v from)
              (Invalid ''retained activation target must be older than active pointer'')) (\<lambda>_.
     bindM (ensure_command_owned e (Some from) (Some inst)) (\<lambda>_.
     bindM (verify_final_version e v (Some (is_installation_id inst))) (\<lambda>_.
     bindM (verify_installed_launcher e inst) (\<lambda>_.
     bindM (fault Verified) (\<lambda>_.
     bindM (ensure_command_parent e) (\<lambda>_.
     activate_pointer_and_state e probe (Some from) v (is_installation_id inst) (Some inst) None None))))))))))"

definition activate_existing :: "('v, 'z) env_scheme \<Rightarrow> probe \<Rightarrow> 'v \<Rightarrow> ('v, 'v activation_result) inst" where
  "activate_existing e probe v =
     bindM (lock_for_mutation e) (\<lambda>_. activate_existing_locked e probe v)"

subsection \<open>The public operations\<close>

record 'v check_result =
  cr_current :: "'v option"
  cr_latest :: 'v
  cr_managed :: bool

definition install_version :: "('v, 'z) env_scheme \<Rightarrow> probe \<Rightarrow> 'v \<Rightarrow> ('v, 'v activation_result) inst" where
  "install_version e probe v =
     bindM (recover_if_managed e) (\<lambda>_.
     bindM (installer_exact_metadata e v) (\<lambda>md.
     bindM (liftE (current_target e)) (\<lambda>t.
     bindM (liftRel (download_archive e (e_app e) md t)) (\<lambda>archive.
     activate_download e probe md archive v))))"

definition install :: "('v, 'z) env_scheme \<Rightarrow> probe \<Rightarrow> ('v, 'v activation_result) inst" where
  "install e probe =
     bindM (liftE (ok_orE (version_parse e (app_version (e_app e))) (Invalid ''invalid package version''))) (install_version e probe)"

definition check_latest :: "('v, 'z) env_scheme \<Rightarrow> ('v, 'v check_result) inst" where
  "check_latest e =
     bindM (recover_if_managed e) (\<lambda>_.
     bindM (installer_latest_metadata e) (\<lambda>md.
     bindM (liftIO (lexists (e_root e))) (\<lambda>root.
     bindM (if \<not> root then returnM False
            else bindM (read_install_state e) (\<lambda>i. if i \<noteq> None then returnM True else pointer_path_exists e)) (\<lambda>known.
     bindM (if known then read_pointer_unlocked e else returnM None) (\<lambda>current.
     bindM (if current = None then returnM False
            else bindM (tryM (liftIO (open_existing (install_state_path e))) :: ('v, 'v install_error + node) inst)
                   (\<lambda>r. returnM (is_ok r))) (\<lambda>managed.
     returnM \<lparr>cr_current = current, cr_latest = rm_version md, cr_managed = managed\<rparr>))))))"

definition update :: "('v, 'z) env_scheme \<Rightarrow> probe \<Rightarrow> ('v, 'v activation_result) inst" where
  "update e probe =
     bindM (recover_if_managed e) (\<lambda>_.
     bindM (require_managed_current e) (\<lambda>current.
     bindM (installer_latest_metadata e) (\<lambda>md.
     if version_less e (rm_version md) current then throwM (Downgrade current (rm_version md))
     else if rm_version md = current then returnM \<lparr>ar_version = current, ar_changed = False\<rparr>
     else
       bindM (liftE (current_target e)) (\<lambda>t.
       bindM (liftRel (download_archive e (e_app e) md t)) (\<lambda>archive.
       activate_download e probe md archive (rm_version md))))))"

definition rollback :: "('v, 'z) env_scheme \<Rightarrow> probe \<Rightarrow> ('v, 'v activation_result) inst" where
  "rollback e probe =
     bindM (recover_if_managed e) (\<lambda>_.
     bindM (require_managed_current e) (\<lambda>current.
     bindM (read_install_state e) (\<lambda>i.
     bindM (liftE (ok_orE i Unmanaged)) (\<lambda>inst.
     bindM (liftE (ok_orE (is_previous inst) (Invalid ''managed installation has no previous version''))) (\<lambda>v.
     bindM (ensureM (version_less e v current)
              (Invalid ''managed installation previous version is not older than active'')) (\<lambda>_.
     activate_existing e probe v))))))"

definition rollback_to :: "('v, 'z) env_scheme \<Rightarrow> probe \<Rightarrow> 'v \<Rightarrow> ('v, 'v activation_result) inst" where
  "rollback_to e probe v =
     bindM (recover_if_managed e) (\<lambda>_.
     bindM (require_managed_current e) (\<lambda>current.
     bindM (ensureM (version_less e v current) (Invalid ''rollback target must be older than active version'')) (\<lambda>_.
     activate_existing e probe v)))"

subsection \<open>What the operations touch\<close>

lemma temp_paths_below: "parent p = Some par \<Longrightarrow> tmp \<in> temp_paths p \<Longrightarrow> prefix par tmp"
  using parent_prefix by (auto simp: temp_paths_def with_file_name_def split: option.splits dest!: parent_Some)

lemma touches_walk_unix_normal:
  "(create \<Longrightarrow> {q. prefix q (cur @ cs)} \<subseteq> S) \<Longrightarrow> list_all is_normal cs \<Longrightarrow> touches S (walk_unix h create cur cs)"
proof (induction h create cur cs rule: walk_unix.induct)
  case (2 h create cur n cs)
  have "create \<Longrightarrow> join cur n \<in> S"
    using "2.prems"(1) by (auto simp: join_def)
  moreover have "create \<Longrightarrow> {q. prefix q (join cur n @ cs)} \<subseteq> S"
    using "2.prems"(1) by (simp add: join_def)
  ultimately show ?case
    using "2.IH" "2.prems"(2) by (auto intro!: touches_intros)
qed (auto intro!: touches_intros)

lemma touches_open_directory_create:
  assumes "canonical_path (h_windows h) p" and "{q. prefix q p} \<subseteq> S"
  shows "touches S (open_directory h p True)"
  using assms(1)
proof (cases rule: canonical_cases)
  case (unix cs)
  have "touches S (walk_unix h True [RootDir] cs)"
    using assms(2) unix by (intro touches_walk_unix_normal) auto
  with unix show ?thesis
    unfolding open_directory_def open_directory_tree_def Let_def
    by (auto intro!: touches_intros)
next
  case (windows x cs)
  with assms show ?thesis
    unfolding open_directory_def
    by (auto intro!: touches_open_directory_desc simp: canonical_absolute_normalized)
qed

text \<open>A directory that was opened is at the path it was opened by.\<close>

lemma touches_open_bind:
  assumes "touches S m" and "\<And>w d w'. m w = (Inr d, w') \<Longrightarrow> d = p" and "touches S (f p)"
  shows "touches S (bindM m f)"
proof (rule touches_bind_post, intro conjI allI impI)
  fix w r v q assume "m w = (r, v)" and "q \<notin> S"
  then show "lookup v q = lookup w q" by (rule touchesD [OF assms(1)])
next
  fix w r v a assume "m w = (r, v)" and "r = Inr a"
  with assms(2,3) show "touches S (f a)" by blast
qed

lemma touches_create_new_file [touches_intros]:
  assumes "\<And>par. parent p = Some par \<Longrightarrow> {q. prefix par q} \<subseteq> S"
  shows "touches S (create_new_file h p b mode)"
proof (cases "parent p")
  case None
  then show ?thesis by (simp add: create_new_file_def ok_orE_def touches_basic)
next
  case (Some par)
  have S: "{q. prefix par q} \<subseteq> S" using assms Some by blast
  have "{q. prefix tmp q} \<subseteq> S" if "tmp \<in> temp_paths p" for tmp
    using temp_paths_below [OF Some that] S by (auto intro: prefix_order.trans)
  moreover have "{q. prefix p q} \<subseteq> S"
    using parent_prefix [OF Some] S by (auto intro: prefix_order.trans)
  moreover have "temp_paths p \<subseteq> S" using temp_paths_below [OF Some] S by blast
  ultimately show ?thesis
    unfolding create_new_file_def by (intro touches_intros) auto
qed

lemma touches_create_new_file_at [touches_intros]:
  "join d name \<in> S \<Longrightarrow> touches S (create_new_file_at h d name b mode)"
  unfolding create_new_file_at_def create_new_file_at_unix_def verify_new_file_contents_def Let_def
  by (auto intro!: touches_intros touches_create_file_bind split: node.splits option.splits)

lemma touches_remove_file_at [touches_intros]:
  "join d name \<in> S \<Longrightarrow> touches S (remove_file_at h d name)"
  unfolding remove_file_at_def by (intro touches_intros)

lemma open_extraction_directory_path:
  "open_extraction_directory h p w = (Inr d, w') \<Longrightarrow> canonical_path (h_windows h) p \<Longrightarrow> d = p"
  by (auto simp: open_extraction_directory_def open_private_directory_def bindM_return_iff returnM_apply
      dest: open_directory_path split: if_splits)

lemma touches_open_extraction_directory:
  assumes "canonical_path (h_windows h) p" and "{q. prefix q p} \<subseteq> S"
  shows "touches S (open_extraction_directory h p)"
  unfolding open_extraction_directory_def open_private_directory_def
  by (intro touches_intros touches_ensure_private_dir assms)

lemma touches_wrappers [touches_intros]:
  "touches S m \<Longrightarrow> touches S (relIO m)" "touches S m \<Longrightarrow> touches S (archiveIO t m)"
  "touches S (m' :: 'a rel) \<Longrightarrow> touches S (liftRel m')"
  by (simp_all add: relIO_def archiveIO_def liftRel_def touches_map_err)

lemma touches_fetch [touches_intros]: "touches S (fetch e u n)"
  by (simp add: touches_def fetch_def)

lemma touches_verify_metadata [touches_intros]: "touches S (verify_metadata e md t)"
  unfolding verify_metadata_def by (intro touches_intros)

lemma touches_verified_metadata [touches_intros]: "touches S (fetch_verified_metadata e a b u v ks)"
  unfolding fetch_verified_metadata_def by (intro touches_intros)

lemma touches_metadata [touches_intros]:
  "touches S (installer_exact_metadata e v)" "touches S (installer_latest_metadata e)"
  unfolding installer_exact_metadata_def installer_latest_metadata_def fetch_exact_metadata_def
    fetch_latest_metadata_def fetch_version_metadata_response_def resolve_latest_response_def
  by (intro touches_intros; auto intro!: touches_intros split: prod.splits)+

lemma touches_download_archive [touches_intros]: "touches S (download_archive e a md t)"
  unfolding download_archive_def Let_def by (intro touches_intros)

lemma touches_extract_archive:
  assumes "canonical_path (h_windows h) dest" and "{q. prefix q dest} \<subseteq> S" and "{q. prefix dest q} \<subseteq> S"
  shows "touches S (extract_archive lib h app b a dest)"
proof -
  have below: "join dest n \<in> S" for n using assms(3) prefix_join by blast
  have safe: "touches S (path_is_safe_directory h dest)"
    unfolding path_is_safe_directory_def ensure_directory_tree_def
    by (intro touches_intros touches_ensure_private_dir touches_open_directory_create assms(1,2))
  show ?thesis
    unfolding extract_archive_def Let_def
    apply (rule touches_bind, intro touches_intros, rule touches_bind, intro touches_intros,
        rule touches_bind [OF safe])
    apply (rule touches_open_bind [where p = dest])
      apply (intro touches_intros touches_open_extraction_directory assms(1,2))
     apply (use assms(1) in \<open>auto simp: archiveIO_def dest: open_extraction_directory_path\<close>)[1]
    unfolding write_member_def write_launcher_def roll_back_def
    by (intro touches_intros below; auto intro!: touches_intros below split: prod.splits)
qed

lemma touches_extract_archive_file:
  assumes "canonical_path (h_windows h) dest" and "{q. prefix q dest} \<subseteq> S" and "{q. prefix dest q} \<subseteq> S"
  shows "touches S (extract_archive_file lib h app p a dest)"
  unfolding extract_archive_file_def by (intro touches_intros touches_extract_archive assms)

text \<open>The paths of a transaction are below the staging directory.\<close>

definition staged :: "('v, 'z) env_scheme \<Rightarrow> transaction \<Rightarrow> bool" where
  "staged e tx \<longleftrightarrow> (\<exists>i. tx_dir tx = join (staging_dir e) i \<and> tx_version_dir tx = join (tx_dir tx) ''version'')"

lemma staged_scaffold:
  assumes "staged e tx"
  shows "{q. prefix (tx_dir tx) q} \<subseteq> scaffold e" "{q. prefix (tx_version_dir tx) q} \<subseteq> scaffold e"
    "{q. prefix q (tx_dir tx)} \<subseteq> scaffold e" "{q. prefix q (tx_version_dir tx)} \<subseteq> scaffold e"
    "prefix (staging_dir e) (tx_dir tx)"
proof -
  have below: "prefix (staging_dir e) (tx_dir tx)" "prefix (staging_dir e) (tx_version_dir tx)"
    using assms by (auto simp: staged_def prefix_join_iff)
  then show "{q. prefix (tx_dir tx) q} \<subseteq> scaffold e" "{q. prefix (tx_version_dir tx) q} \<subseteq> scaffold e"
    and "prefix (staging_dir e) (tx_dir tx)"
    by (simp_all add: scaffold_dirs(6))
  have pre: "prefix q (staging_dir e) \<Longrightarrow> q \<in> scaffold e" and post: "prefix (staging_dir e) q \<Longrightarrow> q \<in> scaffold e" for q
    by (simp_all add: scaffold_def)
  with assms below show "{q. prefix q (tx_dir tx)} \<subseteq> scaffold e" "{q. prefix q (tx_version_dir tx)} \<subseteq> scaffold e"
    by (auto simp: staged_def prefix_join_iff)
qed

lemma staged_canonical:
  "layout_ok e \<Longrightarrow> staged e tx \<Longrightarrow> canonical_path (h_windows (e_host e)) (tx_dir tx)"
  "layout_ok e \<Longrightarrow> staged e tx \<Longrightarrow> canonical_path (h_windows (e_host e)) (tx_version_dir tx)"
  using canonical_layout(3) [of e] by (auto simp: staged_def)

lemma touches_create_transaction:
  assumes "layout_ok e" and "scaffold e \<subseteq> S" and "\<And>tx. staged e tx \<Longrightarrow> touches S (f tx)"
  shows "touches S (bindM (create_transaction e) f)"
proof -
  have priv: "touches S (ensure_private_dir (e_host e) (tx_dir tx))"
    "touches S (ensure_private_dir (e_host e) (tx_version_dir tx))" if "staged e tx" for tx
    using staged_canonical [OF assms(1) that] staged_scaffold(3,4) [OF that] assms(2)
    by (auto intro!: touches_ensure_private_dir)
  have st: "staged e \<lparr>tx_id = i, tx_dir = join (staging_dir e) i, tx_version_dir = join (join (staging_dir e) i) ''version''\<rparr>" for i
    by (simp add: staged_def)
  show ?thesis
    unfolding create_transaction_def Let_def bindM_assoc bindM_simps
    using priv [OF st] assms(3) [OF st]
    by (intro touches_intros touches_mono [OF touches_private_layout assms(2)] assms(1)) auto
qed

lemma parent_canonical:
  assumes "canonical_path b p" and "parent p = Some par"
  shows "canonical_path b par"
proof -
  from parent_Some [OF assms(2)] obtain c where c: "p = par @ [c]" by blast
  show ?thesis
    using assms(1)
  proof (cases rule: canonical_cases)
    case (unix cs)
    with c assms(2) obtain cs' where "cs = cs' @ [c]" "par = RootDir # cs'"
      by (cases cs rule: rev_cases) (auto simp: parent_def)
    with unix show ?thesis by simp
  next
    case (windows x cs)
    with c assms(2) obtain cs' where "cs = cs' @ [c]" "par = Prefix x # RootDir # cs'"
      by (cases cs rule: rev_cases) (auto simp: parent_def)
    with windows show ?thesis by simp
  qed
qed

lemma touches_command_parent: "layout_ok e \<Longrightarrow> touches (scaffold e) (ensure_command_parent e)"
proof -
  assume lay: "layout_ok e"
  have up: "{q. prefix q par} \<subseteq> scaffold e" if par: "parent (e_command e) = Some par" for par
  proof -
    from parent_Some [OF par] obtain c where "e_command e = par @ [c]" by blast
    then show ?thesis by (auto simp: scaffold_def strict_prefix_def prefix_def)
  qed
  have here: "touches (scaffold e) (ensure_private_dir (e_host e) par)" if "parent (e_command e) = Some par" for par
    using touches_ensure_private_dir [OF parent_canonical [OF layout_okD(2) [OF lay] that] up [OF that]] .
  show ?thesis
    unfolding ensure_command_parent_def validate_windows_command_parent_def Let_def
    by (intro touches_intros up) (auto intro: here touches_private_dirs(5) lay)
qed

lemma touches_open_or_create [touches_intros]: "p \<in> S \<Longrightarrow> touches S (open_or_create h p create mode)"
  unfolding open_or_create_def by (rule touches_io) (auto split: option.splits node.splits)

lemma touches_lock: "layout_ok e \<Longrightarrow> touches (scaffold e) (lock_for_mutation e)"
  "layout_ok e \<Longrightarrow> touches (scaffold e) (lock_existing e)"
  unfolding lock_for_mutation_def lock_existing_def open_lock_def ensure_root_def
  by (intro touches_intros touches_private_dirs; simp add: scaffold_def)+

lemma touches_sync_regular_fuel [touches_intros]: "touches S (sync_regular_files_fuel e n dir)"
  by (induction e n dir rule: sync_regular_files_fuel.induct) (auto intro!: touches_intros simp: sync_file_def)

lemma touches_sync_staging [touches_intros]: "touches S (sync_staging_transaction e tx)"
proof -
  have "touches S (sync_regular_files e dir)" for dir
    using touches_sync_regular_fuel [of S e _ dir] unfolding touches_def sync_regular_files_def by blast
  then show ?thesis unfolding sync_staging_transaction_def by (intro touches_intros)
qed

lemma touches_pointer_exists [touches_intros]: "touches S (pointer_path_exists e)"
  unfolding pointer_path_exists_def by (intro touches_intros)

lemma touches_install_state [touches_intros]: "touches S (read_install_state e)"
  unfolding read_install_state_def by (intro touches_intros)

lemma touches_place_launcher:
  assumes "layout_ok e" and "h_windows (e_host e)" and "staged e tx"
  shows "touches (scaffold e) (place_launcher e tx l b)"
proof -
  have mark: "join (tx_dir tx) n \<in> scaffold e" "temp_paths (join (tx_dir tx) n) \<subseteq> scaffold e" for n
    using staged_scaffold(1) [OF assms(3)] temp_paths_below [of "join (tx_dir tx) n" "tx_dir tx"] by auto
  have launcher: "join (tx_version_dir tx) n \<in> scaffold e" for n
    using staged_scaffold(2) [OF assms(3)] by auto
  show ?thesis
    unfolding place_launcher_def Let_def
    by (intro touches_intros touches_command_parent touches_prove_retained assms(1) mark launcher
        beside_command_scaffold [OF assms(2)])
qed

lemma touches_write_version:
  assumes "layout_ok e" and "staged e tx"
  shows "touches (scaffold e) (write_downloaded_version e tx md archive i t b)"
proof -
  have vfile: "join (tx_version_dir tx) n \<in> scaffold e" "temp_paths (join (tx_version_dir tx) n) \<subseteq> scaffold e" for n
    using staged_scaffold(2) [OF assms(2)] temp_paths_below [of "join (tx_version_dir tx) n" "tx_version_dir tx"] by auto
  have archive: "{q. prefix (tx_dir tx) q} \<subseteq> scaffold e"
    by (rule staged_scaffold(1) [OF assms(2)])
  show ?thesis
    unfolding write_downloaded_version_def write_version_state_def write_json_def Let_def
    by (intro touches_intros touches_extract_archive_file staged_canonical [OF assms] staged_scaffold [OF assms(2)]
        vfile touches_place_launcher assms) (use archive in auto)
qed

lemma touches_same_metadata [touches_intros]: "touches S (same_metadata e md v)"
  unfolding same_metadata_def by (intro touches_intros)

lemma touches_reuse_version: "layout_ok e \<Longrightarrow> touches (scaffold e) (reuse_version e md i r k v)"
  unfolding reuse_version_def
  by (intro touches_intros touches_verify_final; auto intro!: touches_intros split: prod.splits)

lemma touches_verify_staged:
  assumes "layout_ok e" and "staged e tx"
  shows "touches (scaffold e) (verify_staged_version e tx v i)"
  unfolding verify_staged_version_def
  by (intro touches_intros touches_version_dir_inner
      touches_ensure_private_dir [OF staged_canonical(2) [OF assms] staged_scaffold(4) [OF assms(2)]])

lemma touches_stage_version:
  assumes "layout_ok e" and "\<And>tx. staged e tx \<Longrightarrow> touches (workspace e) (f tx)"
  shows "touches (workspace e) (bindM (stage_version e md archive i t b v) f)"
proof -
  have place: "{q. prefix (version_dir e v) q} \<subseteq> workspace e"
    using prefix_order.trans [OF prefix_join] by (auto simp: workspace_def version_dir_def)
  have from_stage: "{q. prefix (tx_version_dir tx) q} \<subseteq> workspace e" if "staged e tx" for tx
    using staged_scaffold(2) [OF that] by (auto simp: workspace_def)
  show ?thesis
    unfolding stage_version_def bindM_assoc bindM_simps
    by (rule touches_create_transaction [OF assms(1)], simp add: workspace_def)
      (intro touches_intros touches_workspace [OF touches_write_version] touches_workspace [OF touches_verify_staged]
        place from_stage assms)
qed

end
