(* ===== verification/History.thy ===== *)
theory History
  imports Installer
begin

text \<open>
  The operations one after the other: whatever the schedule does to each of them, the selector, the
  journal and \<^verbatim>\<open>install.json\<close> stay recoverable, and the selector moves only to a version the
  operation was asked for.
\<close>

subsection \<open>Outcomes\<close>

text \<open>\<open>fate\<close>: what every outcome of an operation leaves, where \<open>ok\<close> are the versions it may move the
  selector to. \<open>reached\<close>: what a normal return means.\<close>

definition fate ::
  "('v, 'z) env_scheme \<Rightarrow> ('v \<Rightarrow> bool) \<Rightarrow> node option \<times> node option \<times> node option \<Rightarrow> world \<Rightarrow> bool" where
  "fate e ok before w \<longleftrightarrow> recoverable e (view e w)
     \<and> (fst (view e w) = fst before \<or> (\<exists>v. ok v \<and> points_to e v (fst (view e w))))"

definition reached ::
  "('v, 'z) env_scheme \<Rightarrow> ('v \<Rightarrow> bool) \<Rightarrow> node option \<times> node option \<times> node option \<Rightarrow> 'v activation_result \<Rightarrow> world \<Rightarrow> bool" where
  "reached e ok before r w \<longleftrightarrow> fate e ok before w \<and> settled e (view e w)
     \<and> points_to e (ar_version r) (fst (view e w))"

definition climbs :: "('v, 'z) env_scheme \<Rightarrow> node option \<Rightarrow> 'v \<Rightarrow> bool" where
  "climbs e s v \<longleftrightarrow> (\<forall>old. points_to e old s \<longrightarrow> \<not> version_le e v old)"

definition descends :: "('v, 'z) env_scheme \<Rightarrow> node option \<Rightarrow> 'v \<Rightarrow> bool" where
  "descends e s v \<longleftrightarrow> (\<exists>old. points_to e old s \<and> version_less e v old)"

lemma fate_same: "recoverable e (view e w) \<Longrightarrow> fst (view e w) = fst v0 \<Longrightarrow> fate e ok v0 w"
  by (simp add: fate_def)

lemma fate_shift: "fate e ok v1 w \<Longrightarrow> fst v1 = fst v0 \<Longrightarrow> fate e ok v0 w"
  by (simp add: fate_def)

lemma reached_shift: "reached e ok v1 r w \<Longrightarrow> fst v1 = fst v0 \<Longrightarrow> reached e ok v0 r w"
  by (simp add: reached_def fate_def)

lemma recoverable_unjournaled: "recoverable e (s, None, j) \<Longrightarrow> settled e (s, None, j)"
  by (auto simp: recoverable_def interrupted_def dest: decodes_some)

text \<open>What a settled state with a selected version has recorded.\<close>

lemma settled_recorded:
  assumes "settled e (s, x, j)" and "semver_ok e" and "selected e (Some v) s"
  shows "\<exists>inst. decodes (install_of_json e) inst j \<and> is_active inst = Some v"
proof -
  from assms(1) obtain v' where "selected e v' s" "recorded e v' j" by (auto simp: settled_def)
  with selected_unique [OF assms(2) _ assms(3)] show ?thesis by (auto simp: recorded_def)
qed

subsection \<open>Activation\<close>

lemma some_phase_selector:
  assumes "some_phase e v0 from to i now"
  shows "fst now = fst v0 \<or> points_to e to (fst now)"
proof -
  from assms obtain ph where "in_phase e v0 from to i ph now" by (auto simp: some_phase_def)
  then show ?thesis by (cases ph) (auto simp: in_phase_def Let_def split: prod.splits)
qed

lemma in_settled_phase:
  "in_phase e v0 from to i Settled now \<Longrightarrow> settled e now \<and> points_to e to (fst now)"
  by (auto simp: in_phase_def Let_def settled_def selected_def recorded_def record_for_def
      split: prod.splits intro!: exI [of _ "Some to"])

lemma activate_pointer_fate:
  assumes "env_ok e" and "settled e v0" and "selected e from (fst v0)" and "ok to"
    and "\<forall>t. tx = Some t \<longrightarrow> staged e t"
  shows "valid (\<lambda>w. view e w = v0) (activate_pointer_and_state e probe from to i prior tid tx)
    (\<lambda>_ w. fate e ok v0 w \<and> settled e (view e w) \<and> points_to e to (fst (view e w))) (fate e ok v0)"
proof -
  obtain s x j where v0: "v0 = (s, x, j)" by (rule prod_cases3)
  have phases: "valid (\<lambda>w. in_phase e v0 from to i Untouched (view e w)) (activate_pointer_and_state e probe from to i prior tid tx)
    (\<lambda>_ w. in_phase e v0 from to i Settled (view e w)) (\<lambda>w. some_phase e v0 from to i (view e w))"
    by (rule activation_phases [OF assms(1)]) (use assms(5) staged_scaffold(5) in blast)
  have rec: "recoverable e now" if "some_phase e v0 from to i now" for now
    using phase_recoverable [of e s x j, folded v0, OF assms(2) env_okD(3) [OF assms(1)]] assms(3) that v0 by simp
  show ?thesis
  proof (rule valid_conseq [OF phases])
    fix a w assume "in_phase e v0 from to i Settled (view e w)"
    from in_settled_phase [OF this]
    show "fate e ok v0 w \<and> settled e (view e w) \<and> points_to e to (fst (view e w))"
      using assms(4) by (auto simp: fate_def settled_recoverable)
  next
    fix w assume "some_phase e v0 from to i (view e w)"
    then have "recoverable e (view e w)" and "fst (view e w) = fst v0 \<or> points_to e to (fst (view e w))"
      by (rule rec, rule some_phase_selector)
    with assms(4) show "fate e ok v0 w" unfolding fate_def by blast
  qed (simp add: v0 in_phase_def)
qed

lemma activate_result:
  "activate_pointer_and_state e probe from to i prior tid tx w = (Inr a, w') \<Longrightarrow> ar_version a = to"
  by (auto simp: activate_pointer_and_state_def Let_def bindM_return_iff returnM_apply)

lemma activate_settles:
  assumes "env_ok e" and "settled e v0" and "selected e from (fst v0)" and "ok to"
    and "\<forall>t. tx = Some t \<longrightarrow> staged e t" and "\<And>a. ar_version (r a) = to"
  shows "valid (\<lambda>w. view e w = v0) (bindM (activate_pointer_and_state e probe from to i prior tid tx) (\<lambda>a. returnM (r a)))
    (reached e ok v0) (fate e ok v0)"
proof (rule valid_bind)
  show "valid (\<lambda>w. view e w = v0) (activate_pointer_and_state e probe from to i prior tid tx)
      (\<lambda>a. reached e ok v0 (r a)) (fate e ok v0)"
    by (rule valid_post [OF activate_pointer_fate [where ok = ok, OF assms(1-3), OF assms(4,5)]])
      (simp_all add: reached_def assms(6))
qed (rule valid_return)

lemma activate_settles_directly:
  assumes "env_ok e" and "settled e v0" and "selected e from (fst v0)" and "ok to"
    and "\<forall>t. tx = Some t \<longrightarrow> staged e t"
  shows "valid (\<lambda>w. view e w = v0) (activate_pointer_and_state e probe from to i prior tid tx)
    (reached e ok v0) (fate e ok v0)"
proof -
  note fate = activate_pointer_fate [where ok = ok, OF assms(1-3), OF assms(4,5)]
  show ?thesis
  proof (rule validI)
    fix w a w' assume v: "view e w = v0" and m: "activate_pointer_and_state e probe from to i prior tid tx w = (Inr a, w')"
    from valid_InrD [OF fate v m] activate_result [OF m] show "reached e ok v0 a w'"
      by (simp add: reached_def)
  next
    fix w k w' assume v: "view e w = v0" and m: "activate_pointer_and_state e probe from to i prior tid tx w = (Inl k, w')"
    from valid_InlD [OF fate v m] show "fate e ok v0 w'" .
  qed
qed

text \<open>Steps of an operation before the activation: from the triple \<open>v0\<close> they keep it, or fail and keep it.\<close>

lemma keep_fate:
  assumes "layout_ok e" and "touches (scaffold e) m" and "recoverable e v0"
    and "\<And>a. valid (\<lambda>w. view e w = v0) (f a) Q (fate e ok v0)"
  shows "valid (\<lambda>w. view e w = v0) (bindM m f) Q (fate e ok v0)"
  by (rule keep_view [OF assms(1,2) _ assms(4)]) (simp add: fate_same assms(3))

lemma look_fate:
  assumes "valid (\<lambda>w. view e w = v0) m (\<lambda>r w. view e w = v0 \<and> R r) (\<lambda>w. view e w = v0)"
    and "recoverable e v0" and "\<And>r. R r \<Longrightarrow> valid (\<lambda>w. view e w = v0) (f r) Q (fate e ok v0)"
  shows "valid (\<lambda>w. view e w = v0) (bindM m f) Q (fate e ok v0)"
  by (rule look_view [OF assms(1) _ assms(3)]) (simp_all add: fate_same assms(2))

lemma throw_fate:
  "recoverable e v0 \<Longrightarrow> valid (\<lambda>w. view e w = v0) (throwM k) Q (fate e ok v0)"
  by (auto simp: valid_def throwM_apply fate_same)

lemma return_reached:
  "settled e v0 \<Longrightarrow> points_to e (ar_version r) (fst v0)
   \<Longrightarrow> valid (\<lambda>w. view e w = v0) (returnM r) (reached e ok v0) (fate e ok v0)"
  by (auto simp: valid_def returnM_apply reached_def fate_same settled_recoverable)

lemma ensure_fate:
  assumes "recoverable e v0" and "b \<Longrightarrow> valid (\<lambda>w. view e w = v0) (f ()) Q (fate e ok v0)"
  shows "valid (\<lambda>w. view e w = v0) (bindM (ensureM b k) f) Q (fate e ok v0)"
  using assms(2) throw_fate [OF assms(1)] by (cases b) (simp_all add: ensureM_def)

lemma liftE_fate:
  assumes "recoverable e v0" and "\<And>a. r = Inr a \<Longrightarrow> valid (\<lambda>w. view e w = v0) (f a) Q (fate e ok v0)"
  shows "valid (\<lambda>w. view e w = v0) (bindM (liftE r) f) Q (fate e ok v0)"
  using assms(2) throw_fate [OF assms(1)] by (cases r) simp_all

lemma keep_result:
  assumes "layout_ok e" and "touches (workspace e) m" and "\<And>w a w'. view e w = v0 \<Longrightarrow> m w = (Inr a, w') \<Longrightarrow> R a"
  shows "valid (\<lambda>w. view e w = v0) m (\<lambda>a w. view e w = v0 \<and> R a) (\<lambda>w. view e w = v0)"
proof -
  have keep: "valid (\<lambda>w. view e w = v0) m (\<lambda>_ w. view e w = v0) (\<lambda>w. view e w = v0)"
    by (rule valid_view_workspace [where P = "\<lambda>v. v = v0", OF assms(1,2)])
  show ?thesis
    by (rule validI) (use valid_InrD [OF keep] valid_InlD [OF keep] assms(3) in blast)+
qed

lemma stage_version_result: "stage_version e md archive i t b v w = (Inr tx, w') \<Longrightarrow> staged e tx"
  by (auto simp: stage_version_def create_transaction_def Let_def bindM_return_iff returnM_apply staged_def)

lemma bindM_returnM: "bindM m returnM = m"
  by (auto simp: bindM_def returnM_def fun_eq_iff split: prod.splits sum.splits)

lemma touches_choose_stage:
  assumes "layout_ok e"
  shows "touches (workspace e) (if existing then bindM (reuse_version e md inst retained i v) (\<lambda>_. returnM None)
            else bindM (stage_version e md archive i t b v) (\<lambda>tx. returnM (Some tx)))"
  by (intro touches_if touches_bind [OF touches_workspace [OF touches_reuse_version [OF assms]]] touches_stage_version assms touches_basic)

lemma choose_stage_result:
  "(if existing then bindM (reuse_version e md inst retained i v) (\<lambda>_. returnM None)
    else bindM (stage_version e md archive i t b v) (\<lambda>tx. returnM (Some tx))) w = (Inr r, w')
   \<Longrightarrow> \<forall>tx. r = Some tx \<longrightarrow> staged e tx"
  by (auto simp: bindM_return_iff returnM_apply dest: stage_version_result split: if_splits)

lemma activate_new_fate:
  fixes e :: "('v, 'z) env_scheme"
  assumes ok: "env_ok e" and st: "settled e v0" and sel: "selected e from (fst v0)" and v: "ok v"
  shows "valid (\<lambda>w. view e w = v0) (activate_new e probe md archive t v inst from retained) (reached e ok v0) (fate e ok v0)"
proof -
  note lay = env_okD(1) [OF ok] and rec = settled_recoverable [OF st]
  note keep = keep_fate [OF lay _ rec]
  show ?thesis
    unfolding activate_new_def Let_def
    apply (rule keep, rule touches_private_layout [OF lay], rule keep, rule touches_choose_id [OF lay])
    apply (rule keep, (intro touches_intros)[1], rule keep, (intro touches_intros touches_cleanup_staging lay)[1])
    apply (rule keep, (intro touches_intros touches_cleanup_staging lay)[1], rule keep, rule touches_command_owned [OF lay])
    apply (rule keep, (intro touches_intros)[1])
    apply (rule look_fate [OF keep_result [OF lay touches_choose_stage [OF lay] choose_stage_result]], assumption, rule rec)
    apply (rule keep, rule touches_command_parent [OF lay])
    apply (rule activate_settles [where ok = ok, OF assms(1-3), OF v], assumption, simp)
    done
qed

lemma not_newer_fate:
  fixes e :: "('v, 'z) env_scheme"
  assumes ok: "env_ok e" and st: "settled e v0" and sel: "points_to e active (fst v0)"
  shows "valid (\<lambda>w. view e w = v0) (not_newer e md inst active v) (reached e ok v0) (fate e ok v0)"
proof -
  note lay = env_okD(1) [OF ok] and rec = settled_recoverable [OF st]
  note keep = keep_fate [OF lay _ rec]
  show ?thesis
    unfolding not_newer_def
    by (rule valid_if, rule keep, rule touches_verify_final [OF lay], rule keep, rule touches_same_metadata,
        rule keep, rule touches_command_owned [OF lay], rule return_reached [OF st], simp add: sel, rule throw_fate [OF rec])
qed

text \<open>A managed installation moves only to a newer version.\<close>

lemma activate_download_locked_fate:
  fixes e :: "('v, 'z) env_scheme"
  assumes ok: "env_ok e" and st: "settled e v0"
  shows "valid (\<lambda>w. view e w = v0) (activate_download_locked e probe md archive v)
    (reached e (\<lambda>u. u = v \<and> climbs e (fst v0) u) v0) (fate e (\<lambda>u. u = v \<and> climbs e (fst v0) u) v0)"
proof -
  obtain s x j where v0: "v0 = (s, x, j)" by (rule prod_cases3)
  note lay = env_okD(1) [OF ok] and sem = env_okD(3) [OF ok] and rec = settled_recoverable [OF st]
  note keep = keep_fate [OF lay _ rec] and read = read_cells_view [OF ok, of s x j, folded v0]
  show ?thesis
    unfolding activate_download_locked_def
    apply (rule liftE_fate [OF rec], rule ensure_fate [OF rec], rule ensure_fate [OF rec])
    apply (rule keep, rule touches_verify_metadata, rule look_fate [OF read(2) rec])
    apply (rule keep, (intro touches_intros)[1], rule look_fate [OF read(3) rec])
    apply (rule keep, (intro touches_intros touches_retained lay)[1])
    subgoal for t _ inst _ cur retained
    proof -
      assume inst: "case inst of None \<Rightarrow> j = None | Some d \<Rightarrow> decodes (install_of_json e) d j"
        and sel: "selected e cur s"
      have none: "cur = None" if "inst = None"
      proof (rule ccontr)
        assume "cur \<noteq> None"
        then obtain a where "cur = Some a" by auto
        with settled_recorded [OF _ sem, of s x j a] st v0 sel inst that show False
          by (auto dest: decodes_some)
      qed
      have go: "valid (\<lambda>w. view e w = v0) (activate_new e probe md archive t v inst cur retained)
          (reached e (\<lambda>u. u = v \<and> climbs e (fst v0) u) v0) (fate e (\<lambda>u. u = v \<and> climbs e (fst v0) u) v0)"
        if "\<forall>a. cur = Some a \<longrightarrow> \<not> version_le e v a"
      proof (rule activate_new_fate [OF ok st])
        show "selected e cur (fst v0)" using sel v0 by simp
        show "v = v \<and> climbs e (fst v0) v"
          using that sel v0 selected_unique [OF sem sel, of "Some _"] by (auto simp: climbs_def selected_def)
      qed
      show ?thesis
      proof (cases inst)
        case None
        with none go show ?thesis by simp
      next
        case (Some i)
        then show ?thesis
          using go not_newer_fate [OF ok st] sel v0 by (auto simp: selected_def split: option.splits)
      qed
    qed
    done
qed

lemma activate_existing_locked_fate:
  fixes e :: "('v, 'z) env_scheme"
  assumes ok: "env_ok e" and st: "settled e v0"
  shows "valid (\<lambda>w. view e w = v0) (activate_existing_locked e probe v)
    (reached e (\<lambda>u. u = v \<and> descends e (fst v0) u) v0) (fate e (\<lambda>u. u = v \<and> descends e (fst v0) u) v0)"
proof -
  obtain s x j where v0: "v0 = (s, x, j)" by (rule prod_cases3)
  note lay = env_okD(1) [OF ok] and rec = settled_recoverable [OF st]
  note keep = keep_fate [OF lay _ rec] and read = read_cells_view [OF ok, of s x j, folded v0]
  have down: "v = v \<and> descends e (fst v0) v" if "selected e (Some cur) s" "version_less e v cur" for cur
    using that v0 by (auto simp: descends_def selected_def)
  show ?thesis
    unfolding activate_existing_locked_def
    apply (rule keep, rule touches_install_state, rule liftE_fate [OF rec], rule look_fate [OF read(3) rec])
    apply (rule liftE_fate [OF rec], rule ensure_fate [OF rec], rule keep, rule touches_command_owned [OF lay])
    apply (rule keep, rule touches_verify_final [OF lay], rule keep, rule touches_installed_launcher)
    apply (rule keep, rule touches_fault, rule keep, rule touches_command_parent [OF lay])
    apply (rule activate_settles_directly [OF ok st])
      apply (use down v0 in auto)
    done
qed

subsection \<open>Recovery at the start of every operation\<close>

text \<open>The operating system keeps files only below existing directories; this is all that is used of it.\<close>

definition rooted :: "('v, 'z) env_scheme \<Rightarrow> world \<Rightarrow> bool" where
  "rooted e w \<longleftrightarrow> (lookup w (e_root e) = None \<longrightarrow> lookup w (pending_path e) = None)"

lemma lexists_exact:
  assumes "lexists p w = (Inr b, w')"
  shows "b \<longleftrightarrow> lookup w p \<noteq> None"
proof -
  obtain r v where r: "symlink_metadata p w = (r, v)" by fastforce
  with assms symlink_metadata_cases [OF r] show ?thesis
    by (cases r) (auto simp: lexists_def bindM_def tryM_def monad_simps split: if_splits)
qed

lemma look_lexists:
  assumes "\<And>w. view e w = v0 \<Longrightarrow> P w \<Longrightarrow> \<forall>b. (b \<longleftrightarrow> lookup w p \<noteq> None) \<longrightarrow> R b"
  shows "valid (\<lambda>w. view e w = v0 \<and> P w) (liftIO (lexists p)) (\<lambda>b w. view e w = v0 \<and> R b) (\<lambda>w. view e w = v0)"
proof (rule validI)
  have same: "view e w' = view e w" if "(liftIO (lexists p) :: ('v, bool) inst) w = (r, w')" for w r w'
    using reads_lookup [OF touches_liftIO [OF touches_lexists] that] by (simp add: view_def)
  fix w b w' assume w: "view e w = v0 \<and> P w" and l: "(liftIO (lexists p) :: ('v, bool) inst) w = (Inr b, w')"
  from l have "b \<longleftrightarrow> lookup w p \<noteq> None" by (auto dest: lexists_exact)
  with assms w same [OF l] show "view e w' = v0 \<and> R b" by auto
next
  fix w k w' assume "view e w = v0 \<and> P w" and l: "(liftIO (lexists p) :: ('v, bool) inst) w = (Inl k, w')"
  then show "view e w' = v0"
    using reads_lookup [OF touches_liftIO [OF touches_lexists] l] by (simp add: view_def)
qed

lemma still_fate: "still_recoverable e v0 (view e w) \<Longrightarrow> recoverable e v0 \<Longrightarrow> fate e ok v0 w"
  by (simp add: still_recoverable_def fate_def)

lemma recover_if_managed_view:
  fixes e :: "('v, 'z) env_scheme"
  assumes ok: "env_ok e" and rec: "recoverable e (s, x, j)"
  shows "valid (\<lambda>w. view e w = (s, x, j) \<and> rooted e w) (recover_if_managed e)
    (\<lambda>_ w. fst (view e w) = s \<and> settled e (view e w)) (fate e P (s, x, j))"
proof -
  note lay = env_okD(1) [OF ok]
  have here: "fate e P (s, x, j) w" if "view e w = (s, x, j)" for w
    using that rec by (simp add: fate_same)
  note keep = keep_view [OF lay _ here]
  have quiet: "valid (\<lambda>w. view e w = (s, x, j)) (returnM False)
      (\<lambda>_ w. fst (view e w) = s \<and> settled e (view e w)) (fate e P (s, x, j))" if "x = None"
    using that rec recoverable_unjournaled by (auto simp: valid_def returnM_apply)
  have locked: "valid (\<lambda>w. view e w = (s, x, j)) (recover_locked e)
      (\<lambda>_ w. fst (view e w) = s \<and> settled e (view e w)) (fate e P (s, x, j))"
    by (rule valid_post [OF recover_locked_view [OF ok]]) (auto simp: recovered_def rec still_fate)
  have root: "valid (\<lambda>w. view e w = (s, x, j) \<and> rooted e w) (liftIO (lexists (e_root e)) :: ('v, bool) inst)
      (\<lambda>b w. view e w = (s, x, j) \<and> (\<not> b \<longrightarrow> x = None)) (\<lambda>w. view e w = (s, x, j))"
    by (rule look_lexists) (auto simp: rooted_def view_def)
  have journal: "valid (\<lambda>w. view e w = (s, x, j)) (liftIO (lexists (pending_path e)) :: ('v, bool) inst)
      (\<lambda>b w. view e w = (s, x, j) \<and> (\<not> b \<longrightarrow> x = None)) (\<lambda>w. view e w = (s, x, j))"
    by (rule valid_pre [OF look_lexists [where P = "\<lambda>_. True"]]) (auto simp: view_def)
  have rest: "valid (\<lambda>w. view e w = (s, x, j)) (recover_existing_root e)
      (\<lambda>_ w. fst (view e w) = s \<and> settled e (view e w)) (fate e P (s, x, j))"
    unfolding recover_existing_root_def
    apply (rule keep, intro touches_intros, assumption, rule look_view [OF journal here], assumption)
    apply (rule keep, rule touches_pointer_exists, assumption, rule keep, (intro touches_intros)[1], assumption)
    subgoal for has_install has_pending has_pointer has_staging
      apply (rule valid_if, rule quiet, simp)
      apply (rule keep, intro touches_intros touches_private_dirs(1) lay, assumption)
      apply (rule look_view [OF read_view [where Q = "\<lambda>unrelated. unrelated \<longrightarrow> \<not> has_pending"] here])
        apply (intro touches_intros)
       apply (auto simp: bindM_return_iff returnM_apply split: if_splits)[1]
      apply assumption
      apply (rule valid_if, rule quiet, simp)
      apply (rule keep, rule touches_lock(2) [OF lay], assumption, rule locked)
      done
    done
  show ?thesis
  proof (cases "validate_configuration e")
    case (Inl k)
    then show ?thesis
      unfolding recover_if_managed_def Inl bindM_simps using here by (auto simp: valid_def throwM_apply)
  next
    case (Inr u)
    show ?thesis
      unfolding recover_if_managed_def Inr bindM_simps
    proof (rule valid_bind)
      show "valid (\<lambda>w. view e w = (s, x, j) \<and> rooted e w) (liftIO (lexists (e_root e)) :: ('v, bool) inst)
          (\<lambda>b w. view e w = (s, x, j) \<and> (\<not> b \<longrightarrow> x = None)) (fate e P (s, x, j))"
        by (rule valid_post [OF root]) (simp_all add: here)
      show "valid (\<lambda>w. view e w = (s, x, j) \<and> (\<not> b \<longrightarrow> x = None)) (if \<not> b then returnM False else recover_existing_root e)
          (\<lambda>_ w. fst (view e w) = s \<and> settled e (view e w)) (fate e P (s, x, j))" for b
      proof (cases b)
        case True
        then show ?thesis by (simp add: valid_pre [OF rest])
      next
        case False
        have "valid (\<lambda>w. view e w = (s, x, j) \<and> x = None) (returnM False :: ('v, bool) inst)
            (\<lambda>_ w. fst (view e w) = s \<and> settled e (view e w)) (fate e P (s, x, j))"
          using quiet by (cases x) (simp_all add: valid_def)
        with False show ?thesis by simp
      qed
    qed
  qed
qed

lemma shift_outcome:
  assumes "valid P m (reached e ok v1) (fate e ok v1)" and "fst v1 = fst v0"
  shows "valid P m (reached e ok v0) (fate e ok v0)"
  by (rule valid_post [OF assms(1)]) (simp_all add: reached_shift fate_shift assms(2))

lemma weaken_outcome:
  assumes "valid P m (reached e ok v0) (fate e ok v0)" and "\<And>v. ok v \<Longrightarrow> ok' v"
  shows "valid P m (reached e ok' v0) (fate e ok' v0)"
  by (rule valid_post [OF assms(1)]) (use assms(2) in \<open>auto simp: reached_def fate_def\<close>)

lemma valid_by_view:
  assumes "\<And>v. P v \<Longrightarrow> valid (\<lambda>w. view e w = v) m Q E"
  shows "valid (\<lambda>w. P (view e w)) m Q E"
  unfolding valid_def
proof (intro allI impI)
  fix w assume "P (view e w)"
  from assms [OF this, unfolded valid_def, rule_format, OF refl]
  show "case m w of (Inl k, w') \<Rightarrow> E w' | (Inr a, w') \<Rightarrow> Q a w'" .
qed

text \<open>What follows a recovery starts from a settled state with the same selector.\<close>

lemma bind_recovered:
  assumes ok: "env_ok e" and rec: "recoverable e v0"
    and rest: "\<And>v1 a. settled e v1 \<Longrightarrow> fst v1 = fst v0
      \<Longrightarrow> valid (\<lambda>w. view e w = v1) (f a) (reached e (P (fst v1)) v1) (fate e (P (fst v1)) v1)"
  shows "valid (\<lambda>w. view e w = v0 \<and> rooted e w) (bindM (recover_if_managed e) f)
    (reached e (P (fst v0)) v0) (fate e (P (fst v0)) v0)"
proof -
  obtain s x j where v0: "v0 = (s, x, j)" by (rule prod_cases3)
  show ?thesis
  proof (rule valid_bind)
    show "valid (\<lambda>w. view e w = v0 \<and> rooted e w) (recover_if_managed e)
        (\<lambda>_ w. fst (view e w) = fst v0 \<and> settled e (view e w)) (fate e (P (fst v0)) v0)"
      using recover_if_managed_view [OF ok rec [unfolded v0]] v0 by simp
    have "valid (\<lambda>w. view e w = v1) (f a) (reached e (P (fst v0)) v0) (fate e (P (fst v0)) v0)"
      if "fst v1 = fst v0 \<and> settled e v1" for v1 a
      using shift_outcome [OF rest [of v1 a], of v0] that by simp
    then show "valid (\<lambda>w. fst (view e w) = fst v0 \<and> settled e (view e w)) (f a) (reached e (P (fst v0)) v0) (fate e (P (fst v0)) v0)" for a
      by (rule valid_by_view [where P = "\<lambda>v1. fst v1 = fst v0 \<and> settled e v1"])
  qed
qed

lemma settled_rooted: "settled e v1 \<Longrightarrow> view e w = v1 \<Longrightarrow> rooted e w"
  by (auto simp: settled_def rooted_def view_def)

lemma activate_download_fate:
  fixes e :: "('v, 'z) env_scheme"
  assumes ok: "env_ok e" and st: "settled e v0"
  shows "valid (\<lambda>w. view e w = v0) (activate_download e probe md archive v)
    (reached e (\<lambda>u. u = v \<and> climbs e (fst v0) u) v0) (fate e (\<lambda>u. u = v \<and> climbs e (fst v0) u) v0)"
proof -
  note lay = env_okD(1) [OF ok]
  have "valid (\<lambda>w. view e w = v0 \<and> rooted e w) (activate_download e probe md archive v)
    (reached e (\<lambda>u. u = v \<and> climbs e (fst v0) u) v0) (fate e (\<lambda>u. u = v \<and> climbs e (fst v0) u) v0)"
    unfolding activate_download_def
    apply (rule bind_recovered [OF ok settled_recoverable [OF st], where P = "\<lambda>s u. u = v \<and> climbs e s u"])
    subgoal premises st for v1
      by (rule keep_fate [OF lay _ settled_recoverable [OF st(1)]], (intro touches_intros)[1],
          rule keep_fate [OF lay _ settled_recoverable [OF st(1)]], (intro touches_intros)[1],
          rule keep_fate [OF lay _ settled_recoverable [OF st(1)]], (intro touches_intros touches_prove_retained lay)[1],
          rule keep_fate [OF lay _ settled_recoverable [OF st(1)]], rule touches_lock(1) [OF lay],
          rule activate_download_locked_fate [OF ok st(1)])
    done
  then show ?thesis
    by (rule valid_pre) (simp add: settled_rooted [OF st])
qed

lemma activate_existing_fate:
  fixes e :: "('v, 'z) env_scheme"
  assumes ok: "env_ok e" and st: "settled e v0"
  shows "valid (\<lambda>w. view e w = v0) (activate_existing e probe v)
    (reached e (\<lambda>u. u = v \<and> descends e (fst v0) u) v0) (fate e (\<lambda>u. u = v \<and> descends e (fst v0) u) v0)"
  unfolding activate_existing_def
  by (rule keep_fate [OF env_okD(1) [OF ok] touches_lock(1) [OF env_okD(1) [OF ok]] settled_recoverable [OF st]],
      rule activate_existing_locked_fate [OF ok st])

subsection \<open>The public operations\<close>

lemma install_version_fate:
  fixes e :: "('v, 'z) env_scheme"
  assumes ok: "env_ok e" and rec: "recoverable e v0"
  shows "valid (\<lambda>w. view e w = v0 \<and> rooted e w) (install_version e probe v)
    (reached e (\<lambda>u. u = v \<and> climbs e (fst v0) u) v0) (fate e (\<lambda>u. u = v \<and> climbs e (fst v0) u) v0)"
  unfolding install_version_def
  apply (rule bind_recovered [OF ok rec, where P = "\<lambda>s u. u = v \<and> climbs e s u"])
  subgoal premises st for v1
    by (rule keep_fate [OF env_okD(1) [OF ok] touches_metadata(1) settled_recoverable [OF st(1)]],
        rule liftE_fate [OF settled_recoverable [OF st(1)]],
        rule keep_fate [OF env_okD(1) [OF ok] _ settled_recoverable [OF st(1)]], (intro touches_intros)[1],
        rule activate_download_fate [OF ok st(1)])
  done

text \<open>The current version \<open>require_managed_current\<close> returns is the one the selector points to.\<close>

lemma managed_current_view:
  fixes e :: "('v, 'z) env_scheme"
  assumes ok: "env_ok e"
  shows "valid (\<lambda>w. view e w = v0) (require_managed_current e)
    (\<lambda>c w. view e w = v0 \<and> points_to e c (fst v0)) (\<lambda>w. view e w = v0)"
proof (rule keep_result [OF env_okD(1) [OF ok] touches_workspace [OF touches_require_managed [OF env_okD(1) [OF ok]]]])
  fix w c w' assume v: "view e w = v0" and m: "require_managed_current e w = (Inr c, w')"
  obtain s x j where v0: "v0 = (s, x, j)" by (rule prod_cases3)
  from m obtain p w1 where "read_pointer_unlocked e w = (Inr p, w1)" "p = Some c"
    by (auto simp: require_managed_current_def bindM_return_iff returnM_apply liftE_apply)
  with valid_InrD [OF read_cells_view(3) [OF ok] v [unfolded v0]] show "points_to e c (fst v0)"
    by (auto simp: v0 selected_def)
qed

lemma update_fate:
  fixes e :: "('v, 'z) env_scheme"
  assumes ok: "env_ok e" and rec: "recoverable e v0"
  shows "valid (\<lambda>w. view e w = v0 \<and> rooted e w) (update e probe)
    (reached e (climbs e (fst v0)) v0) (fate e (climbs e (fst v0)) v0)"
  unfolding update_def
  apply (rule bind_recovered [OF ok rec, where P = "climbs e"])
  subgoal premises st for v1
    apply (rule look_fate [OF managed_current_view [OF ok] settled_recoverable [OF st(1)]])
    apply (rule keep_fate [OF env_okD(1) [OF ok] touches_metadata(2) settled_recoverable [OF st(1)]])
    apply (rule valid_if, rule throw_fate [OF settled_recoverable [OF st(1)]])
    apply (rule valid_if, rule return_reached [OF st(1)], simp)
    apply (rule liftE_fate [OF settled_recoverable [OF st(1)]])
    apply (rule keep_fate [OF env_okD(1) [OF ok] _ settled_recoverable [OF st(1)]], (intro touches_intros)[1])
    apply (rule weaken_outcome [OF activate_download_fate [OF ok st(1)]], simp)
    done
  done

lemma rollback_to_fate:
  fixes e :: "('v, 'z) env_scheme"
  assumes ok: "env_ok e" and rec: "recoverable e v0"
  shows "valid (\<lambda>w. view e w = v0 \<and> rooted e w) (rollback_to e probe v)
    (reached e (\<lambda>u. u = v \<and> descends e (fst v0) u) v0) (fate e (\<lambda>u. u = v \<and> descends e (fst v0) u) v0)"
  unfolding rollback_to_def
  apply (rule bind_recovered [OF ok rec, where P = "\<lambda>s u. u = v \<and> descends e s u"])
  subgoal premises st for v1
    apply (rule look_fate [OF managed_current_view [OF ok] settled_recoverable [OF st(1)]])
    apply (rule ensure_fate [OF settled_recoverable [OF st(1)]], rule activate_existing_fate [OF ok st(1)])
    done
  done

lemma rollback_fate:
  fixes e :: "('v, 'z) env_scheme"
  assumes ok: "env_ok e" and rec: "recoverable e v0"
  shows "valid (\<lambda>w. view e w = v0 \<and> rooted e w) (rollback e probe)
    (reached e (descends e (fst v0)) v0) (fate e (descends e (fst v0)) v0)"
  unfolding rollback_def
  apply (rule bind_recovered [OF ok rec, where P = "descends e"])
  subgoal premises st for v1
    apply (rule look_fate [OF managed_current_view [OF ok] settled_recoverable [OF st(1)]])
    apply (rule keep_fate [OF env_okD(1) [OF ok] touches_install_state settled_recoverable [OF st(1)]])
    apply (rule liftE_fate [OF settled_recoverable [OF st(1)]], rule liftE_fate [OF settled_recoverable [OF st(1)]])
    apply (rule ensure_fate [OF settled_recoverable [OF st(1)]])
    apply (rule weaken_outcome [OF activate_existing_fate [OF ok st(1)]], simp)
    done
  done

lemma install_fate:
  fixes e :: "('v, 'z) env_scheme"
  assumes ok: "env_ok e" and rec: "recoverable e v0"
  shows "valid (\<lambda>w. view e w = v0 \<and> rooted e w) (install e probe) (reached e (climbs e (fst v0)) v0) (fate e (climbs e (fst v0)) v0)"
proof (cases "version_parse e (app_version (e_app e))")
  case None
  then have "install e probe = throwM (Invalid ''invalid package version'')"
    by (simp add: install_def ok_orE_def)
  then show ?thesis by (simp only:) (rule valid_pre [OF throw_fate [OF rec]], simp)
next
  case (Some v)
  then have "install e probe = install_version e probe v" by (simp add: install_def ok_orE_def)
  then show ?thesis using weaken_outcome [OF install_version_fate [OF assms], where ok' = "climbs e (fst v0)"] by simp
qed

lemma check_latest_fate:
  fixes e :: "('v, 'z) env_scheme"
  assumes ok: "env_ok e" and rec: "recoverable e (s, x, j)"
  shows "valid (\<lambda>w. view e w = (s, x, j) \<and> rooted e w) (check_latest e)
    (\<lambda>_ w. fst (view e w) = s \<and> settled e (view e w)) (fate e (\<lambda>_. False) (s, x, j))"
  unfolding check_latest_def
proof (rule valid_bind [OF recover_if_managed_view [OF ok rec]])
  fix a
  show "valid (\<lambda>w. fst (view e w) = s \<and> settled e (view e w))
      (bindM (installer_latest_metadata e) (\<lambda>md.
       bindM (liftIO (lexists (e_root e))) (\<lambda>root.
       bindM (if \<not> root then returnM False
              else bindM (read_install_state e) (\<lambda>i. if i \<noteq> None then returnM True else pointer_path_exists e)) (\<lambda>known.
       bindM (if known then read_pointer_unlocked e else returnM None) (\<lambda>current.
       bindM (if current = None then returnM False
              else bindM (tryM (liftIO (open_existing (install_state_path e))) :: ('v, 'v install_error + node) inst)
                     (\<lambda>r. returnM (is_ok r))) (\<lambda>managed.
       returnM \<lparr>cr_current = current, cr_latest = rm_version md, cr_managed = managed\<rparr>))))))
      (\<lambda>_ w. fst (view e w) = s \<and> settled e (view e w)) (fate e (\<lambda>_. False) (s, x, j))"
    by (rule valid_view [OF env_okD(1) [OF ok], where P = "\<lambda>v. fst v = s \<and> settled e v"])
      (intro touches_intros, auto simp: fate_def settled_recoverable)
qed

subsection \<open>Histories\<close>

text \<open>
  The public operations, and the worlds they lead to from a machine on which nothing is installed.
  Between two operations anything may happen that leaves the three cells alone: the process dies
  and a new one starts with a new schedule, other programs write other files.
\<close>

datatype 'v operation = Install probe | InstallVersion 'v probe | Update probe | Rollback probe
  | RollbackTo 'v probe | CheckLatest | Recover

fun run_operation :: "('v, 'z) env_scheme \<Rightarrow> 'v operation \<Rightarrow> world \<Rightarrow> world" where
  "run_operation e (Install probe) w = snd (install e probe w)"
| "run_operation e (InstallVersion v probe) w = snd (install_version e probe v w)"
| "run_operation e (Update probe) w = snd (update e probe w)"
| "run_operation e (Rollback probe) w = snd (rollback e probe w)"
| "run_operation e (RollbackTo v probe) w = snd (rollback_to e probe v w)"
| "run_operation e CheckLatest w = snd (check_latest e w)"
| "run_operation e Recover w = snd (recover_if_managed e w)"

inductive history :: "('v, 'z) env_scheme \<Rightarrow> world \<Rightarrow> bool" for e where
  fresh: "view e w = (None, None, None) \<Longrightarrow> history e w"
| step: "history e w \<Longrightarrow> rooted e w \<Longrightarrow> history e (run_operation e op w)"
| elsewhere: "history e w \<Longrightarrow> view e w' = view e w \<Longrightarrow> history e w'"

text \<open>The versions an operation may move the selector to.\<close>

fun may_select :: "('v, 'z) env_scheme \<Rightarrow> 'v operation \<Rightarrow> node option \<Rightarrow> 'v \<Rightarrow> bool" where
  "may_select e (Install _) s v = climbs e s v"
| "may_select e (InstallVersion u _) s v = (v = u \<and> climbs e s v)"
| "may_select e (Update _) s v = climbs e s v"
| "may_select e (Rollback _) s v = descends e s v"
| "may_select e (RollbackTo u _) s v = (v = u \<and> descends e s v)"
| "may_select e CheckLatest s v = False"
| "may_select e Recover s v = False"

lemma outcome_fate:
  assumes "valid P m (reached e ok v0) (fate e ok v0)" and "P w"
  shows "fate e ok v0 (snd (m w))"
  by (rule valid_snd [OF valid_post [OF assms(1)] assms(2)]) (simp_all add: reached_def)

lemma run_operation_fate:
  fixes e :: "('v, 'z) env_scheme"
  assumes ok: "env_ok e" and rec: "recoverable e (view e w)" and root: "rooted e w"
  shows "fate e (may_select e op (fst (view e w))) (view e w) (run_operation e op w)"
proof -
  obtain s x j where v: "view e w = (s, x, j)" by (rule prod_cases3)
  have pre: "view e w = view e w \<and> rooted e w" using root by simp
  have still: "fate e (\<lambda>_. False) (view e w) (snd (m w))"
    if "valid (\<lambda>w. view e w = (s, x, j) \<and> rooted e w) m
      (\<lambda>_ w. fst (view e w) = s \<and> settled e (view e w)) (fate e (\<lambda>_. False) (s, x, j))" for m :: "('v, 'c) inst"
  proof (rule valid_snd [OF valid_post [OF that]])
    show "view e w = (s, x, j) \<and> rooted e w" using v root by simp
    show "fate e (\<lambda>_. False) (view e w) w'" if "fst (view e w') = s \<and> settled e (view e w')" for w'
      using that v settled_recoverable [of e "view e w'"] by (simp add: fate_same)
    show "fate e (\<lambda>_. False) (view e w) w'" if "fate e (\<lambda>_. False) (s, x, j) w'" for w'
      using that v by simp
  qed
  show ?thesis
  proof (cases op)
    case (Install p)
    then show ?thesis using outcome_fate [OF install_fate [OF ok rec] pre] by (simp add: fate_def)
  next
    case (InstallVersion u p)
    then show ?thesis using outcome_fate [OF install_version_fate [OF ok rec] pre] by (simp add: fate_def)
  next
    case (Update p)
    then show ?thesis using outcome_fate [OF update_fate [OF ok rec] pre] by (simp add: fate_def)
  next
    case (Rollback p)
    then show ?thesis using outcome_fate [OF rollback_fate [OF ok rec] pre] by (simp add: fate_def)
  next
    case (RollbackTo u p)
    then show ?thesis using outcome_fate [OF rollback_to_fate [OF ok rec] pre] by (simp add: fate_def)
  next
    case CheckLatest
    then show ?thesis using still [OF check_latest_fate [OF ok rec [unfolded v]]] by (simp add: fate_def)
  next
    case Recover
    then show ?thesis using still [OF recover_if_managed_view [OF ok rec [unfolded v]]] by (simp add: fate_def)
  qed
qed

lemma history_recoverable:
  assumes "history e w" and "env_ok e"
  shows "recoverable e (view e w)"
  using assms(1)
proof induction
  case (fresh w)
  then have "settled e (view e w)" by (auto simp: settled_def selected_def recorded_def intro!: exI [of _ None])
  then show ?case by (rule settled_recoverable)
next
  case (step w op)
  from run_operation_fate [OF assms(2) step.IH step.hyps(2), of op] show ?case by (simp add: fate_def)
qed simp

end
