(* ===== verification/Sample_Installation.thy ===== *)
theory Sample_Installation
  imports Release_Properties History
begin

text \<open>
  A concrete machine: a toy tar layout (decimal numbers in the header fields), URLs on one host, the
  codecs of \<^verbatim>\<open>Sample\<close> for the state documents, a Linux host and a server with two releases. On it
  the hypotheses on the environment hold, and a whole installation runs by evaluation.
\<close>

subsection \<open>Archives\<close>

definition pad :: "nat \<Rightarrow> bytes \<Rightarrow> bytes" where
  "pad n s = s @ replicate (n - length s) (CHR 0x00)"

definition tar_field :: "nat \<Rightarrow> nat \<Rightarrow> bytes \<Rightarrow> nat option" where
  "tar_field i n b = (let d = takeWhile is_ascii_digit (take n (drop i b))
     in if d = [] then None else Some (digits_value d))"

definition tar_header :: "string \<Rightarrow> nat \<Rightarrow> nat \<Rightarrow> char \<Rightarrow> bytes" where
  "tar_header name mode len ty =
     (let front = pad 100 name @ pad 24 (decimal mode) @ pad 24 (decimal len);
          back = ty # replicate 355 (CHR 0x00);
          cks = checksum (front @ replicate 8 (CHR 0x00) @ back)
      in front @ pad 8 (decimal (unat cks)) @ back)"

definition sample_tar_type :: "bytes \<Rightarrow> tar_type" where
  "sample_tar_type b = (let c = b ! 156 in
     if c = CHR ''0'' then TarRegular else if c = CHR ''5'' then TarDirectory
     else if c = CHR ''2'' then TarSymlink else if c = CHR ''x'' then TarPaxLocal else TarOther)"

definition tar_file :: "string \<Rightarrow> bytes \<Rightarrow> bytes" where
  "tar_file name b = tar_header name 0x1ED (length b) (CHR ''0'')
     @ b @ replicate ((512 - length b mod 512) mod 512) (CHR 0x00)"

definition sample_archive :: "string \<Rightarrow> string \<Rightarrow> bytes \<Rightarrow> bytes" where
  "sample_archive root name b = tar_header (root @ ''/'') 0x1ED 0 (CHR ''5'')
     @ tar_file (root @ ''/'' @ name) b @ replicate 512 (CHR 0x00)"

subsection \<open>State documents\<close>

definition char_codec :: "char codec" where
  "char_codec = (\<lambda>c. [c], \<lambda>b. case b of [] \<Rightarrow> None | c # r \<Rightarrow> Some (c, r))"

definition component_codec :: "component codec" where
  "component_codec = iso_codec
     (\<lambda>c. case c of Prefix s \<Rightarrow> (CHR ''p'', s) | RootDir \<Rightarrow> (CHR ''/'', []) | CurDir \<Rightarrow> (CHR ''.'', [])
        | ParentDir \<Rightarrow> (CHR ''u'', []) | Normal s \<Rightarrow> (CHR ''n'', s))
     (\<lambda>(c, s). if c = CHR ''p'' then Prefix s else if c = CHR ''/'' then RootDir
        else if c = CHR ''.'' then CurDir else if c = CHR ''u'' then ParentDir else Normal s)
     (pair_codec char_codec string_codec)"

definition launcher_metadata_codec :: "launcher_metadata codec" where
  "launcher_metadata_codec = iso_codec (\<lambda>l. (lm_path l, lm_sha256 l, lm_size l, lm_protocol l))
     (\<lambda>(a, b, c, d). \<lparr>lm_path = a, lm_sha256 = b, lm_size = c, lm_protocol = d\<rparr>)
     (pair_codec string_codec (pair_codec string_codec (pair_codec word_codec word_codec)))"

definition ownership_codec :: "launcher_ownership codec" where
  "ownership_codec = iso_codec
     (\<lambda>l. (if lo_owned l then CHR ''t'' else CHR ''f'', lo_path l, lo_sha256 l, lo_size l, lo_protocol l))
     (\<lambda>(a, b, c, d, e). \<lparr>lo_owned = (a = CHR ''t''), lo_path = b, lo_sha256 = c, lo_size = d, lo_protocol = e\<rparr>)
     (pair_codec char_codec (pair_codec (list_codec component_codec)
        (pair_codec string_codec (pair_codec word_codec word_codec))))"

definition version_state_codec :: "nat version_state codec" where
  "version_state_codec = iso_codec
     (\<lambda>s. (vs_schema_version s, vs_version s, vs_target s, vs_binary_sha256 s, vs_size s, vs_installation_id s, vs_launcher s))
     (\<lambda>(a, b, c, d, e, f, g). \<lparr>vs_schema_version = a, vs_version = b, vs_target = c, vs_binary_sha256 = d,
        vs_size = e, vs_installation_id = f, vs_launcher = g\<rparr>)
     (pair_codec word_codec (pair_codec nat_codec (pair_codec target_codec (pair_codec string_codec
        (pair_codec word_codec (pair_codec string_codec (option_codec launcher_metadata_codec)))))))"

definition install_state_codec :: "nat install_state codec" where
  "install_state_codec = iso_codec
     (\<lambda>s. (is_schema_version s, is_active s, is_previous s, is_installation_id s, is_launcher s))
     (\<lambda>(a, b, c, d, e). \<lparr>is_schema_version = a, is_active = b, is_previous = c, is_installation_id = d, is_launcher = e\<rparr>)
     (pair_codec word_codec (pair_codec (option_codec nat_codec) (pair_codec (option_codec nat_codec)
        (pair_codec string_codec (option_codec ownership_codec)))))"

definition pending_codec :: "nat pending_activation codec" where
  "pending_codec = iso_codec (\<lambda>p. (pa_schema_version p, pa_from p, pa_to p, pa_transaction_id p))
     (\<lambda>(a, b, c, d). \<lparr>pa_schema_version = a, pa_from = b, pa_to = c, pa_transaction_id = d\<rparr>)
     (pair_codec word_codec (pair_codec (option_codec nat_codec) (pair_codec nat_codec string_codec)))"

lemma char_codec_ok: "codec_ok char_codec"
  by (simp add: codec_ok_def char_codec_def)

lemma component_codec_ok: "codec_ok component_codec"
  unfolding component_codec_def
  by (intro iso_codec_ok codecs_ok char_codec_ok) (simp split: component.splits)

lemma launcher_metadata_codec_ok: "codec_ok launcher_metadata_codec"
  unfolding launcher_metadata_codec_def by (intro iso_codec_ok codecs_ok) simp

lemma ownership_codec_ok: "codec_ok ownership_codec"
  unfolding ownership_codec_def by (intro iso_codec_ok codecs_ok char_codec_ok component_codec_ok) simp

lemma version_state_codec_ok: "codec_ok version_state_codec"
  unfolding version_state_codec_def by (intro iso_codec_ok codecs_ok launcher_metadata_codec_ok) simp

lemma install_state_codec_ok: "codec_ok install_state_codec"
  unfolding install_state_codec_def by (intro iso_codec_ok codecs_ok ownership_codec_ok) simp

lemma pending_codec_ok: "codec_ok pending_codec"
  unfolding pending_codec_def by (intro iso_codec_ok codecs_ok) simp

subsection \<open>Releases and the server\<close>

definition sample_release :: "nat \<Rightarrow> bytes \<Rightarrow> bytes" where
  "sample_release v payload = sample_archive (target_root_name sample_lib X86_64UnknownLinuxGnu sample_app v) ''demo'' payload"

definition release_manifest_bytes :: "nat \<Rightarrow> bytes \<Rightarrow> bytes" where
  "release_manifest_bytes v payload = (let archive = sample_release v payload in
     encode manifest_codec \<lparr>m_schema_version = 2, m_version = v, m_published_at = ''1000'',
       m_expires_at = ''2000'', m_targets = [(X86_64UnknownLinuxGnu,
         asset_new sample_lib sample_app v X86_64UnknownLinuxGnu (of_nat (length archive)) (sample_sha256 archive)
           (of_nat (length payload)) (sample_sha256 payload))]\<rparr>)"

definition release_signature_bytes :: "nat \<Rightarrow> bytes \<Rightarrow> bytes" where
  "release_signature_bytes v payload = encode envelope_codec
     \<lparr>env_schema_version = 1, env_signatures = [\<lparr>e_key_id = ''k'', e_algorithm = ''ed25519'',
        e_signature = sample_sign (sample_public ''secret'') (release_manifest_bytes v payload)\<rparr>]\<rparr>"

definition sample_payload :: "nat \<Rightarrow> bytes" where
  "sample_payload v = ''binary '' @ sample_version_string v"

definition sample_base :: "nat \<Rightarrow> url" where
  "sample_base v = ''https://h/r/releases/download/v'' @ sample_version_string v @ ''/''"

definition serve :: "nat list \<Rightarrow> url \<Rightarrow> (url \<times> bytes) option" where
  "serve versions u =
     (if versions \<noteq> [] \<and> u = ''https://h/r/releases/latest/download/demo-release.json''
      then Some (sample_base (last versions) @ ''demo-release.json'',
             release_manifest_bytes (last versions) (sample_payload (last versions)))
      else map_option (Pair u) (map_of (concat (map (\<lambda>v.
        [(sample_base v @ ''demo-release.json'', release_manifest_bytes v (sample_payload v)),
         (sample_base v @ ''demo-release.signatures.json'', release_signature_bytes v (sample_payload v)),
         (sample_base v @ archive_name sample_lib X86_64UnknownLinuxGnu sample_app v, sample_release v (sample_payload v))])
        versions)) u))"

definition sample_downloader :: "nat list \<Rightarrow> nat \<Rightarrow> url \<Rightarrow> nat \<Rightarrow> release_error + download_response" where
  "sample_downloader versions n u limit = (case serve versions u of
       None \<Rightarrow> Inl (Download ''not found'')
     | Some (final, b) \<Rightarrow> Inr \<lparr>dr_requested = u, dr_final = final, dr_history = [], dr_bytes = b\<rparr>)"

subsection \<open>The machine\<close>

definition sample_host :: host where
  "sample_host = \<lparr>h_windows = False, h_unix = Linux, h_uid = 1000, h_pid = 7, h_umask = 0x12, h_cwd = [RootDir],
     h_sid = ''S-1-5-21-7'', h_sddl = (\<lambda>_. None), h_case_sensitive = (\<lambda>_. False)\<rparr>"

definition sample_env :: "nat list \<Rightarrow> nat env" where
  "sample_env versions = \<lparr>version_parse = sample_version_parse, version_string = sample_version_string,
     version_zero = 0, sha256_hex = sample_sha256,
     manifest_of_json = decode manifest_codec, json_of_manifest = encode manifest_codec,
     parse_rfc3339 = sample_rfc3339,
     base64_decode = Some, base64_encode = id, verifying_key = (\<lambda>_. True),
     verify_strict = (\<lambda>pk msg sig. sig = sample_sign pk msg),
     sign = (\<lambda>sk. sample_sign (sample_public sk)), public_of = sample_public,
     envelope_of_json = decode envelope_codec, json_of_envelope = encode envelope_codec,
     key_set_of_json = decode key_set_codec,
     gz_decode = reader_of, tar_type_of = sample_tar_type,
     tar_cksum = (\<lambda>b. map_option of_nat (tar_field 148 8 b)), tar_size = (\<lambda>b. map_option of_nat (tar_field 124 24 b)),
     tar_path_bytes = (\<lambda>b. takeWhile (\<lambda>c. c \<noteq> CHR 0x00) (take 100 b)),
     tar_mode = (\<lambda>b. map_option of_nat (tar_field 100 24 b)), zip_open = (\<lambda>_. None),
     url_parse = Some, url_join = (\<lambda>u s. Some (u @ s)), url_scheme = takeWhile (\<lambda>c. c \<noteq> CHR '':''),
     url_path = drop 9, url_query = (\<lambda>_. None), url_fragment = (\<lambda>_. None),
     url_segments = (\<lambda>u. Some (split_on (CHR ''/'') (drop 10 u))),
     url_set_path = (\<lambda>p u. take 9 u @ p), url_set_query = (\<lambda>_. id), url_set_fragment = (\<lambda>_. id),
     downloader = sample_downloader versions, agent_get = (\<lambda>_ _. None),
     e_app = sample_app, e_root = [RootDir, Normal ''data''],
     e_command = [RootDir, Normal ''bin'', Normal ''demo''], e_host = sample_host,
     e_target = Some X86_64UnknownLinuxGnu, e_keys = None, e_component_eq = (=), version_less = (<),
     hex_encode = sample_sha256,
     version_state_of_json = decode version_state_codec, json_of_version_state = encode version_state_codec,
     install_of_json = decode install_state_codec, json_of_install = encode install_state_codec,
     pending_of_json = decode pending_codec, json_of_pending = encode pending_codec\<rparr>"

definition sample_world :: "io_step list \<Rightarrow> world" where
  "sample_world ss =
     (let root = Directory \<lparr>at_uid = 0, at_mode = 0x1ED, at_nlink = 1, at_reparse = False, at_security = inherited_descriptor\<rparr>
      in \<lparr>files = [([RootDir], root), ([RootDir, Normal ''bin''], root)], sched = ss, temp_counter = 0,
          rng = (\<lambda>n. replicate 32 (char_of n)), rng_pos = 0, clock = (\<lambda>_. 1500 * 1000000000), clock_pos = 0, net_pos = 0\<rparr>)"

definition sample_probe :: probe where
  "sample_probe = \<lparr>pr_spawns = [Spawned], pr_job = \<lparr>job_created = True, job_configured = True, job_assigned = True\<rparr>,
     pr_child = 42, pr_threads = Some [\<lparr>te_owner = 7, te_opens = True, te_resumes = True\<rparr>, \<lparr>te_owner = 42, te_opens = True, te_resumes = True\<rparr>],
     pr_pipes = True, pr_observed = []\<rparr>"

text \<open>The hypotheses of the theorems hold for the machine.\<close>

lemma sample_env_simps [simp]:
  "version_parse (sample_env vs) = sample_version_parse" "version_string (sample_env vs) = sample_version_string"
  "e_root (sample_env vs) = [RootDir, Normal ''data'']" "e_host (sample_env vs) = sample_host"
  "e_command (sample_env vs) = [RootDir, Normal ''bin'', Normal ''demo'']" "e_app (sample_env vs) = sample_app"
  "e_component_eq (sample_env vs) = (=)" "\<not> h_windows sample_host" "version_less (sample_env vs) = (<)"
  "install_of_json (sample_env vs) = decode install_state_codec" "json_of_install (sample_env vs) = encode install_state_codec"
  "pending_of_json (sample_env vs) = decode pending_codec" "json_of_pending (sample_env vs) = encode pending_codec"
  "version_state_of_json (sample_env vs) = decode version_state_codec"
  "json_of_version_state (sample_env vs) = encode version_state_codec"
  by (simp_all add: sample_env_def sample_host_def)

lemma sample_env_semver: "semver_ok (sample_env vs)"
  using sample_semver_ok by (simp add: semver_ok_def)

lemma sample_configuration: "is_ok (validate_configuration (sample_env vs))"
  by (simp add: validate_configuration_def validate_command_path_def same_path_def path_starts_with_def
      active_path_def lock_path_def staging_dir_def versions_dir_def install_state_path_def pending_path_def join_def
      is_safe_basename_def sample_app_def bindE_def ensureE_def is_ok_def)

lemma sample_layout: "layout_ok (sample_env vs)"
  using sample_configuration by (auto simp: layout_ok_def temp_like_def file_name_def)

lemma sample_json: "json_ok (sample_env vs)"
  by (simp add: json_ok_def decode_encode version_state_codec_ok install_state_codec_ok pending_codec_ok)

lemma sample_env_ok: "env_ok (sample_env vs)"
  by (simp add: env_ok_def sample_layout sample_json sample_env_semver)

lemma sample_world_view: "view (sample_env vs) (sample_world ss) = (None, None, None)"
  by (simp add: view_def selector_path_def lookup_def sample_world_def Let_def pending_path_def install_state_path_def join_def)

lemma sample_world_rooted: "rooted (sample_env vs) (sample_world ss)"
  by (simp add: rooted_def lookup_def sample_world_def Let_def pending_path_def join_def)

lemma sample_world_recoverable: "recoverable (sample_env vs) (view (sample_env vs) (sample_world ss))"
  by (rule settled_recoverable)
    (auto simp: sample_world_view settled_def selected_def recorded_def intro!: exI [of _ None])

lemma sample_selector: "lookup (sample_world ss) [RootDir, Normal ''bin'', Normal ''demo''] = None"
  by (simp add: lookup_def sample_world_def Let_def)

lemmas sample_machine = sample_env_ok sample_world_recoverable sample_world_rooted sample_selector

end
