(* ===== verification/Sample_Tool.thy ===== *)
theory Sample_Tool
  imports Tool_Commands Sample_Installation "HOL-Library.Code_Target_Nat"
begin

text \<open>
  A machine on which the release tool runs: the toy operations of \<^verbatim>\<open>Sample\<close>, a base64 that writes each
  byte as two letters, key documents that may end in a newline, and a Windows archive with its central
  directory, whose inspection succeeds.
\<close>

definition sample_base64_encode :: "bytes \<Rightarrow> string" where
  "sample_base64_encode b = concat (map (\<lambda>c. [char_of (97 + of_char c div 16 :: nat), char_of (97 + of_char c mod 16 :: nat)]) b)"

fun sample_base64_decode :: "string \<Rightarrow> bytes option" where
  "sample_base64_decode [] = Some []"
| "sample_base64_decode [c] = None"
| "sample_base64_decode (c # d # s) = map_option ((#) (char_of (((of_char c :: nat) - 97) * 16 + ((of_char d :: nat) - 97))))
     (sample_base64_decode s)"

definition sample_key_set :: "bytes \<Rightarrow> trusted_key_set option" where
  "sample_key_set b = decode key_set_codec (case strip_suffix [CHR 0x0A] b of Some c \<Rightarrow> c | None \<Rightarrow> b)"

definition sample_utc_rfc3339 :: "int \<Rightarrow> string" where
  "sample_utc_rfc3339 t = decimal (nat (t div 1000000000))"

text \<open>A Windows archive: the central directory of a directory, the payload and the launcher, and its
  end record. What the crate reads from it are the three entries.\<close>

definition sample_root :: string where
  "sample_root = ''demo-1.0.7-x86_64-pc-windows-msvc''"

definition fixed_header :: "char \<Rightarrow> bytes" where
  "fixed_header len = CENTRAL_SIGNATURE @ replicate 24 (CHR 0x00) @ [len, CHR 0x00] @ replicate 16 (CHR 0x00)"

definition central_header :: "char \<Rightarrow> string \<Rightarrow> bytes" where
  "central_header len name = fixed_header len @ name"

definition sample_directory :: bytes where
  "sample_directory = central_header (CHR 0x22) (sample_root @ ''/'') @ central_header (CHR 0x2A) (sample_root @ ''/demo.exe'')
     @ central_header (CHR 0x33) (sample_root @ ''/demo-launcher.exe'')"

definition end_record :: bytes where
  "end_record = EOCD_SIGNATURE @ replicate 4 (CHR 0x00) @ [CHR 0x03, CHR 0x00, CHR 0x03, CHR 0x00]
     @ [CHR 0x09, CHR 0x01, CHR 0x00, CHR 0x00] @ replicate 6 (CHR 0x00)"

definition sample_zip :: bytes where
  "sample_zip = sample_directory @ end_record"

definition sample_entry :: "string \<Rightarrow> bytes \<Rightarrow> zip_entry" where
  "sample_entry name b = \<lparr>z_name_raw = sample_root @ ''/'' @ name, z_encrypted = False, z_compression = Stored,
     z_symlink = False, z_unix_mode = None, z_size = of_nat (length b), z_dir = (name = []), z_reader = reader_of b\<rparr>"

definition sample_entries :: "bytes \<Rightarrow> zip_entry option list option" where
  "sample_entries b = (if b = sample_zip
     then Some [Some (sample_entry [] []), Some (sample_entry ''demo.exe'' ''payload''),
       Some (sample_entry ''demo-launcher.exe'' ''launcher'')]
     else None)"

definition sample_tool :: "nat tlib" where
  "sample_tool = \<lparr>version_parse = sample_version_parse, version_string = sample_version_string,
     version_zero = 0, sha256_hex = sample_sha256,
     manifest_of_json = decode manifest_codec, json_of_manifest = encode manifest_codec,
     parse_rfc3339 = sample_rfc3339,
     base64_decode = sample_base64_decode, base64_encode = sample_base64_encode, verifying_key = (\<lambda>_. True),
     verify_strict = (\<lambda>pk msg sig. sig = sample_sign pk msg),
     sign = (\<lambda>sk. sample_sign (sample_public sk)), public_of = sample_public,
     envelope_of_json = decode envelope_codec, json_of_envelope = encode envelope_codec,
     key_set_of_json = sample_key_set,
     gz_decode = reader_of, tar_type_of = sample_tar_type,
     tar_cksum = (\<lambda>b. map_option of_nat (tar_field 148 8 b)), tar_size = (\<lambda>b. map_option of_nat (tar_field 124 24 b)),
     tar_path_bytes = (\<lambda>b. takeWhile (\<lambda>c. c \<noteq> CHR 0x00) (take 100 b)),
     tar_mode = (\<lambda>b. map_option of_nat (tar_field 100 24 b)), zip_open = sample_entries,
     t_host = sample_host, private_key_var = None, json_of_key_set = encode key_set_codec,
     utc_rfc3339 = sample_utc_rfc3339, tar_entries = (\<lambda>_. None), zip_name = (\<lambda>z. from_utf8 (z_name_raw z))\<rparr>"

definition keygen_args :: arguments where
  "keygen_args = \<lparr>ar_command = Some ''keygen'', ar_values = [(''id'', [''k'']), (''private-key'', [''/bin/priv'']),
     (''public-key'', [''/bin/pub''])], ar_flags = {}, ar_positionals = []\<rparr>"

definition sample_archive_path :: path where
  "sample_archive_path = [RootDir, Normal ''bin'', Normal (sample_root @ ''.zip'')]"

definition with_archive :: "world \<Rightarrow> world" where
  "with_archive = put sample_archive_path (RegularFile (new_attr sample_host 0x1A4) sample_zip)"

definition tool_app :: app where
  "tool_app = \<lparr>app_name = ''demo'', app_version = ''0.0.0'', app_repository_url = ''https://example.invalid/'',
     app_trust_anchor = EMPTY_TRUST_ANCHOR, app_activation = WindowsLauncher ''demo-launcher.exe'' 1,
     app_self_test = None\<rparr>"

definition tool_asset :: release_asset where
  "tool_asset = \<lparr>a_archive = sample_root @ ''.zip'', a_archive_sha256 = sample_sha256 sample_zip,
     a_archive_size = of_nat (length sample_zip),
     a_payload = \<lparr>p_path = sample_root @ ''/demo.exe'', p_sha256 = sample_sha256 ''payload'', p_size = 7\<rparr>,
     a_launcher = Some \<lparr>l_path = sample_root @ ''/demo-launcher.exe'', l_sha256 = sample_sha256 ''launcher'', l_size = 8,
       l_protocol = 1\<rparr>\<rparr>"

definition manifest_args :: arguments where
  "manifest_args = \<lparr>ar_command = Some ''manifest'', ar_values = [(''artifacts-dir'', [''/bin'']), (''expires-at'', [''2000'']), (''name'', [''demo'']),
     (''output'', [''/bin/demo-release.json'']), (''version'', [''1.0.7''])], ar_flags = {}, ar_positionals = []\<rparr>"

definition sign_args :: arguments where
  "sign_args = \<lparr>ar_command = Some ''sign'', ar_values = [(''key-id'', [''k'']), (''manifest'', [''/bin/demo-release.json'']), (''name'', [''demo'']),
     (''output'', [''/bin/demo-release.signatures.json'']), (''private-key'', [''/bin/priv''])],
     ar_flags = {}, ar_positionals = []\<rparr>"

definition verify_args :: arguments where
  "verify_args = \<lparr>ar_command = Some ''verify'', ar_values = [(''artifacts-dir'', [''/bin'']), (''keys'', [''/bin/pub'']),
     (''manifest'', [''/bin/demo-release.json'']), (''name'', [''demo'']),
     (''signatures'', [''/bin/demo-release.signatures.json''])], ar_flags = {}, ar_positionals = []\<rparr>"

subsection \<open>The inspection of the sample archive\<close>

lemma zip_headers:
  "get_range sample_zip 0 46 = Some (fixed_header (CHR 0x22))"
  "get_range sample_zip 80 46 = Some (fixed_header (CHR 0x2A))"
  "get_range sample_zip 168 46 = Some (fixed_header (CHR 0x33))"
  by code_simp+

lemma header_fields:
  "take 4 (fixed_header c) = CENTRAL_SIGNATURE"
  "le16 (fixed_header c) 28 = of_char c" "le16 (fixed_header c) 30 = 0" "le16 (fixed_header c) 32 = 0"
  by (simp_all add: fixed_header_def CENTRAL_SIGNATURE_def le16_def nth_append)

lemma sample_members: "zip_central_loop sample_zip 265 0 0 0 = Inr (Some 3)"
  by (simp add: zip_central_loop.simps [of sample_zip] zip_headers header_fields usize_checked_add_def usize_max_def
      MAX_ARCHIVE_MEMBER_NAME_def MAX_ARCHIVE_METADATA_SIZE_def CENTRAL_HEADER_SIZE_def MAX_ARCHIVE_MEMBERS_def)

lemma zip_lengths: "length sample_directory = 265" "length sample_zip = 287" "length end_record = 22"
  by code_simp+

lemma get_range_append: "get_range (d @ b) (length d + j) n = get_range b j n"
  by (simp add: get_range_def)

lemma end_range: "265 \<le> i \<Longrightarrow> get_range sample_zip i n = get_range end_record (i - 265) n"
  using get_range_append [of sample_directory end_record "i - 265" n] zip_lengths by (simp add: sample_zip_def)

lemma no_signature: "list_all (\<lambda>j. get_range end_record (j + 1) 4 \<noteq> Some EOCD_SIGNATURE) [0..<18]"
  by code_simp

lemma no_candidate: "265 < i \<Longrightarrow> i < 284 \<Longrightarrow> zip_candidate sample_zip i = Inr False"
proof -
  assume i: "265 < i" "i < 284"
  then have "i - 266 \<in> set [0..<18]" by auto
  with no_signature have "get_range end_record (Suc (i - 266)) 4 \<noteq> Some EOCD_SIGNATURE" by (auto simp: list_all_iff)
  moreover have "Suc (i - 266) = i - 265" using i by simp
  ultimately show ?thesis using i by (simp add: zip_candidate_def end_range)
qed

lemma end_fields: "get_range end_record 0 4 = Some EOCD_SIGNATURE" "get_range end_record 0 22 = Some end_record"
  "le16 end_record 20 = 0" "le16 end_record 4 = 0" "le16 end_record 6 = 0" "le16 end_record 8 = 3" "le16 end_record 10 = 3"
  "le32 end_record 12 = 265" "le32 end_record 16 = 0"
  by code_simp+

lemma candidate: "zip_candidate sample_zip 265 = Inr True"
  by (simp add: zip_candidate_def end_range end_fields zip_lengths usize_checked_add_def usize_max_def zip_central_member_count_def
      sample_members bindE_def ensureE_def MAX_ARCHIVE_MEMBERS_def EOCD_SIZE_def)

lemma sample_preflight: "preflight_zip_member_count sample_zip = Inr ()"
proof -
  have "preflight_loop sample_zip 0 (Suc n) = Inr ()" if "265 \<le> n" "n < 284" for n
    using that
  proof (induction n rule: dec_induct)
    case base
    show ?case by (subst preflight_loop.simps) (simp add: candidate bindE_def)
  next
    case (step n)
    then have "zip_candidate sample_zip (Suc n) = Inr False" by (intro no_candidate) auto
    with step show ?case by (simp add: bindE_def)
  qed
  from this [of 283] show ?thesis
    by (simp add: preflight_zip_member_count_def zip_lengths EOCD_SIZE_def MAX_COMMENT_def)
qed

lemma sample_shape: "validate_asset_shape sample_tool tool_app tool_asset = Inr ()" by code_simp

lemma sample_asset_target: "target_from_asset sample_tool tool_app tool_asset = Inr X86_64PcWindowsMsvc" by code_simp

lemma sample_asset_version: "canonical_version_from_asset sample_tool tool_app tool_asset X86_64PcWindowsMsvc = 7" by code_simp

lemma sample_archive_bytes: "verify_archive_bytes sample_tool tool_app sample_zip tool_asset = Inr ()" by code_simp
lemma sample_names: "launcher_path sample_tool X86_64PcWindowsMsvc tool_app 7 = Some (sample_root @ ''/demo-launcher.exe'')"
  "target_root_name sample_tool X86_64PcWindowsMsvc tool_app 7 = sample_root" by code_simp+


lemma sample_members_kept: "is_ok (bindE (zip_loop sample_tool tool_asset (Some (sample_root @ ''/demo-launcher.exe'')) sample_root members_start
    [Some (sample_entry [] []), Some (sample_entry ''demo.exe'' ''payload''), Some (sample_entry ''demo-launcher.exe'' ''launcher'')])
    (\<lambda>m. finish_inspection sample_tool tool_app m tool_asset))"
  by code_simp

lemma zip_open_sample: "zip_open sample_tool = sample_entries"
  by (simp add: sample_tool_def)

lemma sample_inspected: "\<exists>x. inspect_archive sample_tool tool_app sample_zip tool_asset = Inr x"
proof -
  let ?zs = "[Some (sample_entry [] []), Some (sample_entry ''demo.exe'' ''payload''), Some (sample_entry ''demo-launcher.exe'' ''launcher'')]"
  have "inspect_archive sample_tool tool_app sample_zip tool_asset
    = bindE (zip_loop sample_tool tool_asset (Some (sample_root @ ''/demo-launcher.exe'')) sample_root members_start ?zs)
        (\<lambda>m. finish_inspection sample_tool tool_app m tool_asset)"
    by (simp add: inspect_archive_def sample_shape sample_archive_bytes sample_asset_target inspect_zip_def Let_def
        sample_asset_version sample_preflight zip_open_sample sample_entries_def sample_names MAX_ARCHIVE_MEMBERS_def
        is_windows_def ok_orE_def ensureE_def bindE_def del: zip_loop.simps)
  with sample_members_kept show ?thesis by (auto simp: is_ok_iff)
qed

end
