(* ===== verification/Archive_Properties.thy ===== *)
theory Archive_Properties
  imports Sample_Tool
begin

text \<open>
  What an accepted archive is. \<open>kept\<close> is the invariant of both member loops: whatever has been kept as the
  payload or the launcher has the path, the size and the digest that the manifest gives for it.
\<close>

subsection \<open>The members kept\<close>

definition kept :: "('v, 'z) lib_scheme \<Rightarrow> release_asset \<Rightarrow> string option \<Rightarrow> members \<Rightarrow> bool" where
  "kept lib a launcher m \<longleftrightarrow>
     (\<forall>x. mb_payload m = Some x \<longrightarrow> vm_path x = p_path (a_payload a)
        \<and> verify_bytes lib (vm_data x) (p_size (a_payload a)) (p_sha256 (a_payload a)) = Inr ())
     \<and> (\<forall>x. mb_launcher m = Some x \<longrightarrow> launcher = Some (vm_path x)
        \<and> (\<exists>l. a_launcher a = Some l \<and> verify_bytes lib (vm_data x) (l_size l) (l_sha256 l) = Inr ()))"

lemma kept_start: "kept lib a launcher members_start"
  by (simp add: kept_def members_start_def)

lemma kept_cong: "mb_payload m' = mb_payload m \<Longrightarrow> mb_launcher m' = mb_launcher m \<Longrightarrow> kept lib a launcher m' = kept lib a launcher m"
  by (simp add: kept_def)

lemma kept_root [simp]: "kept lib a launcher (m\<lparr>mb_root_seen := b\<rparr>) = kept lib a launcher m"
  by (rule kept_cong) simp_all

lemma kept_member:
  "keep_member lib expected path data m = Inr m' \<Longrightarrow> expected_member a launcher path = Inr expected
   \<Longrightarrow> kept lib a launcher m \<Longrightarrow> kept lib a launcher m'"
  by (auto simp: keep_member_def expected_member_def kept_def split: option.splits if_splits)

lemma kept_charge: "charge n m = Inr m' \<Longrightarrow> kept lib a launcher m' = kept lib a launcher m"
  by (auto simp: charge_def intro!: kept_cong)

lemma kept_name: "add_name path m = Inr m' \<Longrightarrow> kept lib a launcher m' = kept lib a launcher m"
  by (auto simp: add_name_def intro!: kept_cong)

lemma kept_zip_regular:
  "zip_regular lib a launcher root z path m = Inr m' \<Longrightarrow> kept lib a launcher m \<Longrightarrow> kept lib a launcher m'"
  by (auto simp: zip_regular_def dest!: kept_charge intro: kept_member)

lemma kept_zip_step:
  "zip_step lib a launcher root m entry = Inr m' \<Longrightarrow> kept lib a launcher m \<Longrightarrow> kept lib a launcher m'"
proof -
  assume step: "zip_step lib a launcher root m entry = Inr m'" and m: "kept lib a launcher m"
  then obtain z path n where n: "add_name path m = Inr n" and r: "(if z_dir z then
       bindE (ensureE (z_size z = 0) (Archive ''directory member has nonzero size'')) (\<lambda>_.
       Inr (if path = root then n\<lparr>mb_root_seen := True\<rparr> else n))
     else zip_regular lib a launcher root z path n) = Inr m'"
    by (auto simp: zip_step_def)
  from kept_name [OF n, of lib a launcher] m have "kept lib a launcher n" by simp
  then show "kept lib a launcher m'"
    using r kept_zip_regular by (auto split: if_splits)
qed

lemma kept_zip_loop:
  "zip_loop lib a launcher root m zs = Inr m' \<Longrightarrow> kept lib a launcher m \<Longrightarrow> kept lib a launcher m'"
  by (induction lib a launcher root m zs rule: zip_loop.induct) (auto intro: kept_zip_step)

lemma kept_tar_regular:
  "tar_regular lib a launcher root block path declared m s = (Inr m', s') \<Longrightarrow> kept lib a launcher m \<Longrightarrow> kept lib a launcher m'"
  by (auto simp: tar_regular_def bindM_return_iff liftE_apply dest!: kept_charge intro: kept_member)

lemma kept_tar_member:
  assumes "tar_member lib a launcher root block header_size st s = (Inr st', s')" and "kept lib a launcher (ts_members st)"
  shows "kept lib a launcher (ts_members st')"
proof -
  from assms(1) obtain path declared st1 m s1 where
    head: "tar_member_head lib root block header_size st = Inr (path, declared, st1)"
    and body: "(if tar_type_of lib block = TarDirectory then
              bindM (ensureM (declared = 0) (Archive ''directory member has nonzero size'')) (\<lambda>_.
              returnM (if path = root then (ts_members st1)\<lparr>mb_root_seen := True\<rparr> else ts_members st1))
            else tar_regular lib a launcher root block path declared (ts_members st1)) s1 = (Inr m, s')"
    and st': "ts_members st' = m"
    by (auto simp: tar_member_def bindM_return_iff liftE_apply returnM_apply)
  from head have "kept lib a launcher (ts_members st1) = kept lib a launcher (ts_members st)"
    by (auto simp: tar_member_head_def Let_def dest!: kept_name)
  with assms(2) have "kept lib a launcher (ts_members st1)" by simp
  then show ?thesis
    using body kept_tar_regular unfolding st'
    by (auto simp: bindM_return_iff ensureM_apply returnM_apply split: if_splits)
qed

lemma kept_tar_step:
  assumes "tar_step lib a launcher root st s = (Inr (Some st'), s')" and "kept lib a launcher (ts_members st)"
  shows "kept lib a launcher (ts_members st')"
proof -
  have meta: "tar_metadata ty data st = Inr st' \<Longrightarrow> ts_members st' = ts_members st" for ty data
    by (auto simp: tar_metadata_def split: if_splits)
  from assms show ?thesis
    by (auto simp: tar_step_def tar_block_def bindM_return_iff liftE_apply returnM_apply ensureM_apply
        split: if_splits dest!: meta intro: kept_tar_member)
qed

lemma kept_tar_loop:
  "fst (tar_loop lib a launcher root st s) = Inr st' \<Longrightarrow> kept lib a launcher (ts_members st) \<Longrightarrow> kept lib a launcher (ts_members st')"
proof (induction lib a launcher root st s rule: tar_loop.induct)
  case (1 lib a launcher root st s)
  obtain r s1 where step: "tar_step lib a launcher root st s = (r, s1)" by fastforce
  show ?case
  proof (cases r)
    case (Inl e)
    with 1 step show ?thesis by (simp add: tar_loop.simps [of lib a launcher root st s])
  next
    case (Inr next_state)
    then show ?thesis
      using 1 step kept_tar_step [of lib a launcher root st s _ s1]
      by (cases next_state) (auto simp: tar_loop.simps [of lib a launcher root st s])
  qed
qed

lemma finish_inspection_Inr:
  "finish_inspection lib app m a = Inr x \<Longrightarrow> mb_root_seen m \<and> mb_payload m = Some (er_payload x) \<and> mb_launcher m = er_launcher x
     \<and> (\<exists>t. target_from_asset lib app a = Inr t \<and> (is_windows t \<longleftrightarrow> er_launcher x \<noteq> None))"
  by (auto simp: finish_inspection_def finish_members_def)

lemma inspected_kept:
  assumes "inspect_archive lib app b a = Inr x"
  obtains t v m where "target_from_asset lib app a = Inr t" and "canonical_asset lib app v t a"
    and "of_nat (length b) = a_archive_size a" and "sha256_hex lib b = a_archive_sha256 a"
    and "kept lib a (launcher_path lib t app v) m" and "finish_inspection lib app m a = Inr x"
proof -
  from assms obtain t where t: "target_from_asset lib app a = Inr t"
    and shape: "verify_archive_bytes lib app b a = Inr ()"
    and run: "(if is_windows t then inspect_zip lib app b a else inspect_tar_gz lib app b a) = Inr x"
    by (auto simp: inspect_archive_def)
  let ?v = "canonical_version_from_asset lib app a t"
  have canon: "canonical_asset lib app ?v t a" and sums: "of_nat (length b) = a_archive_size a" "sha256_hex lib b = a_archive_sha256 a"
    using shape t by (auto simp: verify_archive_bytes_def asset_validate_Inr verify_bytes_Inr)
  have "\<exists>m. kept lib a (launcher_path lib t app ?v) m \<and> finish_inspection lib app m a = Inr x"
  proof (cases "is_windows t")
    case True
    with run t show ?thesis
      by (auto simp: inspect_zip_def Let_def dest: kept_zip_loop [OF _ kept_start])
  next
    case False
    with run t show ?thesis
      by (auto simp: inspect_tar_gz_def Let_def tar_start_def kept_start dest!: kept_tar_loop)
  qed
  with t canon sums that show thesis by blast
qed

text \<open>C11: what the inspection of an archive returns is what the manifest describes: the archive's bytes have its size
  and digest, the payload has the canonical path, the size and the digest of its entry, and there is a launcher
  exactly for a Windows target, again with the described path, size and digest.\<close>

theorem inspected_members_exact:
  assumes "inspect_archive lib app b a = Inr x"
  shows "\<exists>t v. canonical_asset lib app v t a \<and> of_nat (length b) = a_archive_size a \<and> sha256_hex lib b = a_archive_sha256 a
    \<and> vm_path (er_payload x) = payload_path lib t app v
    \<and> of_nat (length (vm_data (er_payload x))) = p_size (a_payload a)
    \<and> sha256_hex lib (vm_data (er_payload x)) = p_sha256 (a_payload a)
    \<and> (case er_launcher x of
        None \<Rightarrow> \<not> is_windows t
      | Some y \<Rightarrow> is_windows t \<and> (\<exists>l. a_launcher a = Some l \<and> vm_path y = l_path l
          \<and> of_nat (length (vm_data y)) = l_size l \<and> sha256_hex lib (vm_data y) = l_sha256 l))"
proof -
  from inspected_kept [OF assms] obtain t v m where t: "target_from_asset lib app a = Inr t"
    and canon: "canonical_asset lib app v t a" and sums: "of_nat (length b) = a_archive_size a" "sha256_hex lib b = a_archive_sha256 a"
    and kept: "kept lib a (launcher_path lib t app v) m" and fin: "finish_inspection lib app m a = Inr x" .
  note fin = finish_inspection_Inr [OF fin]
  have payload: "vm_path (er_payload x) = payload_path lib t app v" "of_nat (length (vm_data (er_payload x))) = p_size (a_payload a)"
    "sha256_hex lib (vm_data (er_payload x)) = p_sha256 (a_payload a)"
    using kept fin canon by (auto simp: kept_def verify_bytes_Inr canonical_asset_def)
  have "case er_launcher x of None \<Rightarrow> \<not> is_windows t
      | Some y \<Rightarrow> is_windows t \<and> (\<exists>l. a_launcher a = Some l \<and> vm_path y = l_path l
          \<and> of_nat (length (vm_data y)) = l_size l \<and> sha256_hex lib (vm_data y) = l_sha256 l)"
    using kept fin canon t by (auto simp: kept_def verify_bytes_Inr canonical_asset_def split: option.splits)
  with payload canon sums show ?thesis by blast
qed

theorem inspected_members_exact_witness:
  "\<exists>x t v. inspect_archive sample_tool tool_app sample_zip tool_asset = Inr x
     \<and> vm_path (er_payload x) = payload_path sample_tool t tool_app v
     \<and> of_nat (length (vm_data (er_payload x))) = p_size (a_payload tool_asset)"
proof -
  obtain x where x: "inspect_archive sample_tool tool_app sample_zip tool_asset = Inr x" using sample_inspected by blast
  from inspected_members_exact [OF x] x show ?thesis by blast
qed

subsection \<open>What an accepted ZIP archive holds\<close>

text \<open>A member's path stays below the root: its components are the root's name and then names that are
  neither empty nor special and contain no separator, colon or NUL.\<close>

definition confined :: "string \<Rightarrow> string \<Rightarrow> bool" where
  "confined root p \<longleftrightarrow> (case split_on (CHR ''/'') p of [] \<Rightarrow> False
     | c # cs \<Rightarrow> c = root \<and> (\<forall>d \<in> set (c # cs). d \<noteq> [] \<and> d \<noteq> ''.'' \<and> d \<noteq> ''..''
         \<and> CHR ''/'' \<notin> set d \<and> CHR 0x5C \<notin> set d \<and> CHR '':'' \<notin> set d \<and> CHR 0x00 \<notin> set d))"

definition member_stem :: "bytes \<Rightarrow> string" where
  "member_stem raw = (case strip_suffix ''/'' raw of Some r \<Rightarrow> r | None \<Rightarrow> raw)"

lemma validate_member_name_Inr:
  assumes "validate_member_name raw root = Inr p"
  shows "p = member_stem raw" and "confined root p"
proof -
  from assms have p: "p = member_stem raw" and chars: "CHR 0x00 \<notin> set raw" "CHR 0x5C \<notin> set raw"
    and cs: "list_all (\<lambda>c. c \<noteq> [] \<and> c \<noteq> ''.'' \<and> c \<noteq> ''..'') (split_on (CHR ''/'') p)"
    and root: "(case split_on (CHR ''/'') p of [] \<Rightarrow> [] | c # _ \<Rightarrow> c) = root"
    and colon: "list_all (\<lambda>c. CHR '':'' \<notin> set c) (split_on (CHR ''/'') p)"
    by (auto simp: validate_member_name_def Let_def member_stem_def dest!: from_utf8_Some)
  show "p = member_stem raw" by fact
  have "set p \<subseteq> set raw" unfolding p member_stem_def by (auto split: option.splits)
  then have "CHR 0x00 \<notin> set d \<and> CHR 0x5C \<notin> set d \<and> CHR ''/'' \<notin> set d" if "d \<in> set (split_on (CHR ''/'') p)" for d
    using chars split_on_subset [OF that] split_on_not_mem [OF that] by blast
  with cs root colon show "confined root p"
    by (cases "split_on (CHR ''/'') p") (auto simp: confined_def list_all_iff)
qed

lemma read_all_data:
  "fst (read_member_loop declared collect actual data (Plain r)) = Inr (n, d) \<Longrightarrow> unat n = unat actual + length (r_data r)"
proof (induction declared collect actual data "Plain r" arbitrary: r rule: read_member_loop.induct)
  case (1 declared collect actual data)
  obtain y r' where rd: "read BUFFER r = (y, r')" by fastforce
  then have src: "src_read (Plain r) BUFFER = (y, Plain r')" by simp
  show ?case
  proof (cases y)
    case (Inl e)
    with "1.prems" src show ?thesis by (simp add: read_member_loop.simps [of declared collect actual data "Plain r"])
  next
    case (Inr c)
    show ?thesis
    proof (cases "c = []")
      case True
      then have "r_data r = []" using rd Inr by (auto simp: read_def read_bound_def BUFFER_def split: if_splits option.splits list.splits)
      with "1.prems" src Inr True show ?thesis by (simp add: read_member_loop.simps [of declared collect actual data "Plain r"])
    next
      case False
      have data: "r_data r = c @ r_data r'" using read_split [OF rd [unfolded Inr]] by blast
      have "length c \<le> 65536" using rd Inr by (auto simp: read_def read_bound_def BUFFER_def split: if_splits option.splits list.splits)
      then have len: "unat (of_nat (length c) :: u64) = length c" by (intro unat_u64_of_nat) simp
      from "1.prems" src Inr False obtain actual' where add: "u64_checked_add actual (of_nat (length c)) = Some actual'"
        and fits: "\<not> (MAX_MEMBER_SIZE < actual' \<or> declared < actual')"
        and rest: "fst (read_member_loop declared collect actual' (if collect then data @ c else data) (Plain r')) = Inr (n, d)"
        by (auto simp: read_member_loop.simps [of declared collect actual data "Plain r"] split: option.splits if_splits)
      have "unat n = unat actual' + length (r_data r')"
        using "1.hyps" [OF src [symmetric] Inr False add fits rest] .
      with u64_checked_add_Some [OF add] len data show ?thesis by simp
    qed
  qed
qed

lemma read_member_exact:
  "fst (read_member_data declared collect (Plain r)) = Inr d \<Longrightarrow> length (r_data r) = unat declared"
proof -
  assume "fst (read_member_data declared collect (Plain r)) = Inr d"
  then obtain s where "read_member_data declared collect (Plain r) = (Inr d, s)" by (metis prod.collapse)
  then obtain n e s' where "read_member_loop declared collect 0 [] (Plain r) = (Inr (n, e), s')" and n: "n = declared"
    by (auto simp: read_member_data_def bindM_return_iff ensureM_apply returnM_apply split: if_splits)
  then have "fst (read_member_loop declared collect 0 [] (Plain r)) = Inr (n, e)" by simp
  from read_all_data [OF this] n show ?thesis by simp
qed

text \<open>The bytes a member decompresses to.\<close>

definition member_bytes :: "zip_entry \<Rightarrow> nat" where
  "member_bytes z = (if z_dir z then 0 else length (r_data (z_reader z)))"

definition safe_entry :: "string \<Rightarrow> zip_entry \<Rightarrow> bool" where
  "safe_entry root z \<longleftrightarrow> confined root (member_stem (z_name_raw z)) \<and> \<not> z_encrypted z \<and> \<not> z_symlink z
     \<and> (\<forall>mode. z_unix_mode z = Some mode \<longrightarrow> mode AND 0xF000 \<in> {0, 0x8000, 0x4000})"

lemma keep_member_frame:
  "keep_member lib expected path data m = Inr m' \<Longrightarrow> mb_names m' = mb_names m \<and> mb_total m' = mb_total m"
  by (auto simp: keep_member_def Let_def split: option.splits if_splits)

lemma charge_Inr: "charge n m = Inr m' \<Longrightarrow> mb_names m' = mb_names m \<and> unat (mb_total m') = unat (mb_total m) + unat n
    \<and> mb_total m' \<le> MAX_UNCOMPRESSED_SIZE"
  by (auto simp: charge_def dest: u64_checked_add_Some)

lemma zip_regular_Inr:
  assumes "zip_regular lib a launcher root z path m = Inr m'"
  shows "mb_names m' = mb_names m" and "unat (mb_total m') = unat (mb_total m) + length (r_data (z_reader z))"
    and "mb_total m' \<le> MAX_UNCOMPRESSED_SIZE"
  using assms by (auto simp: zip_regular_def dest!: charge_Inr keep_member_frame read_member_exact)

lemma zip_step_Inr:
  assumes "zip_step lib a launcher root m entry = Inr m'" and "mb_total m \<le> MAX_UNCOMPRESSED_SIZE"
  shows "\<exists>z. entry = Some z \<and> safe_entry root z \<and> member_stem (z_name_raw z) \<notin> mb_names m
    \<and> mb_names m' = insert (member_stem (z_name_raw z)) (mb_names m)
    \<and> unat (mb_total m') = unat (mb_total m) + member_bytes z \<and> mb_total m' \<le> MAX_UNCOMPRESSED_SIZE"
proof -
  from assms(1) obtain z path n where z: "entry = Some z" and v: "validate_member_name (z_name_raw z) root = Inr path"
    and n: "add_name path m = Inr n" and c: "zip_checks z path = Inr ()" and r: "(if z_dir z then
       bindE (ensureE (z_size z = 0) (Archive ''directory member has nonzero size'')) (\<lambda>_.
       Inr (if path = root then n\<lparr>mb_root_seen := True\<rparr> else n))
     else zip_regular lib a launcher root z path n) = Inr m'"
    by (auto simp: zip_step_def)
  note v = validate_member_name_Inr [OF v]
  have n: "path \<notin> mb_names m" "mb_names n = insert path (mb_names m)" "mb_total n = mb_total m"
    using n by (auto simp: add_name_def)
  have "safe_entry root z" using c v by (auto simp: zip_checks_def safe_entry_def Let_def split: option.splits)
  moreover have "mb_names m' = mb_names n \<and> unat (mb_total m') = unat (mb_total n) + member_bytes z \<and> mb_total m' \<le> MAX_UNCOMPRESSED_SIZE"
    using r n(3) assms(2) by (auto simp: member_bytes_def zip_regular_Inr split: if_splits)
  ultimately show ?thesis using z n v(1) by auto
qed

lemma zip_loop_Inr:
  assumes "zip_loop lib a launcher root m zs = Inr m'" and "mb_total m \<le> MAX_UNCOMPRESSED_SIZE"
  shows "\<exists>es. zs = map Some es \<and> list_all (safe_entry root) es \<and> distinct (map (member_stem \<circ> z_name_raw) es)
    \<and> set (map (member_stem \<circ> z_name_raw) es) \<inter> mb_names m = {}
    \<and> unat (mb_total m') = unat (mb_total m) + sum_list (map member_bytes es) \<and> mb_total m' \<le> MAX_UNCOMPRESSED_SIZE"
  using assms
proof (induction zs arbitrary: m)
  case (Cons entry zs)
  then obtain n where step: "zip_step lib a launcher root m entry = Inr n" and rest: "zip_loop lib a launcher root n zs = Inr m'"
    by auto
  from zip_step_Inr [OF step Cons.prems(2)] obtain z where z: "entry = Some z" "safe_entry root z"
    "member_stem (z_name_raw z) \<notin> mb_names m" "mb_names n = insert (member_stem (z_name_raw z)) (mb_names m)"
    "unat (mb_total n) = unat (mb_total m) + member_bytes z" "mb_total n \<le> MAX_UNCOMPRESSED_SIZE" by blast
  from Cons.IH [OF rest z(6)] obtain es where es: "zs = map Some es" "list_all (safe_entry root) es"
    "distinct (map (member_stem \<circ> z_name_raw) es)" "set (map (member_stem \<circ> z_name_raw) es) \<inter> mb_names n = {}"
    "unat (mb_total m') = unat (mb_total n) + sum_list (map member_bytes es)" "mb_total m' \<le> MAX_UNCOMPRESSED_SIZE" by blast
  from z es show ?case by (intro exI [of _ "z # es"]) (auto simp: comp_def)
qed simp

text \<open>C12: an accepted ZIP archive has at most 4096 entries, all readable, which decompress to at most 256 MiB together,
  however their sizes are declared; none is encrypted, a symbolic link or a special file, their paths are
  distinct, and every path stays below the canonical root of the release.\<close>

theorem accepted_zip_bounded:
  assumes "inspect_zip lib app b a = Inr x"
  shows "\<exists>t es. target_from_asset lib app a = Inr t \<and> zip_open lib b = Some (map Some es) \<and> length es \<le> 4096
    \<and> sum_list (map member_bytes es) \<le> 256 * 1024 * 1024
    \<and> distinct (map (member_stem \<circ> z_name_raw) es)
    \<and> list_all (safe_entry (target_root_name lib t app (canonical_version_from_asset lib app a t))) es"
proof -
  from assms obtain t zs m where t: "target_from_asset lib app a = Inr t" and zs: "zip_open lib b = Some zs" "length zs \<le> 4096"
    and loop: "zip_loop lib a (launcher_path lib t app (canonical_version_from_asset lib app a t))
      (target_root_name lib t app (canonical_version_from_asset lib app a t)) members_start zs = Inr m"
    by (auto simp: inspect_zip_def Let_def MAX_ARCHIVE_MEMBERS_def)
  have start: "mb_total members_start = 0" by (simp add: members_start_def)
  then have "mb_total members_start \<le> MAX_UNCOMPRESSED_SIZE" by simp
  from zip_loop_Inr [OF loop this] obtain es where es: "zs = map Some es"
    "list_all (safe_entry (target_root_name lib t app (canonical_version_from_asset lib app a t))) es"
    "distinct (map (member_stem \<circ> z_name_raw) es)" "unat (mb_total m) = sum_list (map member_bytes es)"
    "mb_total m \<le> MAX_UNCOMPRESSED_SIZE" using start by auto
  have "unat (mb_total m) \<le> unat MAX_UNCOMPRESSED_SIZE" using es(5) by (simp add: word_le_nat_alt)
  then have "sum_list (map member_bytes es) \<le> 256 * 1024 * 1024" using es(4) by (simp add: MAX_UNCOMPRESSED_SIZE_def)
  then show ?thesis using t zs es by auto
qed

theorem accepted_zip_bounded_witness:
  "\<exists>es. sample_entries sample_zip = Some (map Some es) \<and> sum_list (map member_bytes es) \<le> 256 * 1024 * 1024
     \<and> distinct (map (member_stem \<circ> z_name_raw) es)"
proof -
  obtain x where "inspect_zip sample_tool tool_app sample_zip tool_asset = Inr x"
    using sample_inspected sample_asset_target by (auto simp: inspect_archive_def is_windows_def)
  from accepted_zip_bounded [OF this] show ?thesis by (auto simp: zip_open_sample)
qed

end
