(* ===== verification/Download_Properties.thy ===== *)
theory Download_Properties
  imports Download Sample_Installation
begin

text \<open>
  What a download gives: every URL of it is HTTPS and of one release, bodies keep their ceiling
  however they are read, and metadata and archives are verified before anyone sees them.
\<close>

subsection \<open>Bodies\<close>

text \<open>The body \<open>b\<close> of a response under a limit: complete when it fits, an error when it does not,
  in either way of reading it.\<close>

definition body_served :: "bytes \<Rightarrow> http_response \<Rightarrow> bool" where
  "body_served b resp \<longleftrightarrow> (\<forall>limit.
     if length b \<le> unat limit
     then hr_read_to_vec resp limit = Inr b \<and> r_data (hr_reader resp limit) = b \<and> r_error (hr_reader resp limit) = None
     else hr_read_to_vec resp limit = Inl () \<and> r_error (hr_reader resp limit) \<noteq> None)"

lemma observed_loop_result:
  "fst (observed_loop len b calls r) =
     (case r_error r of None \<Rightarrow> Inr (b @ r_data r) | Some e \<Rightarrow> Inl (Download ''response body''))"
proof (induction len b calls r rule: observed_loop.induct)
  case (1 len b calls r)
  obtain x r' where rd: "read PROGRESS_CHUNK r = (x, r')" by fastforce
  show ?case
  proof (cases x)
    case (Inl e)
    with rd show ?thesis by (simp add: observed_loop.simps [of len b calls r] read_error)
  next
    case (Inr c)
    show ?thesis
    proof (cases "c = []")
      case True
      with rd Inr show ?thesis
        using read_empty [of PROGRESS_CHUNK r r']
        by (simp add: observed_loop.simps [of len b calls r] PROGRESS_CHUNK_def)
    next
      case False
      from rd Inr have s: "r_data r = c @ r_data r'" "r_error r' = r_error r"
        using read_split by blast+
      have "observed_loop len b calls r
          = observed_loop len (b @ c) (calls @ [(of_nat (length (b @ c)), len)]) r'"
        using rd Inr False by (simp add: observed_loop.simps [of len b calls r])
      with "1.IH" [OF rd [symmetric] Inr False] s show ?thesis by (simp split: option.split)
    qed
  qed
qed

lemma observed_body:
  "fst (read_response_body_observed max_bytes len body) =
     bindE (progress_read_limit max_bytes) (\<lambda>limit.
     bindE (case r_error (body limit) of None \<Rightarrow> Inr (r_data (body limit)) | Some e \<Rightarrow> Inl (Download ''response body'')) (\<lambda>b.
     bindE (ensureE (length b \<le> max_bytes) (Download ''response body exceeds maximum size'')) (\<lambda>_. Inr b)))"
proof (cases "progress_read_limit max_bytes")
  case (Inr limit)
  have "fst (observed_loop len [] [(0, len)] (body limit)) =
      (case r_error (body limit) of None \<Rightarrow> Inr (r_data (body limit)) | Some e \<Rightarrow> Inl (Download ''response body''))"
    using observed_loop_result [of len "[]" "[(0, len)]" "body limit"] by (simp split: option.split)
  then show ?thesis
    by (auto simp: read_response_body_observed_def Inr split: prod.split)
qed (simp add: read_response_body_observed_def)

text \<open>C33: a downloader that reports progress accepts and returns exactly the bodies a plain one does,
  and refuses the others with the same error, for every chunking of the body.\<close>

theorem observed_body_unchanged:
  assumes "body_served b resp"
  shows "fst (read_response_body_observed max_bytes len (hr_reader resp)) = read_response_body max_bytes (hr_read_to_vec resp)"
proof (cases "progress_read_limit max_bytes")
  case (Inr limit)
  with assms show ?thesis
    by (cases "length b \<le> unat limit") (auto simp: observed_body read_response_body_def body_served_def split: option.split)
qed (simp add: observed_body read_response_body_def)

definition sample_response :: http_response where
  "sample_response = \<lparr>hr_uri = ''https://h/r'', hr_history = None, hr_length = Some 5,
     hr_read_to_vec = (\<lambda>limit. if 5 \<le> unat limit then Inr ''hello'' else Inl ()),
     hr_reader = (\<lambda>limit. if 5 \<le> unat limit then \<lparr>r_data = ''hello'', r_error = None, r_chunks = [2, 1]\<rparr>
       else \<lparr>r_data = take (unat limit) ''hello'', r_error = Some OtherIo, r_chunks = []\<rparr>)\<rparr>"

theorem observed_body_unchanged_witness:
  "fst (read_response_body_observed 5 (Some 5) (hr_reader sample_response)) = Inr ''hello''
   \<and> fst (read_response_body_observed 3 (Some 5) (hr_reader sample_response)) = Inl (Download ''response body'')"
proof -
  have "body_served ''hello'' sample_response" by (simp add: body_served_def sample_response_def)
  from observed_body_unchanged [OF this, of 5 "Some 5"] observed_body_unchanged [OF this, of 3 "Some 5"] show ?thesis
    by (simp add: read_response_body_def progress_read_limit_def sample_response_def usize_checked_add_def usize_max_def
        ok_orE_def ensureE_def)
qed

text \<open>The observer's reports are the lengths of growing initial parts of the body.\<close>

lemma observed_loop_calls:
  assumes "observed_loop len b calls r = (Inr d, calls')"
    and "calls = before @ [(of_nat (length b), len)]"
  shows "\<exists>parts. calls' = calls @ map (\<lambda>p. (of_nat (length p), len)) parts
     \<and> sorted_wrt strict_prefix (b # parts) \<and> last (b # parts) = d"
  using assms
proof (induction len b calls r arbitrary: before rule: observed_loop.induct)
  case (1 len b calls r)
  from "1.prems"(1) obtain c r' where rd: "read PROGRESS_CHUNK r = (Inr c, r')"
    by (auto simp: observed_loop.simps [of len b calls r] split: prod.splits sum.splits)
  show ?case
  proof (cases "c = []")
    case True
    with "1.prems"(1) rd have "d = b" "calls' = calls"
      by (simp_all add: observed_loop.simps [of len b calls r])
    then show ?thesis by (intro exI [of _ "[]"]) simp
  next
    case False
    with "1.prems"(1) rd have "observed_loop len (b @ c) (calls @ [(of_nat (length (b @ c)), len)]) r' = (Inr d, calls')"
      by (simp add: observed_loop.simps [of len b calls r])
    from "1.IH" [OF rd [symmetric] refl False this refl] obtain parts where
      p: "calls' = (calls @ [(of_nat (length (b @ c)), len)]) @ map (\<lambda>p. (of_nat (length p), len)) parts"
        "sorted_wrt strict_prefix ((b @ c) # parts)" "last ((b @ c) # parts) = d" by blast
    have "strict_prefix b (b @ c)" using False by (simp add: strict_prefix_def)
    with p have "sorted_wrt strict_prefix (b # (b @ c) # parts)"
      using prefix_order.less_trans [of b "b @ c"] by simp
    with p show ?thesis by (intro exI [of _ "(b @ c) # parts"]) simp
  qed
qed

text \<open>A progress meter sees zero first, then ever larger numbers, and last the length of the body,
  all with the declared total.\<close>

lemma progress_grows_to_length:
  assumes "read_response_body_observed max_bytes len body = (Inr b, calls)"
  shows "\<exists>reports. calls = (0, len) # map (\<lambda>n. (of_nat n, len)) reports \<and> sorted_wrt (<) (0 # reports)
     \<and> last (0 # reports) = length b \<and> length b \<le> max_bytes \<and> max_bytes < 2 ^ 64"
proof -
  from assms obtain limit where lim: "progress_read_limit max_bytes = Inr limit"
    and loop: "observed_loop len [] [(0, len)] (body limit) = (Inr b, calls)" and fits: "length b \<le> max_bytes"
    by (auto simp: read_response_body_observed_def split: sum.splits prod.splits)
  from observed_loop_calls [OF loop, of "[]"] obtain parts where
    p: "calls = [(0, len)] @ map (\<lambda>p. (of_nat (length p), len)) parts" "sorted_wrt strict_prefix ([] # parts)"
       "last ([] # parts) = b" by auto
  have "sorted_wrt (<) (map length ([] # parts))"
    unfolding sorted_wrt_map by (rule sorted_wrt_mono_rel [OF _ p(2)]) (auto intro: prefix_length_less)
  moreover have "last (map length ([] # parts)) = length b"
    using p(3) by (subst last_map) simp_all
  moreover have "max_bytes < 2 ^ 64" using lim by (auto simp: progress_read_limit_def usize_max_def)
  ultimately show ?thesis using p(1) fits by (intro exI [of _ "map length parts"]) (simp add: comp_def)
qed

lemma progress_grows_to_length_example:
  "\<exists>reports. snd (read_response_body_observed 5 (Some 5) (hr_reader sample_response))
     = (0, Some 5) # map (\<lambda>n. (of_nat n, Some 5)) reports \<and> last (0 # reports) = (5::nat)"
proof -
  have "fst (read_response_body_observed 5 (Some 5) (hr_reader sample_response)) = Inr ''hello''"
    by (simp add: observed_body progress_read_limit_def sample_response_def usize_checked_add_def usize_max_def
        ok_orE_def ensureE_def)
  then obtain calls where r: "read_response_body_observed 5 (Some 5) (hr_reader sample_response) = (Inr ''hello'', calls)"
    by (metis prod.collapse)
  from progress_grows_to_length [OF r] obtain reports where
    "calls = (0, Some 5) # map (\<lambda>n. (of_nat n, Some 5)) reports" "last (0 # reports) = (5::nat)" by auto
  with r show ?thesis by (intro exI [of _ reports]) simp
qed

subsection \<open>One request\<close>

text \<open>C32: the production downloader answers only with HTTPS URLs at both ends of the redirects and a
  body within the ceiling, with or without an observer.\<close>

theorem fetch_is_confined:
  assumes "ureq_fetch lib observed n u max_bytes = Inr r"
  shows "dr_requested r = u \<and> url_scheme lib u = ''https'' \<and> url_scheme lib (dr_final r) = ''https''
    \<and> length (dr_bytes r) \<le> max_bytes \<and> max_bytes < 2 ^ 64"
proof -
  from assms obtain response :: http_response and final history b where
    r: "url_scheme lib u = ''https''" "url_scheme lib final = ''https''"
      "r = \<lparr>dr_requested = u, dr_final = final, dr_history = history, dr_bytes = b\<rparr>" and
    b: "(if observed then fst (read_response_body_observed max_bytes (hr_length response) (hr_reader response))
         else read_response_body max_bytes (hr_read_to_vec response)) = Inr b"
    by (auto simp: ureq_fetch_def require_https_def split del: if_split)
  from b have "length b \<le> max_bytes \<and> max_bytes < 2 ^ 64"
    by (cases observed) (auto simp: observed_body read_response_body_def progress_read_limit_def usize_max_def)
  with r show ?thesis by simp
qed

definition sample_transport :: "nat env" where
  "sample_transport = (sample_env [])\<lparr>agent_get := (\<lambda>_ u. if u = ''https://h/r'' then Some sample_response else None)\<rparr>"

theorem fetch_is_confined_witness:
  "\<exists>r. ureq_fetch sample_transport True 0 ''https://h/r'' 5 = Inr r \<and> dr_requested r = ''https://h/r''
     \<and> length (dr_bytes r) \<le> 5"
proof -
  have "ureq_fetch sample_transport True 0 ''https://h/r'' 5 = Inr
      \<lparr>dr_requested = ''https://h/r'', dr_final = ''https://h/r'', dr_history = [], dr_bytes = ''hello''\<rparr>"
    by (simp add: ureq_fetch_def require_https_def sample_transport_def sample_env_def sample_response_def observed_body
        progress_read_limit_def usize_checked_add_def usize_max_def bindE_def ensureE_def ok_orE_def)
  from this fetch_is_confined [OF this] show ?thesis by blast
qed

subsection \<open>Metadata\<close>

definition verified_metadata ::
  "('v, 'z) dlib_scheme \<Rightarrow> app \<Rightarrow> trusted_key list option \<Rightarrow> int \<Rightarrow> 'v release_metadata \<Rightarrow> bool" where
  "verified_metadata lib app keys now md \<longleftrightarrow>
     verify_with lib app keys (rm_manifest_bytes md) (rm_signature_bytes md) = Inr (rm_key_id md)
     \<and> manifest_from_bytes lib app (rm_manifest_bytes md) = Inr (rm_manifest md)
     \<and> m_version (rm_manifest md) = rm_version md \<and> ensure_not_expired lib (rm_manifest md) now = Inr ()"

definition one_release :: "('v, 'z) dlib_scheme \<Rightarrow> app \<Rightarrow> 'v \<Rightarrow> url \<Rightarrow> bool" where
  "one_release lib app v u \<longleftrightarrow> url_scheme lib u = ''https''
     \<and> (\<forall>v' x. versioned_manifest_url lib app u = Inr (Some (v', x)) \<longrightarrow> version_string lib v' = version_string lib v)"

lemma fetch_verified_metadata_Inr:
  assumes "fetch_verified_metadata lib app b base v keys w = (Inr md, w')"
  shows "verified_metadata lib app keys (clock w (clock_pos w)) md \<and> rm_version md = v \<and> rm_manifest_bytes md = b"
  using assms
  by (auto simp: fetch_verified_metadata_def bindM_return_iff ensureM_apply monad_simps fetch_def utc_now_def
      verified_metadata_def split: if_splits)

lemma transport_https: "validate_response_transport lib r = Inr u \<longleftrightarrow> (\<forall>x \<in> set (response_history r). url_scheme lib x = ''https'')"
  by (auto simp: validate_response_transport_def require_https_def response_history_def)

lemma reject_cross_one:
  "validate_response_transport lib r = Inr u \<Longrightarrow> reject_cross_release_redirects lib app r v = Inr u'
   \<Longrightarrow> \<forall>x \<in> set (response_history r). one_release lib app v x"
  by (fastforce simp: reject_cross_release_redirects_def transport_https one_release_def)

lemma manifest_candidates_mem:
  "manifest_candidates_of lib app us = Inr cs \<Longrightarrow> x \<in> set us
   \<Longrightarrow> versioned_manifest_url lib app x = Inr (Some (v, y)) \<Longrightarrow> (v, x) \<in> set cs"
  by (induction lib app us arbitrary: cs rule: manifest_candidates_of.induct) (auto split: option.splits)

lemma remdups_singleton: "length (remdups xs) = 1 \<Longrightarrow> x \<in> set xs \<Longrightarrow> y \<in> set xs \<Longrightarrow> x = y"
  by (metis (no_types, lifting) length_remdups_card_conv card_1_singletonE singletonD)

lemma candidates_one:
  assumes "validate_response_transport lib r = Inr u" and "versioned_manifest_candidates lib app r = Inr cs"
    and "length (remdups (map (version_string lib \<circ> fst) cs)) = 1" and "(v, x) \<in> set cs"
  shows "\<forall>y \<in> set (response_history r). one_release lib app v y"
proof
  fix y assume y: "y \<in> set (response_history r)"
  have "version_string lib v' = version_string lib v" if "versioned_manifest_url lib app y = Inr (Some (v', z))" for v' z
  proof (rule remdups_singleton [OF assms(3)])
    have "(v', y) \<in> set cs"
      using manifest_candidates_mem [OF assms(2) [unfolded versioned_manifest_candidates_def] y that] .
    then show "version_string lib v' \<in> set (map (version_string lib \<circ> fst) cs)" by force
    show "version_string lib v \<in> set (map (version_string lib \<circ> fst) cs)" using assms(4) by force
  qed
  with assms(1) y show "one_release lib app v y" by (auto simp: one_release_def transport_https)
qed

text \<open>C8: metadata resolved through the moving \<^verbatim>\<open>latest\<close> URL are the bytes the server delivered, signed by a
  trusted key, not expired when they were checked, and of the version every manifest URL on the way
  names; every URL of that exchange is HTTPS.\<close>

theorem latest_metadata_verified:
  assumes "fetch_latest_metadata lib app repository keys w = (Inr md, w')"
  shows "verified_metadata lib app keys (clock w (clock_pos w)) md
    \<and> (\<exists>u response. downloader lib (net_pos w) u MAX_METADATA_SIZE = Inr response \<and> dr_bytes response = rm_manifest_bytes md
         \<and> (\<forall>x \<in> set (response_history response). one_release lib app (rm_version md) x))"
proof -
  from assms obtain u response w1 where
    get: "fetch lib u MAX_METADATA_SIZE w = (Inr response, w1)" and
    go: "resolve_latest_response lib app response keys w1 = (Inr md, w')"
    by (auto simp: fetch_latest_metadata_def bindM_return_iff monad_simps)
  from go obtain t v x cs base where
    ok: "validate_response_transport lib response = Inr t" "versioned_manifest_candidates lib app response = Inr cs"
      "length (remdups (map (version_string lib \<circ> fst) cs)) = 1" and
    first: "(case cs of [] \<Rightarrow> None | c # _ \<Rightarrow> Some c) = Some (v, x)" and
    md: "fetch_verified_metadata lib app (dr_bytes response) base v keys w1 = (Inr md, w')"
    by (auto simp: resolve_latest_response_def bindM_return_iff monad_simps split: if_split_asm)
  from first have mem: "(v, x) \<in> set cs" by (cases cs) auto
  from get have w1: "clock w1 = clock w" "clock_pos w1 = clock_pos w" "downloader lib (net_pos w) u MAX_METADATA_SIZE = Inr response"
    by (auto simp: fetch_def)
  with fetch_verified_metadata_Inr [OF md] candidates_one [OF ok mem] show ?thesis by auto
qed

text \<open>What a URL says of a release: the tag after \<^verbatim>\<open>releases/download\<close>, at the end of the path when it is that of a
  release manifest, otherwise at the first place of the path. \<open>within_release\<close>: it is HTTPS, and if it names a
  release then the given one.\<close>

definition manifest_shaped :: "app \<Rightarrow> string list \<Rightarrow> string list \<Rightarrow> string \<Rightarrow> bool" where
  "manifest_shaped app ss front tag \<longleftrightarrow> ss = front @ [''releases'', ''download'', tag, metadata_filename app]"

definition within_release :: "('v, 'z) dlib_scheme \<Rightarrow> app \<Rightarrow> 'v \<Rightarrow> url \<Rightarrow> bool" where
  "within_release lib app v u \<longleftrightarrow> url_scheme lib u = ''https'' \<and> (\<exists>ss. url_segments lib u = Some ss
     \<and> (\<forall>front tag. manifest_shaped app ss front tag \<longrightarrow> tag = ''v'' @ version_string lib v)
     \<and> (\<forall>front tag rest. (\<nexists>f t. manifest_shaped app ss f t) \<and> ss = front @ ''releases'' # ''download'' # tag # rest
          \<and> \<not> sublist [''releases'', ''download''] (front @ [''releases'']) \<longrightarrow> tag = ''v'' @ version_string lib v))"

lemma manifest_url_scan_Cons: "4 \<le> length ss \<Longrightarrow> manifest_url_scan lib app u (a # ss) = manifest_url_scan lib app u ss"
  by (auto simp: numeral_eq_Suc Suc_le_length_iff)

lemma manifest_url_scan_shaped:
  "manifest_url_scan lib app u (front @ [''releases'', ''download'', tag, metadata_filename app])
     = manifest_url_scan lib app u [''releases'', ''download'', tag, metadata_filename app]"
  by (induction front) (simp_all add: manifest_url_scan_Cons del: manifest_url_scan.simps)

lemma manifest_url_scan_other:
  "(\<nexists>f t. manifest_shaped app ss f t) \<Longrightarrow> manifest_url_scan lib app u ss = Inr None"
proof (induction lib app u ss rule: manifest_url_scan.induct)
  case (1 lib app u a b tag name rest)
  have "\<nexists>f t. manifest_shaped app (b # tag # name # rest) f t"
    using 1(2) by (metis append_Cons manifest_shaped_def)
  moreover have "a \<noteq> ''releases'' \<or> b \<noteq> ''download'' \<or> name \<noteq> metadata_filename app \<or> rest \<noteq> []"
    using 1(2) by (metis append_Nil manifest_shaped_def)
  ultimately show ?case using 1(1) by simp
qed auto

lemma release_version_scan_first:
  "\<not> sublist [''releases'', ''download''] (front @ [''releases''])
   \<Longrightarrow> release_version_scan lib (front @ ''releases'' # ''download'' # tag # rest)
     = release_version_scan lib (''releases'' # ''download'' # tag # rest)"
proof (induction front)
  case (Cons a front)
  then have IH: "release_version_scan lib (front @ ''releases'' # ''download'' # tag # rest)
      = release_version_scan lib (''releases'' # ''download'' # tag # rest)"
    by (simp add: sublist_Cons_right)
  show ?case
  proof (cases front)
    case Nil
    with IH show ?thesis by simp
  next
    case (Cons b front')
    have "\<not> (a = ''releases'' \<and> b = ''download'')" using Cons.prems Cons by (auto simp: sublist_Cons_right)
    with IH Cons show ?thesis by (cases front') auto
  qed
qed simp

lemma reject_cross_within:
  assumes "validate_response_transport lib r = Inr u" and rej: "reject_cross_release_redirects lib app r v = Inr u'"
    and x: "x \<in> set (response_history r)"
  shows "within_release lib app v x"
proof -
  from rej [unfolded reject_cross_release_redirects_def forE_Inr] x obtain found where
    found: "versioned_manifest_url lib app x = Inr found" and
    checked: "(case found of Some (v', _) \<Rightarrow> ensureE (v' = v) (Download ''redirect history points at another release'')
       | None \<Rightarrow> bindE (versioned_release_version lib x) (\<lambda>found. case found of
           Some v' \<Rightarrow> ensureE (v' = v) (Download ''redirect history points at another release'') | None \<Rightarrow> Inr ())) = Inr ()"
    unfolding bindE_Inr by blast
  have manifest: "v' = v" if "versioned_manifest_url lib app x = Inr (Some (v', y))" for v' y
  proof -
    have "found = Some (v', y)" using found that by simp
    with checked show ?thesis by simp
  qed
  have release: "v' = v" if "versioned_manifest_url lib app x = Inr None" "versioned_release_version lib x = Inr (Some v')" for v'
  proof -
    have "found = None" using found that by simp
    with checked that(2) show ?thesis by simp
  qed
  have okay: "\<exists>r. versioned_release_version lib x = Inr r" if "versioned_manifest_url lib app x = Inr None"
  proof -
    have "found = None" using found that by simp
    with checked show ?thesis by auto
  qed
  from found obtain ss where ss: "url_segments lib x = Some ss" by (auto simp: versioned_manifest_url_def)
  have shaped: "tag = ''v'' @ version_string lib v" if "manifest_shaped app ss front tag" for front tag
  proof -
    have "manifest_url_scan lib app x [''releases'', ''download'', tag, metadata_filename app] = Inr found"
      using found that by (simp add: versioned_manifest_url_def ss manifest_shaped_def manifest_url_scan_shaped
          del: manifest_url_scan.simps)
    then obtain v' where "tag = ''v'' @ version_string lib v'" "found = Some (v', x)" by (auto simp: strip_prefix_Some)
    with found manifest show ?thesis by simp
  qed
  have other: "tag = ''v'' @ version_string lib v" if no: "\<nexists>f t. manifest_shaped app ss f t"
    and at: "ss = front @ ''releases'' # ''download'' # tag # rest" "\<not> sublist [''releases'', ''download''] (front @ [''releases''])"
    for front tag rest
  proof -
    have none: "versioned_manifest_url lib app x = Inr None"
      using manifest_url_scan_other [OF no, of lib x] by (simp add: versioned_manifest_url_def ss del: manifest_url_scan.simps)
    from okay [OF none] obtain r where r: "release_version_scan lib (''releases'' # ''download'' # tag # rest) = Inr r"
      using release_version_scan_first [OF at(2), of lib tag rest]
      by (auto simp: versioned_release_version_def ss at(1) simp del: release_version_scan.simps)
    then obtain v' where v': "tag = ''v'' @ version_string lib v'" "r = Some v'" by (auto simp: strip_prefix_Some)
    have "versioned_release_version lib x = Inr (Some v')"
      using r v' release_version_scan_first [OF at(2), of lib tag rest]
      by (simp add: versioned_release_version_def ss at(1) del: release_version_scan.simps)
    with release [OF none] v'(1) show ?thesis by simp
  qed
  show ?thesis using assms(1) x ss shaped other by (auto simp: within_release_def transport_https)
qed

text \<open>C9: metadata fetched for one exact version are signed, current and of that version, and every URL of the
  exchange is HTTPS and, where it names a release, names that version.\<close>

theorem exact_metadata_verified:
  assumes "fetch_exact_metadata lib app repository v keys w = (Inr md, w')"
  shows "verified_metadata lib app keys (clock w (clock_pos w)) md \<and> rm_version md = v
    \<and> (\<exists>u response. downloader lib (net_pos w) u MAX_METADATA_SIZE = Inr response \<and> dr_bytes response = rm_manifest_bytes md
         \<and> (\<forall>x \<in> set (response_history response). one_release lib app v x \<and> within_release lib app v x))"
proof -
  from assms obtain u response w1 where
    get: "fetch lib u MAX_METADATA_SIZE w = (Inr response, w1)" and
    go: "fetch_version_metadata_response lib app repository response v keys w1 = (Inr md, w')"
    by (auto simp: fetch_exact_metadata_def bindM_return_iff monad_simps)
  from go obtain t t' base where
    ok: "validate_response_transport lib response = Inr t" "reject_cross_release_redirects lib app response v = Inr t'" and
    md: "fetch_verified_metadata lib app (dr_bytes response) base v keys w1 = (Inr md, w')"
    by (auto simp: fetch_version_metadata_response_def bindM_return_iff monad_simps)
  from get have w1: "clock w1 = clock w" "clock_pos w1 = clock_pos w" "downloader lib (net_pos w) u MAX_METADATA_SIZE = Inr response"
    by (auto simp: fetch_def)
  with fetch_verified_metadata_Inr [OF md] reject_cross_one [OF ok] reject_cross_within [OF ok] show ?thesis by auto
qed

subsection \<open>A served release\<close>

text \<open>A server that answers the first request with the sample manifest, the second with its signatures
  and every later one with the archive.\<close>

definition served_manifest :: bytes where
  "served_manifest = encode manifest_codec sample_manifest"

definition served_signatures :: bytes where
  "served_signatures = encode envelope_codec (sign_manifest sample_lib served_manifest ''k'' ''secret'')"

definition served_url :: url where
  "served_url = ''https://h/r/releases/download/v1.0.7/demo-release.json''"

definition serving_env :: "nat env" where
  "serving_env = (sample_env [])\<lparr>downloader := (\<lambda>n u limit.
     if n = 0 then Inr \<lparr>dr_requested = u, dr_final = served_url, dr_history = [], dr_bytes = served_manifest\<rparr>
     else Inr \<lparr>dr_requested = u, dr_final = u, dr_history = [],
       dr_bytes = (if n = 1 then served_signatures else ''0123456789'')\<rparr>)\<rparr>"

lemma serving_env_simps [simp]:
  "version_parse serving_env = sample_version_parse" "version_string serving_env = sample_version_string"
  "manifest_of_json serving_env = decode manifest_codec" "parse_rfc3339 serving_env = sample_rfc3339"
  "base64_decode serving_env = Some" "verifying_key serving_env pk"
  "verify_strict serving_env pk msg sig = (sig = sample_sign pk msg)"
  "envelope_of_json serving_env = decode envelope_codec" "key_set_of_json serving_env = decode key_set_codec"
  "url_scheme serving_env = takeWhile (\<lambda>c. c \<noteq> CHR '':'')" "url_path serving_env = drop 9"
  "url_query serving_env u = None" "url_fragment serving_env u = None"
  "url_segments serving_env u = Some (split_on (CHR ''/'') (drop 10 u))" "url_join serving_env u s = Some (u @ s)"
  "url_set_path serving_env p u = take 9 u @ p" "url_set_query serving_env q u = u" "url_set_fragment serving_env q u = u"
  "downloader serving_env 0 u limit = Inr \<lparr>dr_requested = u, dr_final = served_url, dr_history = [], dr_bytes = served_manifest\<rparr>"
  "downloader serving_env (Suc 0) u limit = Inr \<lparr>dr_requested = u, dr_final = u, dr_history = [], dr_bytes = served_signatures\<rparr>"
  "downloader serving_env (Suc (Suc n)) u limit = Inr \<lparr>dr_requested = u, dr_final = u, dr_history = [], dr_bytes = ''0123456789''\<rparr>"
  "sha256_hex serving_env = sample_sha256"
  by (simp_all add: serving_env_def sample_env_def)

lemma serving_canonical: "canonical_asset serving_env = canonical_asset sample_lib"
  by (simp add: fun_eq_iff canonical_asset_def archive_name_def payload_path_def launcher_path_def
      target_root_name_def root_name_def split: option.splits)

lemma served_manifest_parsed: "manifest_from_bytes serving_env sample_app served_manifest = Inr sample_manifest"
  using sample_validate unfolding manifest_from_bytes_Inr manifest_validate_Inr
  by (simp add: served_manifest_def decode_encode manifest_codec_ok sample_manifest_length serving_canonical)

lemma served_signatures_verified: "verify_manifest serving_env sample_app served_manifest served_signatures = Inr ''k''"
proof -
  let ?env = "sign_manifest sample_lib served_manifest ''k'' ''secret''"
  let ?key = "trusted_key_ed25519 sample_lib ''k'' (sample_public ''secret'')"
  have "length served_signatures \<le> 1000"
    by (simp add: served_signatures_def encode_def envelope_codec_def entry_codec_def iso_codec_def pair_codec_def
        list_codec_def nat_codec_def string_codec_def word_codec_def sign_manifest_def sign_manifest_multi_def
        envelope_new_def ED25519_ALGORITHM_def SIGNATURE_SCHEMA_VERSION_def)
  then have env: "envelope_from_bytes serving_env served_signatures = Inr ?env"
    by (simp add: served_signatures_def envelope_from_bytes_Inr decode_encode envelope_codec_ok MAX_METADATA_SIZE_def
        sign_manifest_def sign_manifest_multi_def envelope_new_def)
  have ks: "key_set_from_bytes serving_env (app_trust_anchor sample_app) = Inr \<lparr>ks_schema_version = 1, ks_keys = [?key]\<rparr>"
    by (simp add: key_set_from_bytes_def sample_app_def decode_encode key_set_codec_ok
        SIGNATURE_SCHEMA_VERSION_def trusted_key_ed25519_def decode_public_key_Inr)
  have "entry_verifies serving_env served_manifest [?key] (hd (env_signatures ?env))"
    by (simp add: entry_verifies_iff find_key_def trusted_key_ed25519_def decode_public_key_Inr
        sign_manifest_def sign_manifest_multi_def envelope_new_def)
  then show ?thesis
    using ks env by (simp add: verify_manifest_def verify_with_keys_Inr has_ed25519_key_def
        trusted_key_ed25519_def sign_manifest_def sign_manifest_multi_def envelope_new_def)
qed


definition served_base :: url where
  "served_base = ''https://h/r/releases/download/v1.0.7/''"

definition served_signature_url :: url where
  "served_signature_url = ''https://h/r/releases/download/v1.0.7/demo-release.signatures.json''"

definition served_latest_url :: url where
  "served_latest_url = ''https://h/r/releases/latest/download/demo-release.json''"

lemmas url_evaluation = exact_metadata_url_def latest_metadata_url_def repository_base_def require_https_def
  metadata_filename_def signature_filename_def sample_app_def sample_version versioned_manifest_url_def
  versioned_release_version_def release_base_from_manifest_url_def sample_version_parse_def is_ascii_digit_def
  digits_value_def suffix_def strip_prefix_def strip_suffix_def bindE_def ensureE_def ok_orE_def
  served_url_def served_base_def served_signature_url_def served_latest_url_def

lemma served_urls:
  "exact_metadata_url serving_env sample_app ''https://h/r'' 7 = Inr served_url"
  "latest_metadata_url serving_env sample_app ''https://h/r'' = Inr served_latest_url"
  "url_scheme serving_env served_url = ''https''" "url_scheme serving_env served_signature_url = ''https''"
  "url_scheme serving_env served_latest_url = ''https''"
  "url_join serving_env served_base (signature_filename sample_app) = Some served_signature_url"
  "url_join serving_env ''https://h/r/'' (''releases/download/v'' @ version_string serving_env 7 @ ''/'') = Some served_base"
  "repository_base serving_env ''https://h/r'' = Inr ''https://h/r/''"
  "versioned_manifest_url serving_env sample_app served_url = Inr (Some (7, served_url))"
  "versioned_manifest_url serving_env sample_app served_latest_url = Inr None"
  "versioned_manifest_url serving_env sample_app served_signature_url = Inr None"
  "versioned_release_version serving_env served_signature_url = Inr (Some 7)"
  "release_base_from_manifest_url serving_env sample_app served_url = Inr served_base"
  by (simp_all add: url_evaluation)

lemma served_transport:
  "validate_response_transport serving_env \<lparr>dr_requested = served_url, dr_final = served_url, dr_history = [], dr_bytes = b\<rparr> = Inr ()"
  "validate_response_transport serving_env \<lparr>dr_requested = served_latest_url, dr_final = served_url, dr_history = [], dr_bytes = b\<rparr> = Inr ()"
  "validate_response_transport serving_env \<lparr>dr_requested = served_signature_url, dr_final = served_signature_url, dr_history = [], dr_bytes = b\<rparr> = Inr ()"
  "reject_cross_release_redirects serving_env sample_app
     \<lparr>dr_requested = served_url, dr_final = served_url, dr_history = [], dr_bytes = b\<rparr> 7 = Inr ()"
  "reject_cross_release_redirects serving_env sample_app
     \<lparr>dr_requested = served_signature_url, dr_final = served_signature_url, dr_history = [], dr_bytes = b\<rparr> 7 = Inr ()"
  "versioned_manifest_candidates serving_env sample_app
     \<lparr>dr_requested = served_latest_url, dr_final = served_url, dr_history = [], dr_bytes = b\<rparr> = Inr [(7, served_url)]"
  using served_urls
  by (simp_all add: transport_https reject_cross_release_redirects_def response_history_def versioned_manifest_candidates_def
      del: serving_env_simps)

lemma served_metadata:
  "\<exists>md w'. fetch_verified_metadata serving_env sample_app served_manifest served_base 7 None
     ((sample_world [])\<lparr>net_pos := 1\<rparr>) = (Inr md, w')"
proof -
  have "length served_manifest \<le> MAX_METADATA_SIZE"
    using sample_manifest_length by (simp add: served_manifest_def)
  moreover have "\<exists>env. envelope_from_bytes serving_env served_signatures = Inr env"
    using served_signatures_verified by (auto simp: verify_manifest_def verify_with_keys_Inr)
  moreover have "ensure_not_expired serving_env sample_manifest 1500000000000 = Inr ()"
    by (simp add: ensure_not_expired_Inr sample_manifest_def sample_rfc3339_def is_ascii_digit_def digits_value_def
        EXPIRY_CLOCK_SKEW_def)
  moreover have "m_version sample_manifest = 7" by (simp add: sample_manifest_def)
  ultimately show ?thesis
    using served_urls(6) served_transport(3,5) served_manifest_parsed served_signatures_verified
    by (auto simp: fetch_verified_metadata_def bindM_return_iff ensureM_apply monad_simps fetch_def utc_now_def
        verify_with_def sample_world_def Let_def simp del: serving_env_simps(15))
qed

lemma served_exact: "\<exists>md w'. fetch_exact_metadata serving_env sample_app ''https://h/r'' 7 None (sample_world []) = (Inr md, w')"
  using served_metadata served_urls(1,7,8) served_transport(1,4)
  by (auto simp: fetch_exact_metadata_def fetch_version_metadata_response_def bindM_return_iff monad_simps fetch_def
      sample_world_def Let_def simp del: serving_env_simps(2,15))

lemma served_latest: "\<exists>md w'. fetch_latest_metadata serving_env sample_app ''https://h/r'' None (sample_world []) = (Inr md, w')"
  using served_metadata served_urls(2,13) served_transport(2,6)
  by (auto simp: fetch_latest_metadata_def resolve_latest_response_def bindM_return_iff ensureM_apply monad_simps fetch_def
      sample_world_def Let_def)

theorem exact_metadata_verified_witness:
  "\<exists>md w'. fetch_exact_metadata serving_env sample_app ''https://h/r'' 7 None (sample_world []) = (Inr md, w')
     \<and> rm_version md = 7 \<and> verify_manifest serving_env sample_app (rm_manifest_bytes md) (rm_signature_bytes md) = Inr (rm_key_id md)"
proof -
  obtain md w' where md: "fetch_exact_metadata serving_env sample_app ''https://h/r'' 7 None (sample_world []) = (Inr md, w')"
    using served_exact by blast
  from exact_metadata_verified [OF md] md show ?thesis
    by (auto simp: verified_metadata_def verify_with_def)
qed

theorem latest_metadata_verified_witness:
  "\<exists>md w'. fetch_latest_metadata serving_env sample_app ''https://h/r'' None (sample_world []) = (Inr md, w')
     \<and> m_version (rm_manifest md) = rm_version md"
proof -
  obtain md w' where md: "fetch_latest_metadata serving_env sample_app ''https://h/r'' None (sample_world []) = (Inr md, w')"
    using served_latest by blast
  from latest_metadata_verified [OF md] md show ?thesis by (auto simp: verified_metadata_def)
qed

subsection \<open>Archives\<close>

text \<open>C10: a downloaded archive is the one the manifest lists for the target: it was requested from the archive's
  name below the release base of the metadata, its name, its size and its SHA-256 digest are those of the
  selected asset, and every URL of the exchange is HTTPS and, where it names a release, names that of the metadata.\<close>

theorem downloaded_archive_verified:
  assumes "download_archive lib app md t w = (Inr a, w')"
  shows "\<exists>s u response. asset_for lib (rm_manifest md) app t = Inr s
     \<and> url_join lib (rm_release_base md) (a_archive (sel_asset s)) = Some u
     \<and> downloader lib (net_pos w) u (unat MAX_ARCHIVE_SIZE) = Inr response \<and> da_bytes a = dr_bytes response
     \<and> (\<forall>x \<in> set (response_history response). within_release lib app (rm_version md) x)
     \<and> da_target a = t \<and> da_name a = a_archive (sel_asset s)
     \<and> of_nat (length (da_bytes a)) = a_archive_size (sel_asset s)
     \<and> sha256_bytes lib (da_bytes a) = a_archive_sha256 (sel_asset s)"
proof -
  from assms obtain s u response w1 t1 t2 t3 where
    sel: "asset_for lib (rm_manifest md) app t = Inr s"
      "url_join lib (rm_release_base md) (a_archive (sel_asset s)) = Some u" and
    get: "fetch lib u (unat MAX_ARCHIVE_SIZE) w = (Inr response, w1)" and
    ok: "validate_response_transport lib response = Inr t1" "reject_cross_release_redirects lib app response (rm_version md) = Inr t2" and
    v: "verify_archive_bytes lib app (dr_bytes response) (sel_asset s) = Inr t3" and
    a: "a = \<lparr>da_target = t, da_name = a_archive (sel_asset s), da_bytes = dr_bytes response\<rparr>"
    by (auto simp: download_archive_def Let_def bindM_return_iff monad_simps)
  from v have "of_nat (length (dr_bytes response)) = a_archive_size (sel_asset s)
      \<and> sha256_bytes lib (dr_bytes response) = a_archive_sha256 (sel_asset s)"
    by (auto simp: verify_archive_bytes_def verify_bytes_Inr sha256_bytes_def)
  moreover from get have "downloader lib (net_pos w) u (unat MAX_ARCHIVE_SIZE) = Inr response" by (simp add: fetch_def)
  ultimately show ?thesis
    using sel a reject_cross_within [OF ok] by (intro exI [of _ s] exI [of _ u] exI [of _ response]) simp
qed

definition served_metadata_7 :: "nat release_metadata" where
  "served_metadata_7 = \<lparr>rm_version = 7, rm_manifest_bytes = served_manifest, rm_manifest = sample_manifest,
     rm_signature_bytes = served_signatures, rm_signature = sign_manifest sample_lib served_manifest ''k'' ''secret'',
     rm_key_id = ''k'', rm_release_base = served_base\<rparr>"

lemma serving_semver: "semver_ok serving_env"
  using sample_semver_ok by (simp add: semver_ok_def)

lemma served_archive_bytes: "verify_archive_bytes serving_env sample_app ''0123456789'' sample_asset = Inr ()"
proof -
  have names: "a_archive sample_asset = archive_name serving_env X86_64UnknownLinuxGnu sample_app 7"
      "p_path (a_payload sample_asset) = payload_path serving_env X86_64UnknownLinuxGnu sample_app 7"
    by (simp_all add: sample_asset_def asset_new_def archive_name_def payload_path_def target_root_name_def root_name_def)
  have "CHR ''/'' \<notin> set (app_name sample_app)" by (simp add: sample_app_def)
  note version = version_from_asset [OF serving_semver this names(2)]
  have "canonical_asset sample_lib sample_app 7 X86_64UnknownLinuxGnu sample_asset"
    using sample_validate unfolding manifest_validate_Inr by (simp add: sample_manifest_def)
  then have "asset_validate serving_env sample_asset sample_app 7 X86_64UnknownLinuxGnu = Inr ()"
    by (simp add: asset_validate_Inr serving_canonical)
  moreover have "char_of (48::nat) = CHR ''0''" by code_simp
  then have "verify_bytes serving_env ''0123456789'' (a_archive_size sample_asset) (a_archive_sha256 sample_asset) = Inr ()"
    by (simp add: verify_bytes_Inr sample_asset_def asset_new_def sample_sha256_def)
  ultimately show ?thesis
    using target_from_archive_name [OF serving_semver names(1)] version
    by (simp add: verify_archive_bytes_def ensureE_def MAX_ARCHIVE_SIZE_def)
qed

lemma served_asset: "asset_for serving_env sample_manifest sample_app X86_64UnknownLinuxGnu
    = Inr \<lparr>sel_target = X86_64UnknownLinuxGnu, sel_asset = sample_asset\<rparr>"
  using sample_validate unfolding asset_for_Inr manifest_validate_Inr
  by (simp add: sample_manifest_def serving_canonical)

lemma served_archive_url:
  "validate_response_transport serving_env \<lparr>dr_requested = served_base @ a_archive sample_asset,
     dr_final = served_base @ a_archive sample_asset, dr_history = [], dr_bytes = b\<rparr> = Inr ()"
  "reject_cross_release_redirects serving_env sample_app \<lparr>dr_requested = served_base @ a_archive sample_asset,
     dr_final = served_base @ a_archive sample_asset, dr_history = [], dr_bytes = b\<rparr> 7 = Inr ()"
  by (simp_all add: transport_https reject_cross_release_redirects_def response_history_def url_evaluation sample_asset_def
      asset_new_def archive_name_def target_root_name_def root_name_def archive_suffix_def is_windows_def)

theorem downloaded_archive_verified_witness:
  "\<exists>a w'. download_archive serving_env sample_app served_metadata_7 X86_64UnknownLinuxGnu ((sample_world [])\<lparr>net_pos := 2\<rparr>) = (Inr a, w')
     \<and> da_target a = X86_64UnknownLinuxGnu \<and> sha256_bytes serving_env (da_bytes a) = a_archive_sha256 sample_asset"
proof -
  have "\<exists>a w'. download_archive serving_env sample_app served_metadata_7 X86_64UnknownLinuxGnu
      ((sample_world [])\<lparr>net_pos := 2\<rparr>) = (Inr a, w')"
    using served_archive_bytes served_asset served_archive_url
    by (auto simp: download_archive_def bindM_return_iff monad_simps fetch_def served_metadata_7_def Let_def numeral_2_eq_2)
  then obtain a w' where a: "download_archive serving_env sample_app served_metadata_7 X86_64UnknownLinuxGnu
      ((sample_world [])\<lparr>net_pos := 2\<rparr>) = (Inr a, w')" by blast
  from downloaded_archive_verified [OF a] a served_asset show ?thesis by (auto simp: served_metadata_7_def)
qed

end
