(* ===== verification/Fs_Properties.thy ===== *)
theory Fs_Properties
  imports Sample_Installation
begin

text \<open>
  What the file primitives guarantee under every pattern of failing and interrupted system calls:
  replacement is atomic, new files never replace and are complete, directories are entered without
  links.
\<close>

subsection \<open>Replacing and creating\<close>

text \<open>C18: an atomic replacement, wherever it fails or the process dies, leaves the destination with its
  old node or with the complete new contents, and with the new contents when it returns; apart from
  its own temporary names it changes nothing else.\<close>

theorem replacement_is_atomic:
  assumes "atomic_replace_file_with_mode h p b mode w = (r, w')"
  shows "(lookup w' p = lookup w p \<or> (\<exists>a. lookup w' p = Some (RegularFile a b)))
    \<and> (\<forall>u. r = Inr u \<longrightarrow> (\<exists>a. lookup w' p = Some (RegularFile a b)))
    \<and> (\<forall>q. q \<noteq> p \<and> q \<notin> temp_paths p \<longrightarrow> lookup w' q = lookup w q)"
proof -
  have t: "touches (insert p (temp_paths p)) (atomic_replace_file_with_mode h p b mode)"
    by (rule touches_atomic_replace) auto
  have "\<forall>q. q \<noteq> p \<and> q \<notin> temp_paths p \<longrightarrow> lookup w' q = lookup w q"
    using touchesD [OF t assms] by blast
  moreover have "(lookup w' p = lookup w p \<or> (\<exists>a. lookup w' p = Some (RegularFile a b)))
      \<and> (\<forall>u. r = Inr u \<longrightarrow> (\<exists>a. lookup w' p = Some (RegularFile a b)))"
    using atomic_replace_outcome [of p "lookup w p" h b mode] refl assms by (rule valid_outcome) blast+
  ultimately show ?thesis by simp
qed

theorem replacement_is_atomic_witness:
  "let p = [RootDir, Normal ''bin'', Normal ''x''];
       w' = snd (atomic_replace_file sample_host p ''new'' (sample_world [IoOk, IoOk, IoOk, IoFail 2, IoCrash])) in
     lookup w' p = None \<or> (\<exists>a. lookup w' p = Some (RegularFile a ''new''))"
proof -
  let ?p = "[RootDir, Normal ''bin'', Normal ''x'']" and ?w = "sample_world [IoOk, IoOk, IoOk, IoFail 2, IoCrash]"
  have "lookup ?w ?p = None" by (simp add: lookup_def sample_world_def Let_def)
  then show ?thesis
    using replacement_is_atomic [OF prod.collapse [symmetric], of sample_host ?p "''new''" None ?w]
    by (simp add: Let_def atomic_replace_file_def)
qed

lemma set_permissions_content:
  assumes "set_permissions p m w = (r, w')" and "lookup w p = Some (RegularFile a b)"
  shows "\<exists>a. lookup w' p = Some (RegularFile a b)"
  using assms unfolding set_permissions_def by (elim io_cases) (auto split: option.splits node.splits)

lemma write_all_content:
  "valid (\<lambda>w. I (lookup w p) \<and> (\<exists>a c. lookup w tmp = Some (RegularFile a c))) (write_all tmp b)
     (\<lambda>_ w. I (lookup w p) \<and> (\<exists>a. lookup w tmp = Some (RegularFile a b))) (\<lambda>w. I (lookup w p))"
  if "tmp \<noteq> p" for I
proof (rule validI)
  fix w u w' assume "I (lookup w p) \<and> (\<exists>a c. lookup w tmp = Some (RegularFile a c))" and "write_all tmp b w = (Inr u, w')"
  with that show "I (lookup w' p) \<and> (\<exists>a. lookup w' tmp = Some (RegularFile a b))" by (auto dest!: write_all_Inr)
next
  fix w k w' assume P: "I (lookup w p) \<and> (\<exists>a c. lookup w tmp = Some (RegularFile a c))" and r: "write_all tmp b w = (Inl k, w')"
  have "touches {tmp} (write_all tmp b)" by (rule touches_write_all) simp
  from touchesD [OF this r, of p] P that show "I (lookup w' p)" by simp
qed

lemma create_new_file_outcome:
  assumes name: "file_name p = Some n"
  shows "valid (\<lambda>w. lookup w p = x) (create_new_file h p b mode)
     (\<lambda>_ w. x = None \<and> (\<exists>a. lookup w p = Some (RegularFile a b)))
     (\<lambda>w. lookup w p = x \<or> (x = None \<and> (\<exists>a. lookup w p = Some (RegularFile a b))))"
    (is "valid ?P _ ?Q ?E")
proof -
  have keep: "valid ?P m (\<lambda>_. ?P) ?E" if "touches {} m" for m :: "'c io"
    by (rule valid_at [OF that, where I = "\<lambda>n. n = x"]) auto
  have look: "valid ?P (tryM (symlink_metadata p)) (\<lambda>r w. ?P w \<and> (r = Inl NotFound \<longrightarrow> x = None)) ?E"
    by (rule validI) (use symlink_metadata_cases in \<open>force+\<close>)
  have absent: "valid (\<lambda>w. ?P w \<and> (r = Inl NotFound \<longrightarrow> x = None))
      (case r of Inr _ \<Rightarrow> throwM AlreadyExists | Inl e \<Rightarrow> ensureM (e = NotFound) e) (\<lambda>_ w. ?P w \<and> x = None) ?E" for r :: "io_kind + node"
    by (cases r) (auto simp: valid_def throwM_apply ensureM_apply)
  let ?T = "\<lambda>tmp c w. lookup w p = None \<and> (\<exists>a. lookup w tmp = Some (RegularFile a c))"
  let ?N = "\<lambda>w. lookup w p = None \<or> (\<exists>a. lookup w p = Some (RegularFile a b))"
  have create: "valid (\<lambda>w. lookup w p = None) (create_temporary_file h p mode)
      (\<lambda>tmp w. ?T tmp [] w \<and> tmp \<in> temp_paths p) ?N"
    unfolding create_temporary_file_def
    by (rule validI) (use temp_paths_not_self [of p] in \<open>auto dest!: create_temporary_loop_result\<close>)
  obtain d where d: "p = d @ [Normal n]" using file_name_cases [OF name] by blast
  have body: "valid (\<lambda>w. ?T tmp [] w \<and> tmp \<in> temp_paths p)
      (or_remove tmp
       (bindM (write_all tmp b) (\<lambda>_.
        bindM (case mode of Some m \<Rightarrow> whenM (\<not> h_windows h) (set_permissions tmp m) | None \<Rightarrow> returnM ()) (\<lambda>_.
        bindM sync_all (\<lambda>_. rename_new h tmp p)))))
      (\<lambda>_ w. \<exists>a. lookup w p = Some (RegularFile a b)) ?N" for tmp
  proof (rule valid_fact)
    assume t: "tmp \<in> temp_paths p"
    then obtain m where tmp: "tmp = d @ [Normal m]"
      by (auto simp: temp_paths_def d with_file_name_def file_name_def split: option.splits)
    moreover have "tmp \<noteq> p" using t temp_paths_not_self [of p] by blast
    ultimately have ne: "tmp \<noteq> p" and apart: "\<not> prefix tmp p" "\<not> prefix p tmp"
      by (auto simp: d)
    have wr: "valid (?T tmp []) (write_all tmp b) (\<lambda>_. ?T tmp b) (\<lambda>w. lookup w p = None)"
      by (rule valid_pre [OF write_all_content [OF ne, where I = "\<lambda>n. n = None"]]) auto
    have perm: "valid (?T tmp b) (set_permissions tmp m') (\<lambda>_. ?T tmp b) (\<lambda>w. lookup w p = None)" for m'
    proof (rule validI)
      have other: "lookup w' p = lookup w p" if "set_permissions tmp m' w = (r, w')" for w r w'
        using touchesD [OF touches_set_permissions [of tmp "{tmp}"] that, of p] ne by simp
      show "?T tmp b w'" if "?T tmp b w" "set_permissions tmp m' w = (Inr u, w')" for w u w'
        using that other [OF that(2)] set_permissions_content [OF that(2)] by auto
      show "lookup w' p = None" if "?T tmp b w" "set_permissions tmp m' w = (Inl k, w')" for w k w'
        using that other [OF that(2)] by auto
    qed
    have mode: "valid (?T tmp b) (case mode of Some m \<Rightarrow> whenM (\<not> h_windows h) (set_permissions tmp m) | None \<Rightarrow> returnM ())
        (\<lambda>_. ?T tmp b) (\<lambda>w. lookup w p = None)"
      using perm valid_return [of "\<lambda>_. ?T tmp b" "()"] by (cases mode; cases "h_windows h") auto
    have sync: "valid (?T tmp b) sync_all (\<lambda>_. ?T tmp b) (\<lambda>w. lookup w p = None)"
      by (rule valid_post [OF valid_unchanged [where P = "?T tmp b"]]) (auto intro: touches_intros)
    have move: "valid (?T tmp b) (rename_new h tmp p) (\<lambda>_ w. \<exists>a. lookup w p = Some (RegularFile a b)) ?N"
      by (rule validI; drule rename_new_cases [OF _ apart]) auto
    have weak: "valid (?T tmp c) q R ?N" if "valid (?T tmp c) q R (\<lambda>w. lookup w p = None)" for c R and q :: "unit io"
      by (rule valid_post [OF that]) auto
    show "valid (?T tmp []) (or_remove tmp
       (bindM (write_all tmp b) (\<lambda>_.
        bindM (case mode of Some m \<Rightarrow> whenM (\<not> h_windows h) (set_permissions tmp m) | None \<Rightarrow> returnM ()) (\<lambda>_.
        bindM sync_all (\<lambda>_. rename_new h tmp p)))))
      (\<lambda>_ w. \<exists>a. lookup w p = Some (RegularFile a b)) ?N"
      by (rule valid_or_remove, rule valid_bind [OF weak [OF wr]], rule valid_bind [OF weak [OF mode]],
          rule valid_bind [OF weak [OF sync]], rule move) (use ne in auto)
  qed
  have tail: "valid (\<lambda>w. ?P w \<and> x = None) (bindM (create_temporary_file h p mode) (\<lambda>tmp. or_remove tmp
       (bindM (write_all tmp b) (\<lambda>_.
        bindM (case mode of Some m \<Rightarrow> whenM (\<not> h_windows h) (set_permissions tmp m) | None \<Rightarrow> returnM ()) (\<lambda>_.
        bindM sync_all (\<lambda>_. rename_new h tmp p)))))) ?Q ?E"
  proof (rule valid_fact)
    assume x: "x = None"
    show "valid ?P (bindM (create_temporary_file h p mode) (\<lambda>tmp. or_remove tmp
       (bindM (write_all tmp b) (\<lambda>_.
        bindM (case mode of Some m \<Rightarrow> whenM (\<not> h_windows h) (set_permissions tmp m) | None \<Rightarrow> returnM ()) (\<lambda>_.
        bindM sync_all (\<lambda>_. rename_new h tmp p)))))) ?Q ?E"
      unfolding x by (rule valid_post [OF valid_bind [OF create body]]) auto
  qed
  show ?thesis
    unfolding create_new_file_def
    by (rule valid_bind [OF keep], rule touches_basic, rule valid_bind [OF keep], rule touches_kinds,
        rule valid_bind [OF look], rule valid_bind [OF absent], rule tail)
qed

text \<open>C19: a new file never replaces anything: what the path held before stays, and only a path that held
  nothing can get the new file, complete; a normal return means it did.\<close>

theorem new_file_complete_or_absent:
  assumes "file_name p = Some n" and "create_new_file h p b mode w = (r, w')"
  shows "(lookup w' p = lookup w p \<or> lookup w p = None \<and> (\<exists>a. lookup w' p = Some (RegularFile a b)))
    \<and> (\<forall>u. r = Inr u \<longrightarrow> lookup w p = None \<and> (\<exists>a. lookup w' p = Some (RegularFile a b)))"
  using create_new_file_outcome [OF assms(1), of "lookup w p" h b mode] refl assms(2) by (rule valid_outcome) blast+

theorem new_file_complete_or_absent_witness:
  "let p = [RootDir, Normal ''bin''];
       w' = snd (create_new_file sample_host p ''data'' (Some 0x180) (sample_world [])) in
     lookup w' p = lookup (sample_world []) p"
proof -
  let ?p = "[RootDir, Normal ''bin'']"
  have "lookup (sample_world []) ?p \<noteq> None" by (simp add: lookup_def sample_world_def Let_def)
  then show ?thesis
    using new_file_complete_or_absent [OF _ prod.collapse [symmetric], of ?p "''bin''" sample_host "''data''" "Some 0x180" "sample_world []"]
    by (auto simp: Let_def file_name_def)
qed

subsection \<open>New files in an opened directory\<close>

lemma verify_loop_exact:
  "k \<le> length b \<Longrightarrow> fst (verify_loop b k r) = Inr u \<longleftrightarrow> r_error r = None \<and> r_data r = drop k b"
proof (induction b k r rule: verify_loop.induct)
  case (1 b k r)
  obtain x r' where rd: "read BUFFER r = (x, r')" by fastforce
  show ?case
  proof (cases x)
    case (Inl e)
    with rd show ?thesis by (simp add: verify_loop.simps [of b k r] read_error)
  next
    case (Inr c)
    show ?thesis
    proof (cases "c = []")
      case True
      with rd Inr "1.prems" show ?thesis
        using read_empty [of BUFFER r r'] by (auto simp: verify_loop.simps [of b k r])
    next
      case False
      from rd Inr have s: "r_data r = c @ r_data r'" "r_error r' = r_error r"
        using read_split by blast+
      show ?thesis
      proof (cases "length b < k + length c \<or> take (length c) (drop k b) \<noteq> c")
        case True
        then have "c @ r_data r' \<noteq> drop k b"
          by (metis append_eq_conv_conj length_append length_drop le_add1 le_diff_conv2 not_le "1.prems" add.commute)
        with True rd Inr False s show ?thesis by (simp add: verify_loop.simps [of b k r])
      next
        case ok: False
        then have "drop k b = c @ drop (k + length c) b"
          by (metis append_take_drop_id drop_drop add.commute)
        moreover have "fst (verify_loop b k r) = fst (verify_loop b (k + length c) r')"
          using rd Inr False ok by (simp add: verify_loop.simps [of b k r])
        ultimately show ?thesis
          using "1.IH" [OF rd [symmetric] Inr False ok] ok s by simp
      qed
    qed
  qed
qed

text \<open>The read-back of a file just written succeeds exactly when the file holds the bytes that were
  to be written, for every way the reads are split and for every length.\<close>

lemma readback_exact:
  "fst (verify_loop b 0 r) = Inr () \<longleftrightarrow> r_error r = None \<and> r_data r = b"
  using verify_loop_exact [of 0 b r "()"] by simp

lemma create_new_outcome:
  "valid (\<lambda>w. lookup w p = x) (create_new h p mode)
     (\<lambda>_ w. x = None \<and> (\<exists>a. lookup w p = Some (RegularFile a []))) (\<lambda>w. lookup w p = x)"
  unfolding create_new_def by (rule validI; erule io_cases) (auto split: if_splits)

text \<open>A triple whose error postcondition is trivial, step by step.\<close>

lemma content_step:
  "touches {} m \<Longrightarrow> (\<And>a. valid (\<lambda>w. \<exists>a. lookup w p = Some (RegularFile a b)) (f a) Q (\<lambda>_. True))
   \<Longrightarrow> valid (\<lambda>w. \<exists>a. lookup w p = Some (RegularFile a b)) (bindM m f) Q (\<lambda>_. True)"
proof (rule valid_bind)
  assume t: "touches {} m"
  show "valid (\<lambda>w. \<exists>a. lookup w p = Some (RegularFile a b)) m (\<lambda>_ w. \<exists>a. lookup w p = Some (RegularFile a b)) (\<lambda>_. True)"
    by (rule valid_post [OF valid_unchanged [OF t]]) auto
qed

lemma write_content: "valid (\<lambda>w. \<exists>a c. lookup w p = Some (RegularFile a c)) (write_all p b)
    (\<lambda>_ w. \<exists>a. lookup w p = Some (RegularFile a b)) (\<lambda>_. True)"
  by (rule validI) (auto dest!: write_all_Inr)

lemma permissions_content: "valid (\<lambda>w. \<exists>a. lookup w p = Some (RegularFile a b)) (set_permissions p m)
    (\<lambda>_ w. \<exists>a. lookup w p = Some (RegularFile a b)) (\<lambda>_. True)"
  by (rule validI) (auto dest: set_permissions_content)

lemma mode_content: "valid (\<lambda>w. \<exists>a. lookup w p = Some (RegularFile a b))
    (case mode of Some m \<Rightarrow> whenM c (set_permissions p m) | None \<Rightarrow> returnM ())
    (\<lambda>_ w. \<exists>a. lookup w p = Some (RegularFile a b)) (\<lambda>_. True)"
  using permissions_content [of p b] by (cases mode; cases c) (auto simp: valid_def returnM_apply)

lemma verify_new_content: "valid (\<lambda>w. \<exists>a c. lookup w p = Some (RegularFile a c)) (verify_new_file_contents h p b mode)
    (\<lambda>_ w. \<exists>a. lookup w p = Some (RegularFile a b)) (\<lambda>_. True)"
  unfolding verify_new_file_contents_def
  by (rule valid_bind [OF write_content], rule valid_bind [OF mode_content], (rule content_step, (intro touches_intros)[1])+)
    (auto simp: valid_def monad_simps split: sum.splits)

text \<open>The node checked to have a single link keeps its contents.\<close>

lemma new_file_body_content:
  "valid (\<lambda>w. \<exists>a c. lookup w p = Some (RegularFile a c))
     (bindM (symlink_metadata p) (\<lambda>n. case n of
        RegularFile a _ \<Rightarrow>
          bindM (ensureM (at_nlink a = 1) PermissionDenied) (\<lambda>_.
          bindM (case mode of Some m \<Rightarrow> set_permissions p m | None \<Rightarrow> returnM ()) (\<lambda>_.
          bindM (verify_new_file_contents h p b None) (\<lambda>_. sync_all)))
      | _ \<Rightarrow> throwM PermissionDenied))
     (\<lambda>_ w. \<exists>a. lookup w p = Some (RegularFile a b)) (\<lambda>_. True)"
proof -
  let ?R = "\<lambda>w. \<exists>a c. lookup w p = Some (RegularFile a c)"
  have keep: "valid ?R m (\<lambda>_. ?R) (\<lambda>_. True)" if "touches {} m" for m :: "'c io"
    by (rule valid_post [OF valid_unchanged [OF that]]) auto
  have mode: "valid ?R (case mode of Some m \<Rightarrow> set_permissions p m | None \<Rightarrow> returnM ()) (\<lambda>_. ?R) (\<lambda>_. True)"
    by (cases mode) (auto simp: valid_def returnM_apply dest: set_permissions_content split: prod.splits sum.splits)
  have sync: "valid (\<lambda>w. \<exists>a. lookup w p = Some (RegularFile a b)) sync_all
      (\<lambda>_ w. \<exists>a. lookup w p = Some (RegularFile a b)) (\<lambda>_. True)"
    by (rule valid_post [OF valid_unchanged]) (auto intro: touches_intros)
  have "valid ?R (case n of
        RegularFile a _ \<Rightarrow>
          bindM (ensureM (at_nlink a = 1) PermissionDenied) (\<lambda>_.
          bindM (case mode of Some m \<Rightarrow> set_permissions p m | None \<Rightarrow> returnM ()) (\<lambda>_.
          bindM (verify_new_file_contents h p b None) (\<lambda>_. sync_all)))
      | _ \<Rightarrow> throwM PermissionDenied) (\<lambda>_ w. \<exists>a. lookup w p = Some (RegularFile a b)) (\<lambda>_. True)" for n
  proof (cases n)
    case (RegularFile a c)
    show ?thesis
      unfolding RegularFile node.case
      by (rule valid_bind [OF keep], (intro touches_intros)[1], rule valid_bind [OF mode],
          rule valid_bind [OF verify_new_content], rule sync)
  qed (simp_all add: valid_def throwM_apply)
  then show ?thesis by (intro valid_bind [OF keep] touches_intros)
qed

text \<open>A new file opened relative to a directory.\<close>

lemma open_relative_creates:
  "valid (\<lambda>w. lookup w (join d n) = x) (open_relative h d n FileCreate NonDirectoryFile None)
     (\<lambda>f w. f = join d n \<and> x = None \<and> (\<exists>a. lookup w (join d n) = Some (RegularFile a [])))
     (\<lambda>w. lookup w (join d n) = x)"
proof -
  let ?I = "\<lambda>w. lookup w (join d n) = x"
  have nt: "valid ?I (nt_create_file h FileCreate NonDirectoryFile None (join d n))
      (\<lambda>_ w. x = None \<and> (\<exists>a. lookup w (join d n) = Some (RegularFile a []))) ?I"
    unfolding nt_create_file_def new_object_def
    by (rule validI; erule io_cases) (auto split: option.splits if_splits)
  have keep: "valid ?I m (\<lambda>_. ?I) ?I" if "touches {} m" for m :: "'a io"
    by (rule valid_unchanged [OF that]) simp
  show ?thesis
    unfolding open_relative_def
    by (rule valid_bind [OF keep], (intro touches_intros)[1], rule valid_bind [OF keep], (intro touches_intros)[1],
        rule valid_bind [OF nt]) (simp add: valid_def returnM_apply)
qed

lemma create_file_outcome:
  "valid (\<lambda>w. lookup w (join d n) = x) (create_file h d n)
     (\<lambda>f w. f = join d n \<and> x = None \<and> (\<exists>a. lookup w (join d n) = Some (RegularFile a [])))
     (\<lambda>w. lookup w (join d n) = x \<or> x = None)"
proof -
  have keep: "valid (\<lambda>w. f = join d n \<and> x = None \<and> (\<exists>a. lookup w (join d n) = Some (RegularFile a [])))
      (bindM (validate_regular f) (\<lambda>_. returnM f))
      (\<lambda>f w. f = join d n \<and> x = None \<and> (\<exists>a. lookup w (join d n) = Some (RegularFile a [])))
      (\<lambda>w. lookup w (join d n) = x \<or> x = None)" for f
  proof (rule valid_bind)
    let ?R = "\<lambda>w. f = join d n \<and> x = None \<and> (\<exists>a. lookup w (join d n) = Some (RegularFile a []))"
    show "valid ?R (validate_regular f) (\<lambda>_. ?R) (\<lambda>w. lookup w (join d n) = x \<or> x = None)"
      by (rule valid_post [OF valid_unchanged]) (auto intro: touches_intros)
  qed (simp add: valid_def returnM_apply)
  show ?thesis
    unfolding create_file_def by (rule valid_bind [OF valid_post [OF open_relative_creates] keep]) simp_all
qed

lemma create_new_file_at_outcome:
  "valid (\<lambda>w. lookup w (join dir name) = x) (create_new_file_at h dir name b mode)
     (\<lambda>d w. d = join dir name \<and> is_safe_basename name (h_windows h) \<and> x = None
        \<and> (\<exists>a. lookup w (join dir name) = Some (RegularFile a b)))
     (\<lambda>w. lookup w (join dir name) = x \<or> x = None)"
proof -
  let ?p = "join dir name"
  have body: "valid (\<lambda>w. x = None \<and> (\<exists>a. lookup w ?p = Some (RegularFile a [])))
      (bindM (or_remove ?p m) (\<lambda>_. returnM ?p))
      (\<lambda>d w. d = ?p \<and> x = None \<and> (\<exists>a. lookup w ?p = Some (RegularFile a b))) (\<lambda>w. lookup w ?p = x \<or> x = None)"
    if m: "valid (\<lambda>w. \<exists>a c. lookup w ?p = Some (RegularFile a c)) m (\<lambda>_ w. \<exists>a. lookup w ?p = Some (RegularFile a b)) (\<lambda>_. True)"
    for m
  proof (cases "x = None")
    case True
    have "valid (\<lambda>w. \<exists>a c. lookup w ?p = Some (RegularFile a c)) (or_remove ?p m)
        (\<lambda>_ w. \<exists>a. lookup w ?p = Some (RegularFile a b)) (\<lambda>w. lookup w ?p = x \<or> x = None)"
      by (rule valid_or_remove [OF m]) (simp_all add: True)
    then have "valid (\<lambda>w. \<exists>a. lookup w ?p = Some (RegularFile a [])) (or_remove ?p m)
        (\<lambda>_ w. \<exists>a. lookup w ?p = Some (RegularFile a b)) (\<lambda>w. lookup w ?p = x \<or> x = None)"
      by (rule valid_pre) blast
    from valid_bind [OF this, of "\<lambda>_. returnM ?p"] show ?thesis
      using True by (auto simp: valid_def returnM_apply)
  qed (auto simp: valid_def)
  have create: "valid (\<lambda>w. lookup w ?p = x) (create_new h ?p k)
      (\<lambda>_ w. x = None \<and> (\<exists>a. lookup w ?p = Some (RegularFile a []))) (\<lambda>w. lookup w ?p = x \<or> x = None)" for k
    by (rule valid_post [OF create_new_outcome]) simp_all
  show ?thesis
  proof (cases "is_safe_basename name (h_windows h)")
    case True
    have win: "valid (\<lambda>w. lookup w ?p = x)
        (bindM (create_file h dir name) (\<lambda>f. bindM (or_remove f (verify_new_file_contents h f b None)) (\<lambda>_. returnM ?p)))
        (\<lambda>d w. d = ?p \<and> x = None \<and> (\<exists>a. lookup w ?p = Some (RegularFile a b))) (\<lambda>w. lookup w ?p = x \<or> x = None)"
    proof (rule valid_bind [OF create_file_outcome])
      fix f
      show "valid (\<lambda>w. f = ?p \<and> x = None \<and> (\<exists>a. lookup w ?p = Some (RegularFile a [])))
          (bindM (or_remove f (verify_new_file_contents h f b None)) (\<lambda>_. returnM ?p))
          (\<lambda>d w. d = ?p \<and> x = None \<and> (\<exists>a. lookup w ?p = Some (RegularFile a b))) (\<lambda>w. lookup w ?p = x \<or> x = None)"
        using body [OF verify_new_content, of h] by (cases "f = ?p") (simp_all add: valid_def)
    qed
    have unix: "valid (\<lambda>w. lookup w ?p = x)
        (bindM (create_new h ?p k) (\<lambda>_. bindM (or_remove ?p
          (bindM (symlink_metadata ?p) (\<lambda>n. case n of
             RegularFile a _ \<Rightarrow>
               bindM (ensureM (at_nlink a = 1) PermissionDenied) (\<lambda>_.
               bindM (case mode of Some m \<Rightarrow> set_permissions ?p m | None \<Rightarrow> returnM ()) (\<lambda>_.
               bindM (verify_new_file_contents h ?p b None) (\<lambda>_. sync_all)))
           | _ \<Rightarrow> throwM PermissionDenied))) (\<lambda>_. returnM ?p)))
        (\<lambda>d w. d = ?p \<and> x = None \<and> (\<exists>a. lookup w ?p = Some (RegularFile a b))) (\<lambda>w. lookup w ?p = x \<or> x = None)" for k
      by (rule valid_bind [OF create body [OF new_file_body_content]])
    have ok: "ensureM (is_safe_basename name (h_windows h)) InvalidInput = (returnM () :: unit io)"
      by (simp add: ensureM_def True)
    show ?thesis
      unfolding create_new_file_at_def create_new_file_at_unix_def Let_def ok bindM_simps
      by (split if_split) (intro conjI impI; simp (no_asm) only: True simp_thms win unix)
  qed (simp add: create_new_file_at_def ensureM_def valid_def throwM_apply)
qed

text \<open>Cleaning up. \<open>faults n\<close>: of the calls to come at most \<open>n\<close> fail, and the process is not killed. A step that
  \<open>survives\<close> turns a world where one call may still fail into another one, or it fails, has left the file in place
  and used up that failure.\<close>

definition faults :: "nat \<Rightarrow> world \<Rightarrow> bool" where
  "faults n w \<longleftrightarrow> IoCrash \<notin> set (sched w) \<and> length (filter (\<lambda>s. s \<noteq> IoOk) (sched w)) \<le> n"

definition fresh :: "path \<Rightarrow> bytes \<Rightarrow> world \<Rightarrow> bool" where
  "fresh p b w \<longleftrightarrow> (\<exists>a. lookup w p = Some (RegularFile a b) \<and> at_nlink a = 1 \<and> \<not> at_reparse a)"

definition survives :: "path \<Rightarrow> (world \<Rightarrow> bool) \<Rightarrow> 'a io \<Rightarrow> ('a \<Rightarrow> world \<Rightarrow> bool) \<Rightarrow> bool" where
  "survives p P m Q \<longleftrightarrow> valid (\<lambda>w. faults 1 w \<and> P w) m (\<lambda>x w. faults 1 w \<and> Q x w) (\<lambda>w. faults 0 w \<and> (\<exists>c. fresh p c w))"

lemma faults_put [simp]: "faults n (put p x w) = faults n w" "faults n (del p w) = faults n w"
  by (simp_all add: faults_def)

lemma survives_bind: "survives p P m R \<Longrightarrow> (\<And>x. survives p (R x) (f x) Q) \<Longrightarrow> survives p P (bindM m f) Q"
  unfolding survives_def by (rule valid_bind)

lemma survives_weaken: "survives p P m Q \<Longrightarrow> (\<And>x w. Q x w \<Longrightarrow> Q' x w) \<Longrightarrow> survives p P m Q'"
  unfolding survives_def by (erule valid_post) auto

lemma survives_return: "(\<And>w. P w \<Longrightarrow> Q x w) \<Longrightarrow> survives p P (returnM x) Q"
  by (simp add: survives_def valid_def returnM_apply)

lemma survives_ensure: "(\<And>w. P w \<Longrightarrow> c) \<Longrightarrow> survives p P (ensureM c e) (\<lambda>_. P)"
  by (auto simp: survives_def valid_def ensureM_apply)

lemma io_partial_run:
  assumes "faults 1 w" and "io_partial part g w = (r, w')"
  obtains (runs) v where "faults 1 v" "lookup v = lookup w" "g v = (r, w')"
  | (fails) n v where "faults 0 v" "lookup v = lookup w" "r = Inl OtherIo" "w' = part n v"
proof (cases "sched w")
  case Nil
  with assms show ?thesis using runs [of w] by (simp add: io_partial_def)
next
  case (Cons s ss)
  have look: "lookup (w\<lparr>sched := ss\<rparr>) = lookup w" by (simp add: fun_eq_iff)
  show ?thesis
  proof (cases s)
    case IoOk
    with assms Cons look show ?thesis using runs [of "w\<lparr>sched := ss\<rparr>"] by (simp add: io_partial_def faults_def)
  next
    case (IoFail n)
    with assms Cons look show ?thesis using fails [of "w\<lparr>sched := ss\<rparr>" n] by (simp add: io_partial_def faults_def)
  qed (use assms Cons in \<open>simp add: faults_def\<close>)
qed

lemma survives_io_partial:
  assumes run: "\<And>w. P w \<Longrightarrow> \<exists>x w1. g w = (Inr x, w1) \<and> sched w1 = sched w \<and> Q x w1"
    and part: "\<And>n w. P w \<Longrightarrow> sched (part n w) = sched w \<and> (\<exists>c. fresh p c (part n w))"
    and look: "\<And>v w. lookup v = lookup w \<Longrightarrow> P w \<Longrightarrow> P v"
  shows "survives p P (io_partial part g) Q"
  unfolding survives_def
proof (rule validI; elim conjE)
  fix w x w' assume w: "faults 1 w" "P w" and r: "io_partial part g w = (Inr x, w')"
  from w(1) r show "faults 1 w' \<and> Q x w'"
  proof (cases rule: io_partial_run)
    case (runs v)
    from run [OF look [OF runs(2) w(2)]] runs show ?thesis by (auto simp: faults_def)
  qed simp
next
  fix w k w' assume w: "faults 1 w" "P w" and r: "io_partial part g w = (Inl k, w')"
  from w(1) r show "faults 0 w' \<and> (\<exists>c. fresh p c w')"
  proof (cases rule: io_partial_run)
    case (runs v)
    from run [OF look [OF runs(2) w(2)]] runs show ?thesis by auto
  next
    case (fails n v)
    from part [OF look [OF fails(2) w(2)], of n] fails show ?thesis by (simp add: faults_def)
  qed
qed

lemma survives_io:
  assumes "\<And>w. P w \<Longrightarrow> \<exists>x w1. g w = (Inr x, w1) \<and> sched w1 = sched w \<and> Q x w1"
    and "\<And>w. P w \<Longrightarrow> \<exists>c. fresh p c w" and "\<And>v w. lookup v = lookup w \<Longrightarrow> P w \<Longrightarrow> P v"
  shows "survives p P (io g) Q"
  unfolding io_def by (rule survives_io_partial) (use assms in auto)

lemma fresh_lookup: "lookup v = lookup w \<Longrightarrow> fresh p b v = fresh p b w"
  by (simp add: fresh_def)

lemma survives_calls:
  "survives p (\<lambda>w. \<exists>c. fresh p c w) (write_all p b) (\<lambda>_. fresh p b)"
  "survives p (fresh p b) (set_permissions p m) (\<lambda>_. fresh p b)"
  "survives p (fresh p b) sync_all (\<lambda>_. fresh p b)"
  "survives p (fresh p b) (symlink_metadata p)
     (\<lambda>n w. fresh p b w \<and> (\<exists>a. n = RegularFile a b \<and> at_nlink a = 1 \<and> \<not> at_reparse a))"
  "survives p (fresh p b) (read_handle p) (\<lambda>c w. fresh p b w \<and> c = b)"
proof -
  show "survives p (\<lambda>w. \<exists>c. fresh p c w) (write_all p b) (\<lambda>_. fresh p b)"
    unfolding write_all_def by (rule survives_io_partial) (auto simp: fresh_def set_content_def)
qed (unfold set_permissions_def sync_all_def symlink_metadata_def read_handle_def; rule survives_io; auto simp: fresh_def)+

lemma survives_verify: "survives p (\<lambda>w. \<exists>c. fresh p c w) (verify_new_file_contents h p b None) (\<lambda>_. fresh p b)"
proof -
  have compare: "survives p (\<lambda>w. fresh p b w \<and> c = b) (liftE (fst (verify_loop b 0 (reader_of c)))) (\<lambda>_. fresh p b)" for c
    using readback_exact [of b "reader_of b"] by (cases "c = b") (simp_all add: reader_of_def survives_def valid_def liftE_apply)
  have size: "survives p (\<lambda>w. fresh p b w \<and> (\<exists>a. n = RegularFile a b \<and> at_nlink a = 1 \<and> \<not> at_reparse a))
      (ensureM (node_len n = length b) OtherIo) (\<lambda>_. fresh p b)" for n
    by (auto simp: survives_def valid_def ensureM_apply)
  show ?thesis
    unfolding verify_new_file_contents_def option.case
    by (rule survives_bind [OF survives_calls(1)], rule survives_bind [OF survives_return], assumption,
        rule survives_bind [OF survives_calls(3)], rule survives_bind [OF survives_calls(4)], rule survives_bind [OF size],
        rule survives_bind [OF survives_calls(5) compare])
qed

lemma survives_new_file_body:
  "survives p (fresh p []) (bindM (symlink_metadata p) (\<lambda>n. case n of
        RegularFile a _ \<Rightarrow>
          bindM (ensureM (at_nlink a = 1) PermissionDenied) (\<lambda>_.
          bindM (case mode of Some m \<Rightarrow> set_permissions p m | None \<Rightarrow> returnM ()) (\<lambda>_.
          bindM (verify_new_file_contents h p b None) (\<lambda>_. sync_all)))
      | _ \<Rightarrow> throwM PermissionDenied)) (\<lambda>_. fresh p b)"
proof (rule survives_bind [OF survives_calls(4)])
  fix n
  let ?N = "\<lambda>w. fresh p [] w \<and> (\<exists>a. n = RegularFile a [] \<and> at_nlink a = 1 \<and> \<not> at_reparse a)"
  have link: "survives p ?N (ensureM (at_nlink a = 1) PermissionDenied) (\<lambda>_. fresh p [])" if "n = RegularFile a c" for a c
    using that by (auto simp: survives_def valid_def ensureM_apply)
  have mode: "survives p (fresh p []) (case mode of Some m \<Rightarrow> set_permissions p m | None \<Rightarrow> returnM ()) (\<lambda>_ w. \<exists>c. fresh p c w)"
  proof (cases mode)
    case (Some m)
    show ?thesis unfolding Some option.case by (rule survives_weaken [OF survives_calls(2)]) blast
  qed (auto intro!: survives_return)
  show "survives p ?N (case n of
        RegularFile a _ \<Rightarrow>
          bindM (ensureM (at_nlink a = 1) PermissionDenied) (\<lambda>_.
          bindM (case mode of Some m \<Rightarrow> set_permissions p m | None \<Rightarrow> returnM ()) (\<lambda>_.
          bindM (verify_new_file_contents h p b None) (\<lambda>_. sync_all)))
      | _ \<Rightarrow> throwM PermissionDenied) (\<lambda>_. fresh p b)"
  proof (cases n)
    case (RegularFile a c)
    show ?thesis
      unfolding RegularFile node.case
      by (rule survives_bind [OF link [OF RegularFile, unfolded RegularFile]], rule survives_bind [OF mode],
          rule survives_bind [OF survives_verify survives_calls(3)])
  qed (simp_all add: survives_def valid_def)
qed

text \<open>With no failure left the removal succeeds.\<close>

lemma remove_without_faults: "faults 0 w \<Longrightarrow> fresh p c w \<Longrightarrow> lookup (snd (Fs.remove_file p w)) p = None"
proof -
  assume w: "faults 0 w" "fresh p c w"
  have "sched w = [] \<or> (\<exists>ss. sched w = IoOk # ss)" using w(1) by (cases "sched w") (auto simp: faults_def split: if_splits)
  then show ?thesis using w(2) by (auto simp: Fs.remove_file_def io_def io_partial_def fresh_def)
qed

lemma survives_or_remove:
  assumes "survives p P m Q"
  shows "valid (\<lambda>w. faults 1 w \<and> P w) (or_remove p m) (\<lambda>_ _. True) (\<lambda>w. lookup w p = None)"
proof (rule validI)
  fix w k w' assume w: "faults 1 w \<and> P w" and r: "or_remove p m w = (Inl k, w')"
  obtain x v where m: "m w = (x, v)" by fastforce
  with r obtain e where x: "x = Inl e" and w': "w' = snd (Fs.remove_file p v)"
    by (cases x; cases "Fs.remove_file p v") (auto simp: or_remove_def bindM_def tryM_def returnM_apply throwM_apply split: sum.splits)
  from valid_InlD [OF assms [unfolded survives_def] w m [unfolded x]] show "lookup w' p = None"
    unfolding w' using remove_without_faults by blast
qed simp

lemma created_fresh: "fresh p [] (put p (RegularFile (new_attr h m) []) w)"
  by (simp add: fresh_def new_attr_def)

text \<open>The call that creates the file: with one failure to come it creates nothing or leaves a fresh file.\<close>

lemma io_creates:
  assumes "\<And>v. lookup v p = None \<Longrightarrow> g v = (Inl k, v) \<or> (\<exists>a. g v = (Inr (), put p (RegularFile a []) v) \<and> at_nlink a = 1 \<and> \<not> at_reparse a)
      \<or> g v = (Inl k', v)"
  shows "valid (\<lambda>w. faults 1 w \<and> lookup w p = None) (io g) (\<lambda>_ w. faults 1 w \<and> fresh p [] w) (\<lambda>w. lookup w p = None)"
  unfolding io_def
proof (rule validI; elim conjE)
  fix w u w' assume w: "faults 1 w" "lookup w p = None" and r: "io_partial (\<lambda>_ w. w) g w = (Inr u, w')"
  from w(1) r show "faults 1 w' \<and> fresh p [] w'"
  proof (cases rule: io_partial_run)
    case (runs v)
    from assms [of v] runs w(2) show ?thesis by (auto simp: fresh_def)
  qed simp
next
  fix w e w' assume w: "faults 1 w" "lookup w p = None" and r: "io_partial (\<lambda>_ w. w) g w = (Inl e, w')"
  from w(1) r show "lookup w' p = None"
  proof (cases rule: io_partial_run)
    case (runs v)
    from assms [of v] runs w(2) show ?thesis by auto
  qed (use w in simp)
qed

lemma create_new_fresh:
  "valid (\<lambda>w. faults 1 w \<and> lookup w p = None) (create_new h p m) (\<lambda>_ w. faults 1 w \<and> fresh p [] w) (\<lambda>w. lookup w p = None)"
  unfolding create_new_def
  by (rule io_creates [where k = NotFound and k' = NotFound]) (auto simp: new_attr_def intro!: exI [of _ "new_attr h m"])

lemma create_file_fresh:
  "valid (\<lambda>w. faults 1 w \<and> lookup w (join d n) = None) (create_file h d n)
     (\<lambda>f w. faults 1 w \<and> f = join d n \<and> fresh (join d n) [] w)
     (\<lambda>w. lookup w (join d n) = None \<or> fresh (join d n) [] w)"
proof -
  let ?p = "join d n"
  let ?E = "\<lambda>w. lookup w ?p = None \<or> fresh ?p [] w"
  have ask: "valid (\<lambda>w. faults 1 w \<and> lookup w ?p = None) (directory_is_case_sensitive h d) (\<lambda>_ w. faults 1 w \<and> lookup w ?p = None) ?E"
    unfolding directory_is_case_sensitive_def query_def io_def by (rule validI; elim conjE; erule (1) io_partial_run) auto
  have nt: "valid (\<lambda>w. faults 1 w \<and> lookup w ?p = None) (nt_create_file h FileCreate NonDirectoryFile None ?p)
      (\<lambda>_ w. faults 1 w \<and> fresh ?p [] w) ?E"
    unfolding nt_create_file_def
    by (rule valid_post [OF io_creates [where k = NotFound and k' = NotFound]]) (auto simp: new_object_def new_attr_def)
  have ok: "survives ?p (\<lambda>w. fresh ?p [] w \<and> (\<exists>a. x = RegularFile a [] \<and> at_nlink a = 1 \<and> \<not> at_reparse a))
      (ensureM (is_file x \<and> \<not> node_reparse x) PermissionDenied) (\<lambda>_. fresh ?p [])" for x
    by (auto simp: survives_def valid_def ensureM_apply)
  have "survives ?p (fresh ?p []) (validate_regular ?p) (\<lambda>_. fresh ?p [])"
    unfolding validate_regular_def by (rule survives_bind [OF survives_calls(4) ok])
  moreover have "fresh ?p [] w'" if "validate_regular ?p w = (r, w')" "fresh ?p [] w" for w r w'
    using touchesD [OF touches_validate(3) [of "{}"] that(1)] that(2) by (simp add: fresh_def)
  ultimately have check: "valid (\<lambda>w. faults 1 w \<and> fresh ?p [] w) (validate_regular ?p) (\<lambda>_ w. faults 1 w \<and> fresh ?p [] w) ?E"
    by (auto simp: survives_def intro!: validI dest: valid_InrD)
  have "valid (\<lambda>w. faults 1 w \<and> lookup w ?p = None) (open_relative h d n FileCreate NonDirectoryFile None)
      (\<lambda>f w. (faults 1 w \<and> fresh ?p [] w) \<and> f = ?p) ?E"
    unfolding open_relative_def
    by (rule valid_bind [OF valid_ensure], simp, rule valid_bind [OF valid_pre [OF ask]], simp, rule valid_bind [OF nt])
      (simp add: valid_def returnM_apply)
  then show ?thesis
    unfolding create_file_def
  proof (rule valid_bind, intro valid_fact)
    fix f assume "f = ?p"
    then show "valid (\<lambda>w. faults 1 w \<and> fresh ?p [] w) (bindM (validate_regular f) (\<lambda>_. returnM f))
        (\<lambda>f w. faults 1 w \<and> f = ?p \<and> fresh ?p [] w) ?E"
      using valid_bind [OF check, of "\<lambda>_. returnM f"] by (simp add: valid_def returnM_apply)
  qed
qed

lemma create_new_file_at_cleans:
  "valid (\<lambda>w. faults 1 w \<and> lookup w (join d n) = None) (create_new_file_at h d n b mode) (\<lambda>_ _. True)
     (\<lambda>w. lookup w (join d n) = None \<or> h_windows h \<and> fresh (join d n) [] w)"
proof (cases "is_safe_basename n (h_windows h)")
  case True
  let ?p = "join d n"
  have unix: "valid (\<lambda>w. faults 1 w \<and> lookup w ?p = None) (create_new_file_at_unix h d n b mode) (\<lambda>_ _. True) (\<lambda>w. lookup w ?p = None)"
    unfolding create_new_file_at_unix_def Let_def
    by (rule valid_bind [OF create_new_fresh], rule valid_bind [OF survives_or_remove [OF survives_new_file_body]])
      (simp add: valid_def returnM_apply)
  have verify: "survives ?p (fresh ?p []) (verify_new_file_contents h ?p b None) (\<lambda>_. fresh ?p b)"
    using survives_verify [of ?p h b] unfolding survives_def by (rule valid_pre) blast
  have windows: "valid (\<lambda>w. faults 1 w \<and> lookup w ?p = None)
      (bindM (create_file h d n) (\<lambda>f. bindM (or_remove f (verify_new_file_contents h f b None)) (\<lambda>_. returnM ?p)))
      (\<lambda>_ _. True) (\<lambda>w. lookup w ?p = None \<or> fresh ?p [] w)"
  proof (rule valid_bind [OF create_file_fresh])
    fix f
    show "valid (\<lambda>w. faults 1 w \<and> f = ?p \<and> fresh ?p [] w) (bindM (or_remove f (verify_new_file_contents h f b None)) (\<lambda>_. returnM ?p))
        (\<lambda>_ _. True) (\<lambda>w. lookup w ?p = None \<or> fresh ?p [] w)"
    proof (cases "f = ?p")
      case True
      have "valid (\<lambda>w. faults 1 w \<and> fresh ?p [] w) (or_remove ?p (verify_new_file_contents h ?p b None)) (\<lambda>_ _. True)
          (\<lambda>w. lookup w ?p = None \<or> fresh ?p [] w)"
        by (rule valid_post [OF survives_or_remove [OF verify]]) simp_all
      from valid_bind [OF this, of "\<lambda>_. returnM ?p"] True show ?thesis by (simp add: valid_def returnM_apply)
    qed (simp add: valid_def)
  qed
  show ?thesis
    using unix windows True by (cases "h_windows h") (simp_all add: create_new_file_at_def ensureM_def)
qed (simp add: create_new_file_at_def ensureM_def valid_def throwM_apply)

text \<open>C21: a member written into an opened directory never touches an existing entry: it is created at
  exactly its own name, which must be a plain one, and a normal return means it holds exactly the
  given bytes. When it fails where nothing was, it is gone again, unless the removal fails too or the process
  is killed: if at most one call fails, nothing is left, but for an empty file on Windows, where the validation
  of the new handle comes before the clean-up is in place.\<close>

theorem member_file_exact:
  assumes "create_new_file_at h dir name b mode w = (r, w')"
  shows "(\<forall>q. q \<noteq> join dir name \<longrightarrow> lookup w' q = lookup w q)
    \<and> (lookup w (join dir name) \<noteq> None \<longrightarrow> lookup w' (join dir name) = lookup w (join dir name))
    \<and> (\<forall>d. r = Inr d \<longrightarrow> d = join dir name \<and> is_safe_basename name (h_windows h) \<and> lookup w d = None
        \<and> (\<exists>a. lookup w' d = Some (RegularFile a b)))
    \<and> (\<forall>k. r = Inl k \<and> lookup w (join dir name) = None
        \<and> IoCrash \<notin> set (sched w) \<and> length (filter (\<lambda>s. s \<noteq> IoOk) (sched w)) \<le> 1
        \<longrightarrow> lookup w' (join dir name) = None
          \<or> h_windows h \<and> (\<exists>a. lookup w' (join dir name) = Some (RegularFile a [])))"
proof -
  have t: "touches {join dir name} (create_new_file_at h dir name b mode)"
    by (rule touches_create_new_file_at) simp
  have "\<forall>q. q \<noteq> join dir name \<longrightarrow> lookup w' q = lookup w q" using touchesD [OF t assms] by blast
  moreover have "(lookup w (join dir name) \<noteq> None \<longrightarrow> lookup w' (join dir name) = lookup w (join dir name))
      \<and> (\<forall>d. r = Inr d \<longrightarrow> d = join dir name \<and> is_safe_basename name (h_windows h) \<and> lookup w d = None
        \<and> (\<exists>a. lookup w' d = Some (RegularFile a b)))"
    using create_new_file_at_outcome refl assms by (rule valid_outcome) auto
  moreover have "lookup w' (join dir name) = None \<or> h_windows h \<and> (\<exists>a. lookup w' (join dir name) = Some (RegularFile a []))"
    if "r = Inl k" "lookup w (join dir name) = None" "faults 1 w" for k
    using valid_InlD [OF create_new_file_at_cleans _ assms [unfolded that(1)]] that by (auto simp: fresh_def)
  ultimately show ?thesis unfolding faults_def by blast
qed

text \<open>A write of four bytes that stops after one leaves no file behind; an existing one is not touched.\<close>

theorem member_file_exact_witness:
  "lookup (snd (create_new_file_at sample_host [RootDir] ''bin'' ''data'' None (sample_world [IoOk, IoOk, IoFail 1])))
     [RootDir, Normal ''bin''] = lookup (sample_world []) [RootDir, Normal ''bin'']
   \<and> lookup (snd (create_new_file_at sample_host [RootDir] ''new'' ''data'' None (sample_world [IoOk, IoOk, IoFail 1])))
     [RootDir, Normal ''new''] = None"
proof
  have "join [RootDir] ''bin'' = [RootDir, Normal ''bin'']" by (simp add: join_def)
  moreover have "lookup (sample_world ss) [RootDir, Normal ''bin''] = lookup (sample_world []) [RootDir, Normal ''bin'']
      \<and> lookup (sample_world ss) [RootDir, Normal ''bin''] \<noteq> None" for ss
    by (simp add: lookup_def sample_world_def Let_def)
  ultimately show "lookup (snd (create_new_file_at sample_host [RootDir] ''bin'' ''data'' None (sample_world [IoOk, IoOk, IoFail 1])))
     [RootDir, Normal ''bin''] = lookup (sample_world []) [RootDir, Normal ''bin'']"
    using member_file_exact [OF prod.collapse [symmetric], where h = sample_host and dir = "[RootDir]" and name = "''bin''"
      and b = "''data''" and mode = None and w = "sample_world [IoOk, IoOk, IoFail 1]"] by metis
next
  let ?w = "sample_world [IoOk, IoOk, IoFail 1]"
  have new: "join [RootDir] ''new'' = [RootDir, Normal ''new'']" by (simp add: join_def)
  have "lookup ?w [RootDir, Normal ''new''] = None" "sched ?w = [IoOk, IoOk, IoFail 1]"
    by (simp_all add: lookup_def sample_world_def Let_def)
  moreover have "\<exists>k. fst (create_new_file_at sample_host [RootDir] ''new'' ''data'' None ?w) = Inl k"
    by (simp add: create_new_file_at_def create_new_file_at_unix_def is_safe_basename_def sample_host_def sample_world_def Let_def
        create_new_def io_def io_partial_def lookup_def parent_is_dir_def parent_def put_def or_remove_def bindM_def tryM_def
        symlink_metadata_def verify_new_file_contents_def write_all_def ensureM_apply returnM_apply throwM_apply join_def new_attr_def
        set_content_def Fs.remove_file_def)
  ultimately show "lookup (snd (create_new_file_at sample_host [RootDir] ''new'' ''data'' None ?w)) [RootDir, Normal ''new''] = None"
    using member_file_exact [OF prod.collapse [symmetric], where h = sample_host and dir = "[RootDir]" and name = "''new''"
      and b = "''data''" and mode = None and w = ?w] by (auto simp: new sample_host_def)
qed

subsection \<open>Directories\<close>

lemma validate_directory_Inr:
  "validate_directory p w = (Inr u, w') \<Longrightarrow> lookup w' = lookup w \<and> (\<exists>a. lookup w p = Some (Directory a) \<and> \<not> at_reparse a)"
  by (auto simp: validate_directory_def bindM_return_iff ensureM_apply dest!: symlink_metadata_Inr elim!: is_dir_cases
      split: if_splits)

lemma lookup_open_existing: "open_relative h d n FileOpen kind sd w = (Inr f, w') \<Longrightarrow> f = join d n \<and> lookup w' = lookup w"
  using touchesD [OF touches_open_relative [of FileOpen d n "{}"]] open_relative_path by (simp add: fun_eq_iff)

lemma walk_windows_real:
  assumes "walk_windows h FileOpen sd cur ns w = (Inr d, w')"
  shows "prefix cur d \<and> lookup w' = lookup w
     \<and> (\<forall>q. prefix q d \<and> strict_prefix cur q \<longrightarrow> (\<exists>a. lookup w q = Some (Directory a) \<and> \<not> at_reparse a))"
  using assms
proof (induction ns arbitrary: cur w)
  case Nil
  then show ?case by (auto simp: returnM_apply strict_prefix_def)
next
  case (Cons n ns)
  let ?c = "join cur n"
  from Cons.prems obtain w1 u2 w2 where
    opened: "open_relative h cur n FileOpen DirectoryFile sd w = (Inr ?c, w1)" and
    dir: "validate_directory ?c w1 = (Inr u2, w2)" and
    rest: "walk_windows h FileOpen sd ?c ns w2 = (Inr d, w')"
    by (auto simp: bindM_return_iff dest: open_relative_path)
  have w1: "lookup w1 = lookup w" using lookup_open_existing [OF opened] ..
  from validate_directory_Inr [OF dir] w1 obtain a where here: "lookup w ?c = Some (Directory a)" "\<not> at_reparse a" "lookup w2 = lookup w"
    by auto
  from Cons.IH [OF rest] here(3) have IH: "prefix ?c d" "lookup w' = lookup w"
    "\<And>q. prefix q d \<Longrightarrow> strict_prefix ?c q \<Longrightarrow> \<exists>a. lookup w q = Some (Directory a) \<and> \<not> at_reparse a" by auto
  have "\<exists>a. lookup w q = Some (Directory a) \<and> \<not> at_reparse a" if "prefix q d" "strict_prefix cur q" for q
  proof (cases "strict_prefix ?c q")
    case False
    from that(1) IH(1) have "prefix q ?c \<or> prefix ?c q" using prefix_same_cases by blast
    with False have "prefix q ?c" by (auto simp: strict_prefix_def)
    with that(2) have "q = ?c" by (auto simp: strict_prefix_def join_def prefix_snoc)
    with here show ?thesis by blast
  qed (rule IH(3) [OF that(1)])
  moreover have "prefix cur d" using IH(1) by (rule prefix_order.trans [rotated]) simp
  ultimately show ?case using IH(2) by blast
qed

lemma open_root_Inr: "open_root p w = (Inr d, w') \<Longrightarrow> d = p \<and> lookup w' = lookup w"
  using touchesD [OF touches_open_root [of "{}"]] open_root_path by (simp add: fun_eq_iff)

lemma split_root_not_normal:
  "split_root root comps cs = Inr (root', comps') \<Longrightarrow> \<forall>n. Normal n \<notin> set root \<Longrightarrow> \<forall>n. Normal n \<notin> set root'"
  by (induction root comps cs rule: split_root.induct) (auto split: if_splits)

lemma walk_unix_normals:
  "walk_unix h create cur cs w = (Inr d, w') \<Longrightarrow> d = cur @ filter is_normal cs \<and> ParentDir \<notin> set cs"
proof (induction h create cur cs arbitrary: w rule: walk_unix.induct)
  case (2 h create cur n cs)
  then show ?case
    by (auto simp: bindM_return_iff ensureM_apply monad_simps join_def split: if_splits)
qed (auto simp: returnM_apply throwM_apply)

text \<open>C20: an existing directory that was opened is the one that was named, reached without following any link. On
  Windows it is the absolute normalised path, and every named component of it is a directory that is no reparse
  point; on Unix it is the root or the working directory followed by the names in the path, which has no \<open>..\<close>, and
  every one of them is a directory itself. Opening it changed nothing.\<close>

theorem opened_directory_is_real:
  assumes "open_directory h p False w = (Inr d, w')"
  shows "lookup w' = lookup w
     \<and> (if h_windows h
        then d = absolute_normalized h p
          \<and> (\<forall>q n. prefix (join q n) d \<longrightarrow> (\<exists>a. lookup w (join q n) = Some (Directory a) \<and> \<not> at_reparse a))
        else let start = if is_absolute False p then [RootDir] else h_cwd h in
          d = start @ filter is_normal p \<and> ParentDir \<notin> set p
          \<and> (\<forall>q. prefix q d \<and> strict_prefix start q \<longrightarrow> (\<exists>a. lookup w q = Some (Directory a))))"
proof (cases "h_windows h")
  case True
  with assms have desc: "open_directory_with_descriptor h p False None w = (Inr d, w')" by (simp add: open_directory_def)
  then obtain root comps u w1 where
    root: "split_root [] [] (absolute_normalized h p) = Inr (root, comps)" "open_root root w = (Inr u, w1)" and
    walk: "walk_windows h FileOpen None u comps w1 = (Inr d, w')"
    by (auto simp: open_directory_with_descriptor_def bindM_return_iff liftE_apply)
  from open_root_Inr [OF root(2)] walk_windows_real [OF walk] have
    real: "prefix root d" "lookup w' = lookup w" "lookup w1 = lookup w"
      "\<And>q. prefix q d \<Longrightarrow> strict_prefix root q \<Longrightarrow> \<exists>a. lookup w q = Some (Directory a) \<and> \<not> at_reparse a" by auto
  have "strict_prefix root (join q n)" if "prefix (join q n) d" for q n
  proof -
    have "\<not> prefix (join q n) root"
      using split_root_not_normal [OF root(1)] by (auto simp: join_def prefix_def)
    with that real(1) prefix_same_cases show ?thesis by (metis strict_prefix_def prefix_order.refl)
  qed
  with real True open_directory_desc_path [OF desc] show ?thesis by simp
next
  case False
  let ?start = "if is_absolute False p then [RootDir] else h_cwd h"
  from assms False obtain u w1 where
    start: "open_dir_at ?start w = (Inr u, w1)" and walk: "walk_unix h False ?start p w1 = (Inr d, w')"
    by (auto simp: open_directory_def open_directory_tree_def bindM_return_iff Let_def)
  have w1: "lookup w1 = lookup w"
    using touchesD [OF touches_system(1) [of "{}"] start] by (simp add: fun_eq_iff)
  from walk_unix_real [OF walk] walk_unix_normals [OF walk] w1 False show ?thesis unfolding Let_def by auto
qed

theorem opened_directory_is_real_witness:
  "\<exists>d w'. open_directory sample_host [RootDir, Normal ''bin''] False (sample_world []) = (Inr d, w')
     \<and> d = [RootDir, Normal ''bin''] \<and> (\<exists>a. lookup (sample_world []) d = Some (Directory a))"
proof -
  obtain w' where w': "open_directory sample_host [RootDir, Normal ''bin''] False (sample_world []) = (Inr [RootDir, Normal ''bin''], w')"
    by (simp add: open_directory_def open_directory_tree_def sample_host_def sample_world_def Let_def open_dir_at_def io_def
        io_partial_def lookup_def bindM_def tryM_def returnM_apply ensureM_apply symlink_metadata_def join_def)
  have "strict_prefix [RootDir] [RootDir, Normal ''bin'']" by (simp add: strict_prefix_def)
  with opened_directory_is_real [OF w'] have "\<exists>a. lookup (sample_world []) [RootDir, Normal ''bin''] = Some (Directory a)"
    by (simp add: sample_host_def)
  then show ?thesis using w' by blast
qed

end
