(* ===== verification/Self_Test_Readers.thy ===== *)
theory Self_Test_Readers
  imports Self_Test
begin

text \<open>
  The two threads that read a self-test's output (\<open>spawn_self_test_reader\<close> and \<open>reserve_output\<close> of
  \<^verbatim>\<open>src/src/install/activation.rs\<close>), as a step relation: a thread reads a chunk from its pipe, reserves its
  length in the shared counter by compare and exchange, and sends it to the collecting loop over a
  channel of 16 messages. Every atomic action of either thread and of the receiver is one step, so a run
  of \<open>reader_step\<close> is an interleaving of them. The streams are \<open>True\<close> (standard output, number 0) and \<open>False\<close>.
\<close>

definition stream_number :: "bool \<Rightarrow> nat" where
  "stream_number i = (if i then 0 else 1)"

definition CHANNEL_BOUND :: nat where "CHANNEL_BOUND = 16"

text \<open>What is written to a pipe, or fails when it is read, in order; a read takes at most the size of the buffer
  and leaves the rest, and a read of no bytes is the end of the stream.\<close>

datatype pipe_read = PipeData bytes | PipeError io_kind

datatype reader_pc = Reading | Loading bytes | Reserving bytes nat | Sending self_test_output | Ended

text \<open>\<open>rd_sent\<close> are all messages that entered the channel, each with the thread that sent it, and \<open>rd_taken\<close>
  how many of them the receiver has taken; \<open>rd_open\<close> is whether it is still there.\<close>

record readers =
  rd_counter :: nat
  rd_pc :: "bool \<Rightarrow> reader_pc"
  rd_pipe :: "bool \<Rightarrow> pipe_read list"
  rd_sent :: "(bool \<times> self_test_output) list"
  rd_taken :: nat
  rd_open :: bool

definition readers_start :: "(bool \<Rightarrow> pipe_read list) \<Rightarrow> readers" where
  "readers_start pipes = \<lparr>rd_counter = 0, rd_pc = (\<lambda>_. Reading), rd_pipe = pipes, rd_sent = [], rd_taken = 0, rd_open = True\<rparr>"

definition within_limit :: "nat \<Rightarrow> nat \<Rightarrow> nat option" where
  "within_limit current n = (case usize_checked_add current n of None \<Rightarrow> None
     | Some t \<Rightarrow> if t \<le> SELF_TEST_OUTPUT_LIMIT then Some t else None)"

text \<open>After data the thread reads on, after the notice of the limit it is done, after that it ends.\<close>

fun after_send :: "self_test_output \<Rightarrow> reader_pc" where
  "after_send (StData n b) = Reading"
| "after_send StLimitExceeded = Sending (StDone None)"
| "after_send (StDone r) = Ended"

text \<open>If the receiver is gone, the thread gives up: it only tries to say that it is done.\<close>

fun after_failed_send :: "self_test_output \<Rightarrow> reader_pc" where
  "after_failed_send (StDone r) = Ended"
| "after_failed_send _ = Sending (StDone None)"

definition unread :: "bytes \<Rightarrow> pipe_read list \<Rightarrow> pipe_read list" where
  "unread b rest = (if length b \<le> SELF_TEST_READ_CHUNK then rest else PipeData (drop SELF_TEST_READ_CHUNK b) # rest)"

inductive reader_step :: "readers \<Rightarrow> readers \<Rightarrow> bool" where
  read_data: "rd_pc s i = Reading \<Longrightarrow> rd_pipe s i = PipeData b # rest \<Longrightarrow> b \<noteq> []
     \<Longrightarrow> reader_step s (s\<lparr>rd_pc := (rd_pc s)(i := Loading (take SELF_TEST_READ_CHUNK b)),
           rd_pipe := (rd_pipe s)(i := unread b rest)\<rparr>)"
| read_error: "rd_pc s i = Reading \<Longrightarrow> rd_pipe s i = PipeError k # rest
     \<Longrightarrow> reader_step s (s\<lparr>rd_pc := (rd_pc s)(i := Sending (StDone (Some k))), rd_pipe := (rd_pipe s)(i := rest)\<rparr>)"
| read_end: "rd_pc s i = Reading \<Longrightarrow> rd_pipe s i = [] \<or> hd (rd_pipe s i) = PipeData []
     \<Longrightarrow> reader_step s (s\<lparr>rd_pc := (rd_pc s)(i := Sending (StDone None))\<rparr>)"
| load: "rd_pc s i = Loading b
     \<Longrightarrow> reader_step s (s\<lparr>rd_pc := (rd_pc s)(i := Reserving b (rd_counter s))\<rparr>)"
| refuse: "rd_pc s i = Reserving b current \<Longrightarrow> within_limit current (length b) = None
     \<Longrightarrow> reader_step s (s\<lparr>rd_pc := (rd_pc s)(i := Sending StLimitExceeded)\<rparr>)"
| exchange: "rd_pc s i = Reserving b current \<Longrightarrow> within_limit current (length b) = Some t \<Longrightarrow> rd_counter s = current
     \<Longrightarrow> reader_step s (s\<lparr>rd_counter := t, rd_pc := (rd_pc s)(i := Sending (StData (stream_number i) b))\<rparr>)"
| retry: "rd_pc s i = Reserving b current \<Longrightarrow> within_limit current (length b) = Some t
     \<Longrightarrow> reader_step s (s\<lparr>rd_pc := (rd_pc s)(i := Reserving b (rd_counter s))\<rparr>)"
| send: "rd_pc s i = Sending m \<Longrightarrow> rd_open s \<Longrightarrow> length (rd_sent s) - rd_taken s < CHANNEL_BOUND
     \<Longrightarrow> reader_step s (s\<lparr>rd_sent := rd_sent s @ [(i, m)], rd_pc := (rd_pc s)(i := after_send m)\<rparr>)"
| send_fails: "rd_pc s i = Sending m \<Longrightarrow> \<not> rd_open s
     \<Longrightarrow> reader_step s (s\<lparr>rd_pc := (rd_pc s)(i := after_failed_send m)\<rparr>)"
| receive: "rd_open s \<Longrightarrow> rd_taken s < length (rd_sent s)
     \<Longrightarrow> reader_step s (s\<lparr>rd_taken := rd_taken s + 1\<rparr>)"
| hang_up: "rd_open s \<Longrightarrow> reader_step s (s\<lparr>rd_open := False\<rparr>)"

inductive_cases reader_stepE: "reader_step s s'"

text \<open>What the collecting loop has received.\<close>

definition delivered :: "readers \<Rightarrow> self_test_output list" where
  "delivered s = map snd (take (rd_taken s) (rd_sent s))"

subsection \<open>What a thread has sent\<close>

fun pipe_bytes :: "pipe_read list \<Rightarrow> bytes" where
  "pipe_bytes [] = []"
| "pipe_bytes (PipeData b # ps) = (if b = [] then [] else b @ pipe_bytes ps)"
| "pipe_bytes (PipeError k # ps) = []"

fun pipe_fails :: "pipe_read list \<Rightarrow> bool" where
  "pipe_fails [] = False"
| "pipe_fails (PipeData b # ps) = (b \<noteq> [] \<and> pipe_fails ps)"
| "pipe_fails (PipeError k # ps) = True"

lemma unread_simps:
  "b \<noteq> [] \<Longrightarrow> take SELF_TEST_READ_CHUNK b @ pipe_bytes (unread b rest) = b @ pipe_bytes rest"
  "pipe_fails (unread b rest) = pipe_fails rest"
  by (auto simp: unread_def simp flip: append_assoc)

lemma pipe_end: "ps = [] \<or> hd ps = PipeData [] \<Longrightarrow> pipe_bytes ps = [] \<and> \<not> pipe_fails ps"
  by (cases ps) auto

definition log_of :: "bool \<Rightarrow> (bool \<times> self_test_output) list \<Rightarrow> self_test_output list" where
  "log_of i ms = map snd (filter (\<lambda>(j, _). j = i) ms)"

lemma log_of_simps [simp]:
  "log_of i [] = []" "log_of i (xs @ ys) = log_of i xs @ log_of i ys" "log_of i [(j, m)] = (if j = i then [m] else [])"
  by (auto simp: log_of_def)

text \<open>A thread sends chunks of its stream in order and then at most an ending; the ending without an
  error and without the notice of the limit comes only after the whole stream.\<close>

definition data_log :: "bool \<Rightarrow> bytes list \<Rightarrow> self_test_output list" where
  "data_log i ds = map (StData (stream_number i)) ds"

definition log_ok :: "bool \<Rightarrow> pipe_read list \<Rightarrow> self_test_output list \<Rightarrow> bool" where
  "log_ok i ps ms \<longleftrightarrow> (\<exists>ds ending. ms = data_log i ds @ ending \<and> prefix (concat ds) (pipe_bytes ps)
     \<and> (ending = [] \<or> ending = [StLimitExceeded] \<or> ending = [StLimitExceeded, StDone None]
        \<or> (\<exists>k. ending = [StDone (Some k)])
        \<or> ending = [StDone None] \<and> concat ds = pipe_bytes ps \<and> \<not> pipe_fails ps))"

text \<open>Where a thread is determines how far its log has come, as long as nobody hung up.\<close>

fun pc_ok :: "bool \<Rightarrow> pipe_read list \<Rightarrow> reader_pc \<Rightarrow> pipe_read list \<Rightarrow> self_test_output list \<Rightarrow> bool" where
  "pc_ok i ps Reading left ms = (\<exists>ds. ms = data_log i ds \<and> pipe_bytes ps = concat ds @ pipe_bytes left \<and> pipe_fails ps = pipe_fails left)"
| "pc_ok i ps (Loading b) left ms =
     (\<exists>ds. ms = data_log i ds \<and> pipe_bytes ps = concat ds @ b @ pipe_bytes left \<and> pipe_fails ps = pipe_fails left)"
| "pc_ok i ps (Reserving b c) left ms =
     (\<exists>ds. ms = data_log i ds \<and> pipe_bytes ps = concat ds @ b @ pipe_bytes left \<and> pipe_fails ps = pipe_fails left)"
| "pc_ok i ps (Sending (StData n b)) left ms =
     (n = stream_number i \<and> (\<exists>ds. ms = data_log i ds \<and> pipe_bytes ps = concat ds @ b @ pipe_bytes left \<and> pipe_fails ps = pipe_fails left))"
| "pc_ok i ps (Sending StLimitExceeded) left ms = (\<exists>ds. ms = data_log i ds \<and> prefix (concat ds) (pipe_bytes ps))"
| "pc_ok i ps (Sending (StDone (Some k))) left ms = (\<exists>ds. ms = data_log i ds \<and> prefix (concat ds) (pipe_bytes ps))"
| "pc_ok i ps (Sending (StDone None)) left ms =
     (\<exists>ds. prefix (concat ds) (pipe_bytes ps) \<and>
        (ms = data_log i ds @ [StLimitExceeded] \<or> ms = data_log i ds \<and> concat ds = pipe_bytes ps \<and> \<not> pipe_fails ps))"
| "pc_ok i ps Ended left ms = True"

definition granted :: "self_test_output list \<Rightarrow> nat" where
  "granted ms = sum_list (map (\<lambda>m. case m of StData _ b \<Rightarrow> length b | _ \<Rightarrow> 0) ms)"

lemma granted_simps [simp]:
  "granted [] = 0" "granted (xs @ ys) = granted xs + granted ys" "granted [StData n b] = length b"
  "granted [StDone r] = 0" "granted [StLimitExceeded] = 0"
  by (simp_all add: granted_def)

fun pending :: "reader_pc \<Rightarrow> nat" where
  "pending (Sending m) = granted [m]"
| "pending _ = 0"

definition readers_inv :: "(bool \<Rightarrow> pipe_read list) \<Rightarrow> readers \<Rightarrow> bool" where
  "readers_inv pipes s \<longleftrightarrow>
     (\<forall>i. log_ok i (pipes i) (log_of i (rd_sent s)))
     \<and> (rd_open s \<longrightarrow> (\<forall>i. pc_ok i (pipes i) (rd_pc s i) (rd_pipe s i) (log_of i (rd_sent s))))
     \<and> granted (map snd (rd_sent s)) + pending (rd_pc s True) + pending (rd_pc s False) \<le> rd_counter s
     \<and> rd_counter s \<le> SELF_TEST_OUTPUT_LIMIT \<and> rd_taken s \<le> length (rd_sent s)"

lemma within_limit_Some: "within_limit c n = Some t \<Longrightarrow> t = c + n \<and> t \<le> SELF_TEST_OUTPUT_LIMIT"
  by (auto simp: within_limit_def split: option.splits if_splits)

lemma log_ok_data: "prefix (concat ds) (pipe_bytes ps) \<Longrightarrow> log_ok i ps (data_log i ds)"
  unfolding log_ok_def by (rule exI [of _ ds], rule exI [of _ "[]"]) simp

lemma data_log_snoc: "data_log i (ds @ [b]) = data_log i ds @ [StData (stream_number i) b]"
  by (simp add: data_log_def)

text \<open>Sending a message keeps the log well formed and moves the thread on.\<close>

lemma log_ok_send:
  assumes "pc_ok i ps (Sending m) left ms"
  shows "log_ok i ps (ms @ [m]) \<and> pc_ok i ps (after_send m) left (ms @ [m])"
proof (cases m)
  case (StData n b)
  with assms obtain ds where ds: "n = stream_number i" "ms = data_log i ds" "pipe_bytes ps = concat ds @ b @ pipe_bytes left"
    "pipe_fails ps = pipe_fails left" by auto
  have "log_ok i ps (data_log i (ds @ [b]))" by (rule log_ok_data) (simp add: ds)
  with ds StData show ?thesis by (auto simp: data_log_snoc intro!: exI [of _ "ds @ [b]"])
next
  case (StDone r)
  show ?thesis
  proof (cases r)
    case None
    with assms StDone obtain ds where ds: "prefix (concat ds) (pipe_bytes ps)"
      "ms = data_log i ds @ [StLimitExceeded] \<or> ms = data_log i ds \<and> concat ds = pipe_bytes ps \<and> \<not> pipe_fails ps" by auto
    then have "log_ok i ps (ms @ [StDone None])" unfolding log_ok_def by (intro exI [of _ ds]) auto
    with StDone None show ?thesis by simp
  next
    case (Some k)
    with assms StDone obtain ds where "ms = data_log i ds" "prefix (concat ds) (pipe_bytes ps)" by auto
    then have "log_ok i ps (ms @ [StDone (Some k)])" unfolding log_ok_def by (intro exI [of _ ds]) auto
    with StDone Some show ?thesis by simp
  qed
next
  case StLimitExceeded
  with assms obtain ds where ds: "ms = data_log i ds" "prefix (concat ds) (pipe_bytes ps)" by auto
  then have "log_ok i ps (ms @ [StLimitExceeded])" unfolding log_ok_def by (intro exI [of _ ds]) auto
  with StLimitExceeded ds show ?thesis by auto
qed

lemma pending_after: "pending (after_send m) = 0" "pending (after_failed_send m) = 0"
  by (cases m; simp)+

lemma readers_inv_start: "readers_inv pipes (readers_start pipes)"
  by (auto simp: readers_inv_def readers_start_def log_ok_def data_log_def intro!: exI [of _ "[]"])

text \<open>A step of one thread that sends nothing.\<close>

lemma readers_inv_local:
  assumes inv: "readers_inv pipes s" and pc: "rd_open s \<Longrightarrow> pc_ok i (pipes i) q left (log_of i (rd_sent s))"
    and counter: "rd_counter s \<le> c" "c \<le> SELF_TEST_OUTPUT_LIMIT" "pending q + rd_counter s \<le> pending (rd_pc s i) + c"
  shows "readers_inv pipes (s\<lparr>rd_counter := c, rd_pc := (rd_pc s)(i := q), rd_pipe := (rd_pipe s)(i := left)\<rparr>)"
  using assms by (cases i) (auto simp: readers_inv_def)

lemma readers_inv_move:
  assumes inv: "readers_inv pipes s" and pc: "rd_open s \<Longrightarrow> pc_ok i (pipes i) q (rd_pipe s i) (log_of i (rd_sent s))"
    and "pending q = 0"
  shows "readers_inv pipes (s\<lparr>rd_pc := (rd_pc s)(i := q)\<rparr>)"
  using assms by (cases i) (auto simp: readers_inv_def)

lemma readers_inv_step:
  assumes "reader_step s s'" and inv: "readers_inv pipes s"
  shows "readers_inv pipes s'"
proof -
  have here: "pc_ok i (pipes i) (rd_pc s i) (rd_pipe s i) (log_of i (rd_sent s))" if "rd_open s" for i
    using inv that by (simp add: readers_inv_def)
  have limit: "rd_counter s \<le> SELF_TEST_OUTPUT_LIMIT" using inv by (simp add: readers_inv_def)
  note local_step = readers_inv_local [OF inv, where c = "rd_counter s", simplified]
  from assms(1) show ?thesis
  proof cases
    case (read_data i b rest)
    then show ?thesis using here [of i] limit by (auto intro!: local_step simp: unread_simps)
  next
    case (read_error i k rest)
    then show ?thesis using here [of i] limit by (auto intro!: local_step) (metis prefix_order.refl)
  next
    case (read_end i)
    show ?thesis unfolding read_end(1)
      by (rule readers_inv_move [OF inv]) (use here [of i] read_end(2) pipe_end [OF read_end(3)] in \<open>auto intro: prefix_order.refl\<close>)
  next
    case (load i b)
    then show ?thesis using here [of i] by (auto intro!: readers_inv_move [OF inv])
  next
    case (refuse i b current)
    then show ?thesis using here [of i] by (auto intro!: readers_inv_move [OF inv]) (metis prefixI)+
  next
    case (exchange i b current t)
    with within_limit_Some [OF exchange(3)] show ?thesis
      using here [of i] readers_inv_local [OF inv, where left = "rd_pipe s i" and i = i and c = t] by auto
  next
    case (retry i b current t)
    then show ?thesis using here [of i] by (auto intro!: readers_inv_move [OF inv])
  next
    case (send i m)
    note sent = log_ok_send [OF here [OF send(3), of i, unfolded send(2)]]
    show ?thesis
      using inv sent send(1,2,3) pending_after [of m] by (cases i) (auto simp: readers_inv_def)
  next
    case (send_fails i m)
    then show ?thesis using inv pending_after [of m] by (cases i) (auto simp: readers_inv_def)
  qed (use inv in \<open>auto simp: readers_inv_def\<close>)
qed

lemma readers_inv_reachable: "reader_step\<^sup>*\<^sup>* (readers_start pipes) s \<Longrightarrow> readers_inv pipes s"
  by (induction rule: rtranclp_induct) (rule readers_inv_start, rule readers_inv_step)

subsection \<open>What the receiver gets\<close>

definition message_bytes :: "bool \<Rightarrow> self_test_output list \<Rightarrow> bytes" where
  "message_bytes i ms = concat (map (\<lambda>m. case m of StData n b \<Rightarrow> if (n = 0) = i then b else [] | _ \<Rightarrow> []) ms)"

lemma message_bytes_simps [simp]:
  "message_bytes i [] = []" "message_bytes i (xs @ ys) = message_bytes i xs @ message_bytes i ys"
  "message_bytes i (StData n b # ms) = (if (n = 0) = i then b else []) @ message_bytes i ms"
  "message_bytes i (StDone r # ms) = message_bytes i ms" "message_bytes i (StLimitExceeded # ms) = message_bytes i ms"
  by (simp_all add: message_bytes_def)

lemma message_bytes_data_log [simp]: "message_bytes i (data_log i ds) = concat ds"
  by (induction ds) (simp_all add: data_log_def stream_number_def)

lemma granted_message_bytes: "granted ms = length (message_bytes True ms) + length (message_bytes False ms)"
  by (induction ms) (auto simp: granted_def message_bytes_def split: self_test_output.splits)

lemma set_log_of: "(i, m) \<in> set xs \<Longrightarrow> m \<in> set (log_of i xs)"
  by (force simp: log_of_def)

lemma log_of_Cons: "log_of i ((j, m) # xs) = (if j = i then m # log_of i xs else log_of i xs)"
  by (simp add: log_of_def)

lemma message_bytes_log_of:
  "(\<And>j n b. (j, StData n b) \<in> set xs \<Longrightarrow> n = stream_number j) \<Longrightarrow> message_bytes i (map snd xs) = message_bytes i (log_of i xs)"
proof (induction xs)
  case (Cons x xs)
  have IH: "message_bytes i (map snd xs) = message_bytes i (log_of i xs)"
    by (rule Cons.IH) (use Cons.prems in auto)
  obtain j m where x: "x = (j, m)" by (cases x)
  have "n = stream_number j" if "m = StData n b" for n b
    using Cons.prems [of j n b] x that by simp
  with IH x show ?case by (cases m) (auto simp: log_of_Cons stream_number_def)
qed (simp add: log_of_def)

lemma count_log_of:
  "count_list (map snd xs) m = count_list (log_of True xs) m + count_list (log_of False xs) m"
  by (induction xs) (auto simp: log_of_Cons log_of_def)

lemma log_of_take: "prefix (log_of i (take n xs)) (log_of i xs)"
proof -
  have "log_of i xs = log_of i (take n xs) @ log_of i (drop n xs)"
    by (metis append_take_drop_id log_of_simps(2))
  then show ?thesis by simp
qed

text \<open>The part of a log that was received: its ending decides what it means.\<close>

lemma data_log_no_end [simp]: "StDone r \<notin> set (data_log i ds)" "StLimitExceeded \<notin> set (data_log i ds)"
  "count_list (data_log i ds) (StDone r) = 0"
  by (auto simp: data_log_def count_list_0_iff)

lemma log_ok_tag: "log_ok i ps ms \<Longrightarrow> StData n b \<in> set ms \<Longrightarrow> n = stream_number i"
  by (auto simp: log_ok_def data_log_def)

lemma log_ok_done_last:
  assumes "log_ok i ps ms" and "prefix ms' ms" and "StDone None \<in> set ms'"
  shows "ms' = ms"
proof -
  from assms(1) obtain ds ending where ms: "ms = data_log i ds @ ending"
    and ending: "ending = [] \<or> ending = [StLimitExceeded] \<or> ending = [StLimitExceeded, StDone None]
      \<or> (\<exists>k. ending = [StDone (Some k)]) \<or> ending = [StDone None]"
    by (auto simp: log_ok_def)
  then have "StDone None \<notin> set (butlast ms)" by (auto simp: butlast_append dest: in_set_butlastD)
  moreover have "ms' = ms \<or> prefix ms' (butlast ms)"
    using assms(2) by (cases ms rule: rev_cases) auto
  ultimately show ?thesis using assms(3) set_mono_prefix by blast
qed

lemma log_ok_count: "log_ok i ps ms \<Longrightarrow> prefix ms' ms \<Longrightarrow> count_list ms' (StDone None) \<le> 1"
proof (cases "StDone None \<in> set ms'")
  case True
  assume "log_ok i ps ms" "prefix ms' ms"
  with log_ok_done_last [OF this True] show ?thesis by (auto simp: log_ok_def)
next
  case False
  then show ?thesis by (simp add: count_list_0_iff)
qed

lemma log_ok_complete:
  assumes "log_ok i ps ms" and "prefix ms' ms" and "StDone None \<in> set ms'" and "StLimitExceeded \<notin> set ms'"
  shows "message_bytes i ms' = pipe_bytes ps \<and> \<not> pipe_fails ps"
  using assms log_ok_done_last [OF assms(1-3)] by (auto simp: log_ok_def)

lemma log_ok_message_bytes:
  assumes "log_ok i ps ms" and "prefix ms' ms"
  shows "prefix (message_bytes i ms') (pipe_bytes ps)"
proof -
  have "prefix (message_bytes i ms) (pipe_bytes ps)"
    using assms(1) by (auto simp: log_ok_def)
  moreover have "prefix (message_bytes i ms') (message_bytes i ms)"
    using assms(2) by (auto simp: prefix_def)
  ultimately show ?thesis using prefix_order.trans by blast
qed

text \<open>What has been received of the streams, and that two regular endings without a notice of the limit mean
  that both streams have been received completely.\<close>

lemma received_log:
  assumes inv: "readers_inv pipes s" and ms: "map snd (take n (rd_sent s)) = ms"
  shows "message_bytes i ms = message_bytes i (log_of i (take n (rd_sent s)))"
proof -
  have "k = stream_number j" if "(j, StData k b) \<in> set (take n (rd_sent s))" for j k b
    using inv that log_ok_tag set_log_of by (metis in_set_takeD readers_inv_def)
  then show ?thesis unfolding ms [symmetric] by (rule message_bytes_log_of)
qed

lemma received_bounded:
  assumes inv: "readers_inv pipes s" and ms: "map snd (take n (rd_sent s)) = ms"
  shows "prefix (message_bytes i ms) (pipe_bytes (pipes i))"
    and "length (message_bytes True ms) + length (message_bytes False ms) \<le> SELF_TEST_OUTPUT_LIMIT"
proof -
  have "log_ok i (pipes i) (log_of i (rd_sent s))" using inv by (simp add: readers_inv_def)
  from log_ok_message_bytes [OF this log_of_take] show "prefix (message_bytes i ms) (pipe_bytes (pipes i))"
    by (simp add: received_log [OF assms])
  have "granted (map snd (rd_sent s)) = granted ms + granted (map snd (drop n (rd_sent s)))"
    by (metis append_take_drop_id granted_simps(2) map_append ms)
  then show "length (message_bytes True ms) + length (message_bytes False ms) \<le> SELF_TEST_OUTPUT_LIMIT"
    using inv by (simp add: readers_inv_def flip: granted_message_bytes)
qed

lemma received_complete:
  assumes inv: "readers_inv pipes s" and ms: "map snd (take n (rd_sent s)) = ms"
    and endings: "2 \<le> count_list ms (StDone None)" and "StLimitExceeded \<notin> set ms"
  shows "message_bytes i ms = pipe_bytes (pipes i) \<and> \<not> pipe_fails (pipes i)"
proof -
  let ?log = "\<lambda>j. log_of j (take n (rd_sent s))"
  have ok: "log_ok j (pipes j) (log_of j (rd_sent s))" for j using inv by (simp add: readers_inv_def)
  have "count_list (?log j) (StDone None) \<le> 1" for j by (rule log_ok_count [OF ok log_of_take])
  from this [of True] this [of False] endings have "count_list (?log i) (StDone None) \<noteq> 0"
    by (cases i) (simp_all add: count_log_of flip: ms)
  then have "StDone None \<in> set (?log i)" by (simp add: count_list_0_iff)
  moreover have "StLimitExceeded \<notin> set (?log i)"
    using assms(4) ms by (force simp: log_of_def)
  ultimately show ?thesis
    using log_ok_complete [OF ok log_of_take] received_log [OF inv ms] by metis
qed

subsection \<open>The collecting loop as the receiver\<close>

definition received :: "observation list \<Rightarrow> self_test_output list" where
  "received obs = concat (map (\<lambda>ob. case ob_recv ob of Received m \<Rightarrow> [m] | _ \<Rightarrow> []) obs)"

lemma received_simps [simp]: "received [] = []" "received (xs @ ys) = received xs @ received ys"
  by (simp_all add: received_def)

lemma received_Cons: "received (ob # obs) = received [ob] @ received obs"
  by (simp add: received_def)

lemma take_message_received:
  "take_message (ob_recv ob) (n, out, err) = Inr (n', out', err')
   \<Longrightarrow> n' = n + count_list (received [ob]) (StDone None) \<and> StLimitExceeded \<notin> set (received [ob])
     \<and> out' = out @ message_bytes True (received [ob]) \<and> err' = err @ message_bytes False (received [ob])"
  by (cases "(ob_recv ob, (n, out, err))" rule: take_message.cases) (auto simp: received_def split: if_splits)

lemma collect_loop_received:
  assumes "collect_loop timeout (status, n, out, err) obs = (Inr (status', n', out', err') :: 'v install_error + collector)"
  shows "\<exists>seen rest. obs = seen @ rest \<and> n' = n + count_list (received seen) (StDone None) \<and> StLimitExceeded \<notin> set (received seen)
     \<and> out' = out @ message_bytes True (received seen) \<and> err' = err @ message_bytes False (received seen)"
  using assms
proof (induction obs arbitrary: status n out err)
  case Nil
  then show ?case by (auto split: if_splits)
next
  case (Cons ob obs)
  show ?case
  proof (cases "status \<noteq> None \<and> 2 \<le> n")
    case True
    with Cons.prems show ?thesis by (intro exI [of _ "[]"] exI [of _ "ob # obs"]) auto
  next
    case False
    with Cons.prems obtain s1 n1 o1 e1 where
      st: "collect_step timeout ob (status, n, out, err) = (Inr (s1, n1, o1, e1) :: 'v install_error + collector)" and
      rest: "collect_loop timeout (s1, n1, o1, e1) obs = (Inr (status', n', out', err') :: 'v install_error + collector)"
      by (auto split: if_splits)
    from st have "take_message (ob_recv ob) (n, out, err) = (Inr (n1, o1, e1) :: 'v install_error + _)"
      by (auto simp: collect_step_def)
    note one = take_message_received [OF this]
    from Cons.IH [OF rest] obtain seen rs where "obs = seen @ rs" "n' = n1 + count_list (received seen) (StDone None)"
      "StLimitExceeded \<notin> set (received seen)" "out' = o1 @ message_bytes True (received seen)"
      "err' = e1 @ message_bytes False (received seen)" by blast
    with one show ?thesis
      by (intro exI [of _ "ob # seen"] exI [of _ rs]) (simp add: received_Cons [of ob seen])
  qed
qed

end
