(* ===== verification/Self_Test_Properties.thy ===== *)
theory Self_Test_Properties
  imports Self_Test_Readers Sample_Installation
begin

text \<open>
  What a passed self-test means, that the self-test neither waits nor collects without bound, and that it
  leaves no child behind.
\<close>

text \<open>C27: a self-test passes only if the payload was spawned, on Windows contained in a job and its suspended
  thread resumed, exited with success before the deadline, and the version string is in its standard output followed by its standard error, all of it read before the
  deadline.\<close>

theorem passed_self_test_ran:
  fixes e :: "('v, 'z) env_scheme"
  assumes "run_self_test e p v config = Inr ()"
  shows "\<exists>seen rest. pr_observed p = seen @ rest \<and> Spawned \<in> set (pr_spawns p)
     \<and> (h_windows (e_host e) \<longrightarrow> job_assigned (pr_job p)
          \<and> (\<exists>ts. pr_threads p = Some ts \<and> (\<exists>t \<in> set ts. te_owner t = pr_child p \<and> te_resumes t)))
     \<and> (\<forall>ob \<in> set seen. ob_elapsed ob < st_timeout config)
     \<and> (\<exists>ob \<in> set seen. ob_wait ob = Inr (Some True))
     \<and> (\<exists>before after. stream_bytes True seen @ stream_bytes False seen = before @ version_string e v @ after)"
proof -
  note run = run_self_test_Inr [OF assms]
  then obtain n out err where
    loop: "collect_loop (st_timeout config) (None, 0, [], []) (pr_observed p)
      = (Inr (Some True, n, out, err) :: 'v install_error + collector)" and
    found: "contains (version_string e v) (out @ err)" by blast
  from collect_loop_Inr [OF loop] obtain seen rest where
    seen: "pr_observed p = seen @ rest" "\<exists>ob \<in> set seen. ob_wait ob = Inr (Some True)"
      "\<forall>ob \<in> set seen. ob_elapsed ob < st_timeout config" "out = stream_bytes True seen" "err = stream_bytes False seen"
    by auto
  moreover have "Spawned \<in> set (pr_spawns p)" using run spawn_loop_Inr by blast
  moreover have "h_windows (e_host e) \<longrightarrow> job_assigned (pr_job p)
      \<and> (\<exists>ts. pr_threads p = Some ts \<and> (\<exists>t \<in> set ts. te_owner t = pr_child p \<and> te_resumes t))"
    using run attach_Inr resume_Inr by blast
  moreover have "\<exists>before after. out @ err = before @ version_string e v @ after"
    using found by (simp add: contains_iff)
  ultimately show ?thesis by auto
qed

definition sample_self_test :: self_test where
  "sample_self_test = \<lparr>st_args = [''--version''], st_timeout = 5000\<rparr>"

definition passing_probe :: probe where
  "passing_probe = \<lparr>pr_spawns = [ExecutableFileBusy 0, Spawned], pr_job = \<lparr>job_created = False, job_configured = False, job_assigned = False\<rparr>,
     pr_child = 42, pr_threads = None, pr_pipes = True,
     pr_observed =
       [\<lparr>ob_wait = Inr None, ob_elapsed = 1, ob_recv = Received (StData 0 ''demo 1.0.7'')\<rparr>,
        \<lparr>ob_wait = Inr None, ob_elapsed = 2, ob_recv = Received (StDone None)\<rparr>,
        \<lparr>ob_wait = Inr (Some True), ob_elapsed = 3, ob_recv = Received (StDone None)\<rparr>]\<rparr>"

lemma passing_probe_passes: "run_self_test (sample_env []) passing_probe 7 sample_self_test = Inr ()"
  by (simp add: run_self_test_def self_test_trace_def judge_output_def attach_process_group_def resume_self_test_def
      passing_probe_def sample_self_test_def SELF_TEST_BUSY_RETRY_DELAY_def collect_step_def poll_status_def sample_version
      bindE_def ensureE_def ok_orE_def) auto

theorem passed_self_test_ran_witness:
  "\<exists>seen rest. pr_observed passing_probe = seen @ rest \<and> (\<forall>ob \<in> set seen. ob_elapsed ob < 5000)
     \<and> (\<exists>ob \<in> set seen. ob_wait ob = Inr (Some True))"
  using passed_self_test_ran [OF passing_probe_passes] by (simp add: sample_self_test_def) blast

text \<open>C28: the self-test gives up at its deadline: once a spawn attempt finds the executable busy with
  no time left, or a turn of the collecting loop begins after the timeout, nothing that happens
  later is waited for.\<close>

theorem self_test_ends_at_deadline:
  assumes "timeout \<le> ob_elapsed ob" and "timeout \<le> elapsed + SELF_TEST_BUSY_RETRY_DELAY"
  shows "(collect_loop timeout st (seen @ ob # later) :: 'v install_error + collector) = collect_loop timeout st (seen @ [ob])
    \<and> (spawn_loop timeout (tried @ ExecutableFileBusy elapsed # outcomes) :: 'v install_error + unit)
      = spawn_loop timeout (tried @ [ExecutableFileBusy elapsed])"
proof
  have stop: "\<exists>k. collect_step timeout ob st = (Inl k :: 'v install_error + collector)" for st
    using assms(1) by (cases st; cases "poll_status (fst st) ob :: 'v install_error + bool option")
      (auto simp: collect_step_def bindE_def ensureE_def)
  show "(collect_loop timeout st (seen @ ob # later) :: 'v install_error + collector) = collect_loop timeout st (seen @ [ob])"
  proof (induction seen arbitrary: st)
    case Nil
    from stop [of st] obtain k where "collect_step timeout ob st = (Inl k :: 'v install_error + collector)" by blast
    then show ?case by (simp add: bindE_def)
  next
    case (Cons x seen)
    then show ?case by (auto simp: bindE_def split: sum.splits)
  qed
  show "(spawn_loop timeout (tried @ ExecutableFileBusy elapsed # outcomes) :: 'v install_error + unit)
      = spawn_loop timeout (tried @ [ExecutableFileBusy elapsed])"
  proof (induction tried)
    case Nil
    then show ?case using assms(2) by simp
  next
    case (Cons x tried)
    then show ?case by (cases x) auto
  qed
qed

theorem self_test_ends_at_deadline_witness:
  "(spawn_loop 5000 [ExecutableFileBusy 0, ExecutableFileBusy 4980, Spawned] :: nat install_error + unit)
     = Inl (Invalid ''self-test could not run staged payload'')"
  using self_test_ends_at_deadline [of 5000 "\<lparr>ob_wait = Inr None, ob_elapsed = 5000, ob_recv = RecvTimeout\<rparr>" 4980,
      where tried = "[ExecutableFileBusy 0]" and outcomes = "[Spawned]" and 'v = nat]
  by (simp add: SELF_TEST_BUSY_RETRY_DELAY_def)

text \<open>C29: no self-test leaves its child behind: once a child was spawned with its outputs piped, it was killed and reaped, or it had
  exited by itself and its output was read to the end; its job, which takes its descendants with it, is closed on
  Windows. A self-test that passes kills nothing.\<close>

theorem self_test_leaves_no_child:
  fixes e :: "('v, 'z) env_scheme"
  assumes "self_test_trace e p v config = (events, r)" and "pr_pipes p"
  shows "(events = [] \<longrightarrow> spawn_loop (st_timeout config) (pr_spawns p) \<noteq> (Inr () :: 'v install_error + unit))
    \<and> (events \<noteq> [] \<longrightarrow> KillChild \<in> set events \<and> ReapChild \<in> set events
         \<or> (\<exists>ob \<in> set (pr_observed p). \<exists>success. ob_wait ob = Inr (Some success)))
    \<and> (events \<noteq> [] \<and> h_windows (e_host e) \<and> job_created (pr_job p) \<longrightarrow> CloseJob \<in> set events)
    \<and> (r = Inr () \<longrightarrow> KillChild \<notin> set events \<and> TerminateGroup \<notin> set events)"
proof -
  have exited: "\<exists>ob \<in> set (pr_observed p). \<exists>success. ob_wait ob = Inr (Some success)"
    if loop: "collect_loop (st_timeout config) (None, 0, [], []) (pr_observed p) = (Inr c :: 'v install_error + collector)" for c
  proof -
    obtain status n out err where c: "c = (status, n, out, err)" by (cases c)
    from collect_loop_Inr [OF loop [unfolded c]] show ?thesis by fastforce
  qed
  have drops: "KillChild \<notin> set (drop_process_group h j)" "TerminateGroup \<notin> set (drop_process_group h j)"
    "h_windows h \<and> job_created j \<Longrightarrow> CloseJob \<in> set (drop_process_group h j)" for h j
    by (simp_all add: drop_process_group_def)
  show ?thesis
    using assms exited drops
    by (auto simp: self_test_trace_def Let_def terminate_self_test_def split: sum.splits)
qed

theorem self_test_leaves_no_child_witness:
  "KillChild \<in> set (fst (self_test_trace (sample_env []) sample_probe 7 sample_self_test))"
proof -
  let ?t = "self_test_trace (sample_env []) sample_probe 7 sample_self_test"
  have "fst ?t \<noteq> []" by (simp add: self_test_trace_def Let_def sample_probe_def attach_process_group_def resume_self_test_def
      bindE_def split: sum.splits)
  moreover have "pr_pipes sample_probe" "pr_observed sample_probe = []" by (simp_all add: sample_probe_def)
  ultimately show ?thesis using self_test_leaves_no_child [OF prod.collapse [symmetric], of sample_probe "sample_env []" 7 sample_self_test]
    by auto
qed

text \<open>C30: however the two reader threads and the collecting loop interleave, what the loop has received of each
  stream is an initial part of what the child wrote to it, in order, and it never holds more than one MiB of
  both together.\<close>

theorem received_output_bounded:
  assumes "reader_step\<^sup>*\<^sup>* (readers_start pipes) s"
  shows "prefix (message_bytes i (delivered s)) (pipe_bytes (pipes i))
    \<and> length (message_bytes True (delivered s)) + length (message_bytes False (delivered s)) \<le> 1048576"
  using received_bounded [OF readers_inv_reachable [OF assms] delivered_def [symmetric]]
  by (simp add: SELF_TEST_OUTPUT_LIMIT_def)

definition sample_pipes :: "bool \<Rightarrow> pipe_read list" where
  "sample_pipes i = (if i then [PipeData ''demo 1.0.7''] else [])"

lemma sample_readers_run:
  "\<exists>s. reader_step\<^sup>*\<^sup>* (readers_start sample_pipes) s \<and> delivered s = received (pr_observed passing_probe)"
proof -
  let ?text = "''demo 1.0.7''"
  note go = converse_rtranclp_into_rtranclp [where r = reader_step]
  show ?thesis
    apply (intro exI conjI)
     apply (rule go, rule read_data [where i = True and b = ?text and rest = "[]"])
        apply (simp add: readers_start_def)
       apply (simp add: readers_start_def sample_pipes_def)
      apply simp
     apply (simp add: readers_start_def sample_pipes_def unread_def SELF_TEST_READ_CHUNK_def)
     apply (rule go, rule load [where i = True], simp, simp)
     apply (rule go, rule exchange [where i = True and t = 10])
        apply simp
       apply (simp add: within_limit_def usize_checked_add_def usize_max_def SELF_TEST_OUTPUT_LIMIT_def)
      apply simp
     apply simp
     apply (rule go, rule send [where i = True], simp, simp, simp add: CHANNEL_BOUND_def, simp)
     apply (rule go, rule read_end [where i = True], simp, simp, simp)
     apply (rule go, rule send [where i = True], simp, simp, simp add: CHANNEL_BOUND_def, simp)
     apply (rule go, rule read_end [where i = False], simp, simp add: sample_pipes_def, simp)
     apply (rule go, rule send [where i = False], simp, simp, simp add: CHANNEL_BOUND_def, simp)
     apply (rule go, rule receive, simp, simp, simp)
     apply (rule go, rule receive, simp, simp, simp)
     apply (rule go, rule receive, simp, simp, simp)
     apply (rule rtranclp.rtrancl_refl)
    apply (simp add: delivered_def received_def passing_probe_def stream_number_def)
    done
qed

theorem received_output_bounded_witness:
  "\<exists>s. reader_step\<^sup>*\<^sup>* (readers_start sample_pipes) s \<and> message_bytes True (delivered s) = ''demo 1.0.7''
     \<and> prefix (message_bytes True (delivered s)) (pipe_bytes (sample_pipes True))"
proof -
  from sample_readers_run obtain s where s: "reader_step\<^sup>*\<^sup>* (readers_start sample_pipes) s"
    "delivered s = received (pr_observed passing_probe)" by blast
  then show ?thesis using received_output_bounded [OF s(1), of True]
    by (intro exI [of _ s]) (simp add: received_def passing_probe_def)
qed

text \<open>C31: a self-test that passes has seen the whole output of the payload: if its messages are what an execution of
  the two reader threads delivered, then no read failed, standard output and standard error together are at most one
  MiB, and the version string is in what was written, standard output first.\<close>

theorem self_test_saw_whole_output:
  fixes e :: "('v, 'z) env_scheme"
  assumes run: "run_self_test e p v config = Inr ()"
    and reach: "reader_step\<^sup>*\<^sup>* (readers_start pipes) s" and same: "received (pr_observed p) = delivered s"
  shows "\<not> pipe_fails (pipes i) \<and> length (pipe_bytes (pipes True) @ pipe_bytes (pipes False)) \<le> 1048576
    \<and> (\<exists>before after. pipe_bytes (pipes True) @ pipe_bytes (pipes False) = before @ version_string e v @ after)"
proof -
  from run_self_test_Inr [OF run] obtain n out err where
    loop: "collect_loop (st_timeout config) (None, 0, [], []) (pr_observed p)
      = (Inr (Some True, n, out, err) :: 'v install_error + collector)" and
    found: "contains (version_string e v) (out @ err)" by blast
  from collect_loop_received [OF loop] obtain seen rest where seen: "pr_observed p = seen @ rest"
    "n = count_list (received seen) (StDone None)" "StLimitExceeded \<notin> set (received seen)"
    "out = message_bytes True (received seen)" "err = message_bytes False (received seen)" by auto
  have "2 \<le> n" using collect_loop_Inr [OF loop] by blast
  note inv = readers_inv_reachable [OF reach]
  have "received seen = take (length (received seen)) (received (pr_observed p))" by (simp add: seen(1))
  then have taken: "map snd (take (min (length (received seen)) (rd_taken s)) (rd_sent s)) = received seen"
    by (simp add: same delivered_def take_map min.commute)
  have "message_bytes j (received seen) = pipe_bytes (pipes j) \<and> \<not> pipe_fails (pipes j)" for j
    by (rule received_complete [OF inv taken]) (use \<open>2 \<le> n\<close> seen in auto)
  moreover have "length (out @ err) \<le> 1048576"
    using received_bounded(2) [OF inv taken] seen by (simp add: SELF_TEST_OUTPUT_LIMIT_def)
  moreover have "\<exists>before after. out @ err = before @ version_string e v @ after" using found by (simp add: contains_iff)
  ultimately show ?thesis using seen by simp
qed

theorem self_test_saw_whole_output_witness:
  "\<exists>before after. ''demo 1.0.7'' = before @ version_string (sample_env []) 7 @ after"
proof -
  from sample_readers_run obtain s where s: "reader_step\<^sup>*\<^sup>* (readers_start sample_pipes) s"
    "delivered s = received (pr_observed passing_probe)" by blast
  from self_test_saw_whole_output [OF passing_probe_passes s(1) s(2) [symmetric]] show ?thesis
    by (simp add: sample_pipes_def)
qed

end
