(* ===== verification/Authenticity.thy ===== *)
theory Authenticity
  imports History
begin

text \<open>
  What the selected version's directory holds: a manifest signed by a trusted key, its signatures,
  and a payload with the size and digest the manifest publishes for this host. The verification of a
  version directory establishes it, and every operation keeps it for the version the selector points
  to, however the operation ends.
\<close>

subsection \<open>Authentic versions\<close>

text \<open>The payload name and the release target are those of the host's platform, and the payload is
  not named like a temporary file.\<close>

definition platform_ok :: "('v, 'z) env_scheme \<Rightarrow> bool" where
  "platform_ok e \<longleftrightarrow> (\<forall>t. e_target e = Some t \<longrightarrow> is_windows t = h_windows (e_host e))
     \<and> \<not> temp_like [Normal (host_payload_name e)]"

definition files_at :: "('v, 'z) env_scheme \<Rightarrow> path \<Rightarrow> world \<Rightarrow> node option \<times> node option \<times> node option" where
  "files_at e dir w = (lookup w (join dir MANIFEST_FILE), lookup w (join dir SIGNATURE_FILE),
     lookup w (join dir (host_payload_name e)))"

definition authentic :: "('v, 'z) env_scheme \<Rightarrow> 'v \<Rightarrow> node option \<times> node option \<times> node option \<Rightarrow> bool" where
  "authentic e v fs \<longleftrightarrow> (\<exists>a1 manifest_bytes a2 signature_bytes a3 payload key manifest t chosen.
     fs = (Some (RegularFile a1 manifest_bytes), Some (RegularFile a2 signature_bytes), Some (RegularFile a3 payload))
     \<and> verify_signature e manifest_bytes signature_bytes = Inr key
     \<and> manifest_from_bytes e (e_app e) manifest_bytes = Inr manifest \<and> m_version manifest = v
     \<and> e_target e = Some t \<and> asset_for e manifest (e_app e) t = Inr chosen
     \<and> sha256_bytes e payload = p_sha256 (a_payload (sel_asset chosen))
     \<and> of_nat (length payload) = p_size (a_payload (sel_asset chosen)))"

subsection \<open>Verification of a version directory\<close>

text \<open>A computation that changes no node, run where the nodes are \<open>L\<close>: what it returns is a fact about \<open>L\<close>.\<close>

lemma scan_bind:
  assumes "touches {} m" and "\<And>w a w'. lookup w = L \<Longrightarrow> m w = (Inr a, w') \<Longrightarrow> R a"
    and "\<And>a. R a \<Longrightarrow> valid (\<lambda>w. lookup w = L) (f a) Q (\<lambda>_. True)"
  shows "valid (\<lambda>w. lookup w = L) (bindM m f) Q (\<lambda>_. True)"
proof (rule valid_bind)
  show "valid (\<lambda>w. lookup w = L) m (\<lambda>a w. lookup w = L \<and> R a) (\<lambda>_. True)"
    using reads_lookup [OF assms(1)] assms(2) by (intro validI) auto
  show "valid (\<lambda>w. lookup w = L \<and> R a) (f a) Q (\<lambda>_. True)" for a
    using assms(3) [of a] by (auto simp: valid_def)
qed

lemma scan_keep:
  assumes "touches {} m" and "\<And>a. valid (\<lambda>w. lookup w = L) (f a) Q (\<lambda>_. True)"
  shows "valid (\<lambda>w. lookup w = L) (bindM m f) Q (\<lambda>_. True)"
  by (rule scan_bind [OF assms(1), where R = "\<lambda>_. True"]) (simp_all add: assms(2))

lemma scan_ensure:
  "(b \<Longrightarrow> valid P (f ()) Q (\<lambda>_. True)) \<Longrightarrow> valid P (bindM (ensureM b k) f) Q (\<lambda>_. True)"
  by (cases b) (auto simp: ensureM_def valid_def throwM_apply)

lemma scan_liftE:
  "(\<And>a. r = Inr a \<Longrightarrow> valid P (f a) Q (\<lambda>_. True)) \<Longrightarrow> valid P (bindM (liftE r) f) Q (\<lambda>_. True)"
  by (cases r) (auto simp: valid_def throwM_apply)

lemma scan_liftR:
  "(\<And>a. r = Inr a \<Longrightarrow> valid P (f a) Q (\<lambda>_. True)) \<Longrightarrow> valid P (bindM (liftR r) f) Q (\<lambda>_. True)"
  unfolding liftR_def by (rule scan_liftE) (auto split: sum.splits)

lemma verify_file_digest_exact:
  fixes e :: "('v, 'z) env_scheme"
  assumes "verify_file_digest e (join p n) expected digest w = (Inr u, w')"
    and "canonical_path (h_windows (e_host e)) p"
  shows "\<exists>a b. lookup w (join p n) = Some (RegularFile a b) \<and> of_nat (length b) = expected \<and> sha256_bytes e b = digest"
proof -
  from assms(1) obtain f w1 m w2 b w3 where
    f: "open_regular_file_secure (e_host e) (join p n) w = (Inr f, w1)" and
    m: "symlink_metadata f w1 = (Inr m, w2)" "of_nat (node_len m) = expected" and
    rd: "read_handle f w2 = (Inr b, w3)" and digest: "fst (sha256_reader e (reader_of b)) = Inr digest"
    by (auto simp: verify_file_digest_def bindM_return_iff ensureM_apply monad_simps split: if_splits)
  have "f = join p n" using f assms(2) by (rule open_regular_file_path)
  moreover have "lookup w1 = lookup w"
    using touches_open_regular_file_secure f by (rule reads_lookup)
  moreover have "lookup w1 f = Some m \<and> lookup w2 = lookup w1"
    using symlink_metadata_Inr [OF m(1)] .
  moreover obtain a where "lookup w2 f = Some (RegularFile a b)" using read_handle_Inr [OF rd] by blast
  moreover have "sha256_bytes e b = digest" using digest by (simp add: sha256_reader_result reader_of_def)
  ultimately show ?thesis using m(2) by auto
qed

lemma scan_start:
  "(\<And>L. valid (\<lambda>w. lookup w = L) m Q (\<lambda>_. True)) \<Longrightarrow> valid (\<lambda>_. True) m Q (\<lambda>_. True)"
  by (simp add: valid_def)

lemma valid_trivial: "valid P m (\<lambda>_ _. True) (\<lambda>_. True)"
  by (simp add: valid_def split: prod.splits sum.splits)

lemma authenticI:
  assumes "L (join dir MANIFEST_FILE) = Some (RegularFile a1 mb)" "L (join dir SIGNATURE_FILE) = Some (RegularFile a2 sb)"
    and "L (join dir (host_payload_name e)) = Some (RegularFile a3 b)"
    and "verify_signature e mb sb = Inr key" "manifest_from_bytes e (e_app e) mb = Inr m" "m_version m = v"
    and "e_target e = Some t" "asset_for e m (e_app e) t = Inr s"
    and "sha256_bytes e b = p_sha256 (a_payload (sel_asset s))" "of_nat (length b) = p_size (a_payload (sel_asset s))"
    and "lookup w = L"
  shows "authentic e v (files_at e dir w)"
  using assms unfolding authentic_def files_at_def by blast

lemma verify_version_dir_scan:
  fixes e :: "('v, 'z) env_scheme"
  assumes can: "canonical_path (h_windows (e_host e)) dir" and plat: "platform_ok e"
  shows "valid (\<lambda>_. True) (verify_version_dir_inner e dir i)
      (\<lambda>state w. authentic e (vs_version state) (files_at e dir w)) (\<lambda>_. True)"
proof -
  have payload: "target_payload_name t (e_app e) = host_payload_name e" if "current_target e = Inr t" for t
    using plat that by (auto simp: current_target_def target_payload_name_def host_payload_name_def platform_ok_def)
  have target: "e_target e = Some t" if "current_target e = Inr t" for t
    using that by (simp add: current_target_def)
  have read: "\<exists>a. L (join dir n) = Some (RegularFile a b)"
    if "lookup w = L" "read_regular_limited e (join dir n) k w = (Inr b, w')" for L n k b w w'
    using read_regular_limited_exact [OF that(2) can] that(1) by blast
  have digest: "\<exists>a b. L (join dir n) = Some (RegularFile a b) \<and> of_nat (length b) = k \<and> sha256_bytes e b = d"
    if "lookup w = L" "verify_file_digest e (join dir n) k d w = (Inr u, w')" for L n k d u w w'
    using verify_file_digest_exact [OF that(2) can] that(1) by blast
  show ?thesis
    unfolding verify_version_dir_inner_def Let_def
    apply (rule valid_bind [OF valid_trivial], rule scan_start)
    apply (rule scan_keep, (intro touches_intros)[1], rule scan_liftE, rule scan_liftE)
    apply (rule scan_keep, (intro touches_intros)[1], rule scan_liftE, rule scan_ensure)
    apply (rule scan_bind, (intro touches_intros)[1], erule (1) read, rule scan_bind, (intro touches_intros)[1], erule (1) read)
    apply (rule scan_liftR, rule scan_liftR, rule scan_ensure, rule scan_liftR, rule scan_ensure, rule scan_ensure, rule scan_ensure)
    apply (rule scan_keep, (intro touches_intros)[1], rule scan_bind, (intro touches_intros)[1], erule (1) digest)
    apply (rule scan_keep, (intro touches_intros)[1], rule scan_keep, (intro touches_intros)[1])
    apply (rule valid_pre [OF valid_return], elim exE conjE)
    apply (rule authenticI, assumption, assumption)
    using payload target by simp_all
qed

lemma verify_final_authentic:
  fixes e :: "('v, 'z) env_scheme"
  assumes "layout_ok e" and "platform_ok e"
  shows "valid (\<lambda>_. True) (verify_final_version e v i)
     (\<lambda>_ w. authentic e v (files_at e (version_dir e v) w)) (\<lambda>_. True)"
  unfolding verify_final_version_def
  by (rule valid_bind [OF verify_version_dir_scan [OF canonical_layout(2) [OF assms(1)] assms(2)]], rule scan_ensure)
    (simp add: valid_def returnM_apply)

lemma verify_staged_authentic:
  fixes e :: "('v, 'z) env_scheme"
  assumes "layout_ok e" and "platform_ok e" and "staged e tx"
  shows "valid (\<lambda>_. True) (verify_staged_version e tx v i)
     (\<lambda>_ w. authentic e v (files_at e (tx_version_dir tx) w)) (\<lambda>_. True)"
  unfolding verify_staged_version_def
  by (rule valid_bind [OF verify_version_dir_scan [OF staged_canonical(2) [OF assms(1,3)] assms(2)]], rule scan_ensure)
    (simp add: valid_def returnM_apply)

subsection \<open>The paths authenticity depends on\<close>

definition selected_authentic :: "('v, 'z) env_scheme \<Rightarrow> world \<Rightarrow> bool" where
  "selected_authentic e w \<longleftrightarrow>
     (\<forall>v. points_to e v (lookup w (selector_path e)) \<longrightarrow> authentic e v (files_at e (version_dir e v) w))"

definition watched :: "('v, 'z) env_scheme \<Rightarrow> path set" where
  "watched e = insert (selector_path e)
     {join (version_dir e v) n | v n. n \<in> {MANIFEST_FILE, SIGNATURE_FILE, host_payload_name e}}"

definition watches :: "('v, 'z) env_scheme \<Rightarrow> (world \<Rightarrow> bool) \<Rightarrow> bool" where
  "watches e P \<longleftrightarrow> (\<forall>w w'. (\<forall>q \<in> watched e. lookup w' q = lookup w q) \<longrightarrow> P w \<longrightarrow> P w')"

text \<open>Beside the scaffold, the journal and \<^verbatim>\<open>install.json\<close> are written without the selector in view.\<close>

definition repairs :: "('v, 'z) env_scheme \<Rightarrow> path set" where
  "repairs e = insert (pending_path e) (insert (install_state_path e) (scaffold e))"

lemma touches_repairs: "touches (scaffold e) m \<Longrightarrow> touches (repairs e) m"
  by (erule touches_mono) (auto simp: repairs_def)

lemma files_watched:
  "\<forall>q \<in> watched e. lookup w' q = lookup w q \<Longrightarrow> files_at e (version_dir e v) w' = files_at e (version_dir e v) w"
  by (auto simp: files_at_def watched_def)

lemma watches_selected: "watches e (selected_authentic e)"
  unfolding watches_def selected_authentic_def
proof (intro allI impI)
  fix w w' v assume q: "\<forall>q \<in> watched e. lookup w' q = lookup w q"
    and "\<forall>v. points_to e v (lookup w (selector_path e)) \<longrightarrow> authentic e v (files_at e (version_dir e v) w)"
    and "points_to e v (lookup w' (selector_path e))"
  moreover have "lookup w' (selector_path e) = lookup w (selector_path e)" using q by (simp add: watched_def)
  ultimately show "authentic e v (files_at e (version_dir e v) w')" by (simp add: files_watched [OF q])
qed

lemma watches_version: "watches e (\<lambda>w. selected_authentic e w \<and> authentic e v (files_at e (version_dir e v) w))"
  using watches_selected [of e] files_watched unfolding watches_def by (metis (no_types, lifting))

lemma version_file_not_scaffold:
  assumes "layout_ok e" and "platform_ok e" and "n \<in> {MANIFEST_FILE, SIGNATURE_FILE, host_payload_name e}"
  shows "join (version_dir e v) n \<notin> scaffold e"
proof -
  let ?q = "join (version_dir e v) n"
  have temp: "\<not> temp_like ?q"
    using assms(2,3) temp_like_join [of "[]" "host_payload_name e"]
    by (auto simp: platform_ok_def MANIFEST_FILE_def SIGNATURE_FILE_def join_def [of "[]"])
  have cmd: "\<not> strict_prefix ?q (e_command e)"
  proof
    assume "strict_prefix ?q (e_command e)"
    then have "prefix (versions_dir e) (e_command e)"
      using prefix_order.trans [of "versions_dir e" ?q "e_command e"] prefix_order.trans [OF prefix_join prefix_join]
      by (auto simp: version_dir_def strict_prefix_def)
    then show False using layout_okD(5) [OF assms(1)] by auto
  qed
  have beside: "\<not> prefix par ?q" if win: "h_windows (e_host e)" and par: "parent (e_command e) = Some par" for par
  proof
    assume pre: "prefix par ?q"
    from assms(1) win obtain l where "validate_command_path e (Some l) = Inr ()"
      by (auto simp: layout_ok_def is_ok_iff validate_configuration_def)
    with par have "same_path e par (bin_dir e)" by (auto simp: validate_command_path_def Let_def)
    with win have "length par = length (versions_dir e)"
      by (auto simp: same_path_def layout_defs join_def dest: list_all2_lengthD)
    moreover have "prefix (versions_dir e) ?q"
      using prefix_order.trans [OF prefix_join prefix_join] by (auto simp: version_dir_def)
    ultimately have "par = versions_dir e" using pre by (metis prefix_length_prefix prefix_order.antisym order_refl)
    then show False using layout_okD(5) [OF assms(1)] parent_prefix [OF par] by auto
  qed
  have "\<not> prefix ?q (version_dir e u)" for u
    by (auto simp: version_dir_def prefix_join_iff join_def)
  moreover have "\<not> prefix ?q (staging_dir e)" "\<not> prefix (staging_dir e) ?q" "?q \<noteq> lock_path e" "\<not> prefix ?q (bin_dir e)"
    by (auto simp: layout_defs prefix_join_iff join_def)
  ultimately show ?thesis using temp cmd beside by (auto simp: scaffold_def)
qed

lemma watched_not_repairs:
  assumes "layout_ok e" and "platform_ok e"
  shows "watched e \<inter> repairs e = {}"
proof -
  have "join (version_dir e v) n \<noteq> pending_path e" "join (version_dir e v) n \<noteq> install_state_path e"
    "pending_path e \<noteq> join (version_dir e v) n" "install_state_path e \<noteq> join (version_dir e v) n" for v n
    by (auto simp: layout_defs join_def)
  moreover have "selector_path e \<notin> repairs e"
    using cells_distinct [OF assms(1)] protected_not_scaffold [OF assms(1)] by (auto simp: repairs_def protected_def)
  ultimately show ?thesis
    using version_file_not_scaffold [OF assms] by (auto simp: watched_def repairs_def)
qed

subsection \<open>Steps that keep what is watched\<close>

definition guarded :: "('v, 'z) env_scheme \<Rightarrow> bool" where
  "guarded e \<longleftrightarrow> env_ok e \<and> platform_ok e"

lemma guardedD: "guarded e \<Longrightarrow> env_ok e" "guarded e \<Longrightarrow> platform_ok e" "guarded e \<Longrightarrow> layout_ok e"
  by (simp_all add: guarded_def env_ok_def)

definition verified :: "('v, 'z) env_scheme \<Rightarrow> 'v \<Rightarrow> world \<Rightarrow> bool" where
  "verified e v w \<longleftrightarrow> selected_authentic e w \<and> authentic e v (files_at e (version_dir e v) w)"

lemma verified_selected: "verified e v w \<Longrightarrow> selected_authentic e w"
  by (simp add: verified_def)

lemma step_repairs: "guarded e \<Longrightarrow> touches (repairs e) m \<Longrightarrow> watches e P \<Longrightarrow> valid P m (\<lambda>_. P) P"
proof (rule valid_touches)
  fix w w' assume "guarded e" "watches e P" "P w" and same: "\<forall>p. p \<notin> repairs e \<longrightarrow> lookup w' p = lookup w p"
  have "watched e \<inter> repairs e = {}" using \<open>guarded e\<close> by (simp add: watched_not_repairs guardedD)
  with same have "\<forall>q \<in> watched e. lookup w' q = lookup w q" by blast
  with \<open>watches e P\<close> \<open>P w\<close> show "P w'" unfolding watches_def by blast
qed

lemma step_selected:
  "guarded e \<Longrightarrow> touches (repairs e) m \<Longrightarrow> (\<And>a. valid (selected_authentic e) (f a) Q (selected_authentic e))
   \<Longrightarrow> valid (selected_authentic e) (bindM m f) Q (selected_authentic e)"
  by (rule valid_bind [OF step_repairs [OF _ _ watches_selected]])

lemma step_verified:
  assumes "guarded e" and "touches (repairs e) m" and "\<And>a. valid (verified e v) (f a) Q (selected_authentic e)"
  shows "valid (verified e v) (bindM m f) Q (selected_authentic e)"
proof (rule valid_bind [OF _ assms(3)])
  have "watches e (verified e v)" unfolding verified_def by (rule watches_version)
  from step_repairs [OF assms(1,2) this] show "valid (verified e v) m (\<lambda>_. verified e v) (selected_authentic e)"
    by (rule valid_post) (simp_all add: verified_selected)
qed

lemma step_ensure:
  "(\<And>w. P w \<Longrightarrow> E w) \<Longrightarrow> (b \<Longrightarrow> valid P (f ()) Q E) \<Longrightarrow> valid P (bindM (ensureM b k) f) Q E"
  by (cases b) (auto simp: ensureM_def valid_def throwM_apply)

lemma step_liftE:
  "(\<And>w. P w \<Longrightarrow> E w) \<Longrightarrow> (\<And>a. r = Inr a \<Longrightarrow> valid P (f a) Q E) \<Longrightarrow> valid P (bindM (liftE r) f) Q E"
  by (cases r) (auto simp: valid_def throwM_apply)

text \<open>Verifying a version establishes it.\<close>

lemma step_verify:
  assumes g: "guarded e" and "\<And>s. valid (verified e v) (f s) Q (selected_authentic e)"
  shows "valid (selected_authentic e) (bindM (verify_final_version e v i) f) Q (selected_authentic e)"
proof (rule valid_bind)
  note keep = step_repairs [OF g touches_repairs [OF touches_verify_final [OF guardedD(3) [OF g]]] watches_selected]
  note est = verify_final_authentic [OF guardedD(3) [OF g] guardedD(2) [OF g]]
  show "valid (selected_authentic e) (verify_final_version e v i) (\<lambda>_. verified e v) (selected_authentic e)"
  proof (rule validI)
    fix w a w' assume "selected_authentic e w" and m: "verify_final_version e v i w = (Inr a, w')"
    with valid_InrD [OF keep _ m] valid_InrD [OF est _ m] show "verified e v w'" unfolding verified_def by blast
  next
    fix w k w' assume "selected_authentic e w" and m: "verify_final_version e v i w = (Inl k, w')"
    with valid_InlD [OF keep _ m] show "selected_authentic e w'" by blast
  qed
qed (rule assms)

text \<open>The switch moves the selector to the verified version or not at all.\<close>

lemma version_file_not_selector:
  assumes "layout_ok e"
  shows "join (version_dir e u) n \<noteq> selector_path e"
proof -
  have "prefix (versions_dir e) (join (version_dir e u) n)"
    using prefix_order.trans [OF prefix_join prefix_join] by (auto simp: version_dir_def)
  moreover have "\<not> prefix (versions_dir e) (selector_path e)"
    using layout_okD(5) [OF assms] by (auto simp: selector_path_def layout_defs prefix_join_iff)
  ultimately show ?thesis by metis
qed

lemma switch_keeps_verified:
  fixes e :: "('v, 'z) env_scheme"
  assumes g: "guarded e" and v: "verified e v w" and m: "switch_pointer e v w = (r, w')"
  shows "verified e v w'"
proof -
  note lay = guardedD(3) [OF g] and crash = selector.store_crash [OF guardedD(1) [OF g] m]
  have files: "files_at e (version_dir e u) w' = files_at e (version_dir e u) w" for u
  proof -
    have "lookup w' (join (version_dir e u) n) = lookup w (join (version_dir e u) n)"
      if "n \<in> {MANIFEST_FILE, SIGNATURE_FILE, host_payload_name e}" for n
      using crash version_file_not_scaffold [OF lay guardedD(2) [OF g] that] version_file_not_selector [OF lay]
      by (simp add: scaffold_def)
    then show ?thesis by (simp add: files_at_def)
  qed
  have "authentic e u (files_at e (version_dir e u) w)" if u: "points_to e u (lookup w' (selector_path e))" for u
  proof (cases "lookup w' (selector_path e) = lookup w (selector_path e)")
    case True
    with v u show ?thesis by (simp add: verified_def selected_authentic_def)
  next
    case False
    with crash have "points_to e v (lookup w' (selector_path e))" by blast
    with u have "u = v" by (rule points_to_unique [OF env_okD(3) [OF guardedD(1) [OF g]]])
    with v show ?thesis by (simp add: verified_def)
  qed
  with v files show ?thesis by (simp add: verified_def selected_authentic_def)
qed

lemma step_switch:
  assumes "guarded e" and "\<And>a. valid (verified e v) (f a) Q (selected_authentic e)"
  shows "valid (verified e v) (bindM (switch_pointer e v) f) Q (selected_authentic e)"
proof (rule valid_bind [OF validI assms(2)])
  fix w k w' assume "verified e v w" and "switch_pointer e v w = (Inl k, w')"
  then show "selected_authentic e w'" by (rule verified_selected [OF switch_keeps_verified [OF assms(1)]])
qed (rule switch_keeps_verified [OF assms(1)])

subsection \<open>Staging a version\<close>

lemma rename_brings_version:
  fixes e :: "('v, 'z) env_scheme"
  assumes g: "guarded e" and tx: "staged e tx" and "selected_authentic e w"
    and "authentic e v (files_at e (tx_version_dir tx) w)"
    and m: "rename_new (e_host e) (tx_version_dir tx) (version_dir e v) w = (r, w')"
  shows "selected_authentic e w' \<and> (\<forall>u. r = Inr u \<longrightarrow> verified e v w')"
proof -
  note lay = guardedD(3) [OF g] and sem = env_okD(3) [OF guardedD(1) [OF g]]
  let ?src = "tx_version_dir tx" and ?dst = "version_dir e v"
  have apart: "\<not> prefix ?src ?dst" "\<not> prefix ?dst ?src"
    using tx by (auto simp: staged_def layout_defs join_def)
  from rename_new_cases [OF m apart] show ?thesis
  proof
    assume "lookup w' = lookup w \<and> (\<forall>u. r \<noteq> Inr u)"
    with assms(3) show ?thesis by (simp add: selected_authentic_def files_at_def)
  next
    assume moved: "lookup w ?dst = None \<and> (\<forall>q. lookup w' q = (if prefix ?dst q then lookup w (?src @ drop (length ?dst) q)
       else if prefix ?src q then None else lookup w q))"
    have here: "files_at e ?dst w' = files_at e ?src w"
      using moved by (simp add: files_at_def) (simp add: join_def)
    have sel: "lookup w' (selector_path e) = lookup w (selector_path e)"
    proof -
      have "prefix ?dst q \<Longrightarrow> q \<in> workspace e" "prefix ?src q \<Longrightarrow> q \<in> workspace e" for q
        using staged_scaffold(2) [OF tx] prefix_order.trans [OF prefix_join]
        by (auto simp: workspace_def version_dir_def)
      moreover have "selector_path e \<notin> workspace e"
        by (rule protected_not_workspace [OF lay]) (simp add: protected_def)
      ultimately show ?thesis using moved by auto
    qed
    have others: "files_at e (version_dir e u) w' = files_at e (version_dir e u) w" if "u \<noteq> v" for u
    proof -
      have "\<not> prefix ?dst (join (version_dir e u) n)" "\<not> prefix ?src (join (version_dir e u) n)" for n
        using that tx by (auto simp: version_dir_def staged_def prefix_join_iff layout_defs join_def version_string_inject [OF sem])
      with moved show ?thesis by (simp add: files_at_def)
    qed
    have "verified e v w'"
      unfolding verified_def selected_authentic_def sel here
      using assms(3,4) others here unfolding selected_authentic_def by metis
    then show ?thesis by (simp add: verified_selected)
  qed
qed

lemma stage_authentic:
  fixes e :: "('v, 'z) env_scheme"
  assumes g: "guarded e"
  shows "valid (selected_authentic e) (stage_version e md archive i t b v) (\<lambda>_. verified e v) (selected_authentic e)"
proof -
  note lay = guardedD(3) [OF g]
  note same = valid_unchanged [where P = "\<lambda>w. selected_authentic e w \<and> authentic e v (files_at e (tx_version_dir tx) w)" for tx]
  let ?both = "\<lambda>tx w. selected_authentic e w \<and> authentic e v (files_at e (tx_version_dir tx) w)"
  have quiet: "valid (?both tx) (bindM m f) Q (selected_authentic e)"
    if "touches {} m" "\<And>a. valid (?both tx) (f a) Q (selected_authentic e)" for tx Q
      and m :: "('v, 'x) inst" and f :: "'x \<Rightarrow> ('v, 'y) inst"
    by (rule valid_bind [OF valid_post [OF valid_unchanged [OF that(1), where P = "?both tx"]] that(2)])
      (simp_all add: selected_authentic_def files_at_def)
  have verify: "valid (selected_authentic e) (verify_staged_version e tx v i) (\<lambda>_. ?both tx) (selected_authentic e)"
    if "staged e tx" for tx
  proof -
    note keep = step_repairs [OF g touches_repairs [OF touches_verify_staged [OF lay that]] watches_selected]
    note est = verify_staged_authentic [OF lay guardedD(2) [OF g] that]
    show ?thesis
      using valid_InrD [OF keep] valid_InlD [OF keep] valid_InrD [OF est] by (intro validI) blast+
  qed
  have move: "valid (?both tx) (liftIO (rename_new (e_host e) (tx_version_dir tx) (version_dir e v)) :: ('v, unit) inst)
     (\<lambda>_. verified e v) (selected_authentic e)" if "staged e tx" for tx
    by (intro valid_liftIO validI) (use rename_brings_version [OF g that] in blast)+
  have create: "valid (selected_authentic e) (create_transaction e)
     (\<lambda>tx w. selected_authentic e w \<and> staged e tx) (selected_authentic e)"
  proof -
    have "touches (scaffold e) (bindM (create_transaction e) returnM)"
      by (intro touches_create_transaction lay touches_basic) simp
    then have "valid (selected_authentic e) (create_transaction e) (\<lambda>_. selected_authentic e) (selected_authentic e)"
      unfolding bindM_returnM by (intro step_repairs [OF g touches_repairs watches_selected])
    moreover have "create_transaction e w = (Inr tx, w') \<Longrightarrow> staged e tx" for w tx w'
      by (auto simp: create_transaction_def Let_def bindM_return_iff returnM_apply staged_def)
    ultimately show ?thesis by (intro validI) (auto dest: valid_InrD valid_InlD)
  qed
  have fin: "valid (verified e v) (bindM (fault VersionRenamed) (\<lambda>_. returnM tx)) (\<lambda>_. verified e v) (selected_authentic e)" for tx
    by (rule step_verified [OF g touches_fault]) (rule valid_return)
  show ?thesis
    unfolding stage_version_def
    apply (rule valid_bind [OF create])
    subgoal for tx
      apply (cases "staged e tx", simp)
       apply (rule step_selected [OF g touches_repairs [OF touches_write_version [OF lay]]], assumption)
       apply (rule step_selected [OF g touches_fault], rule valid_bind [OF verify], assumption)
       apply (rule quiet, rule touches_fault, rule quiet, rule touches_sync_staging, rule quiet, rule touches_fault)
       apply (rule quiet, (intro touches_intros)[1], rule quiet, rule touches_basic)
       apply (rule valid_bind [OF move], assumption, rule fin)
      apply (simp add: valid_def)
      done
    done
qed

subsection \<open>The operations\<close>

lemma touches_journal:
  "touches (repairs e) (write_pending e p)" "touches (repairs e) (write_install_state e s)" "touches (repairs e) (remove_pending e)"
proof -
  have temp: "temp_paths q \<subseteq> repairs e" for q
    using temp_paths_like by (auto simp: repairs_def scaffold_def)
  show "touches (repairs e) (write_pending e p)"
    by (rule touches_mono [OF pending.store_touches]) (use temp in \<open>auto simp: repairs_def\<close>)
  show "touches (repairs e) (write_install_state e s)"
    by (rule touches_mono [OF installed.store_touches]) (use temp in \<open>auto simp: repairs_def\<close>)
  show "touches (repairs e) (remove_pending e)"
    unfolding touches_def repairs_def using remove_pending_cases by (metis insertCI prod.collapse)
qed

lemma activate_authentic:
  fixes e :: "('v, 'z) env_scheme"
  assumes g: "guarded e" and tx: "\<forall>t. tx = Some t \<longrightarrow> staged e t"
  shows "valid (verified e to) (activate_pointer_and_state e probe from to i prior tid tx)
    (\<lambda>_. selected_authentic e) (selected_authentic e)"
proof -
  note lay = guardedD(3) [OF g] and keep = step_verified [OF g]
  have quiet: "touches (repairs e) (fault p)" "touches (repairs e) (random_id e)" for p
    by (intro touches_intros)+
  show ?thesis
    unfolding activate_pointer_and_state_def Let_def
    apply (rule keep, (intro touches_intros)[1], rule keep, rule quiet, rule keep, rule quiet, rule keep, rule touches_journal)
    apply (rule keep, rule quiet, rule step_switch [OF g], rule keep, rule quiet)
    apply (rule keep, rule touches_repairs [OF touches_launcher_for [OF lay]], rule keep, rule touches_journal)
    apply (rule keep, rule quiet, rule keep, rule touches_journal, rule keep, rule quiet)
    apply (rule keep, (intro touches_option touches_basic touches_repairs touches_remove_transaction; use tx staged_scaffold(5) in blast)[1])
    apply (rule keep, rule touches_sync_affected, rule keep, rule quiet)
    apply (rule valid_pre [OF valid_return], rule verified_selected, assumption)
    done
qed

lemma choose_stage_authentic:
  fixes e :: "('v, 'z) env_scheme"
  assumes g: "guarded e"
  shows "valid (selected_authentic e) (if existing then bindM (reuse_version e md inst retained i v) (\<lambda>_. returnM None)
            else bindM (stage_version e md archive i t b v) (\<lambda>tx. returnM (Some tx)))
    (\<lambda>tx w. verified e v w \<and> (\<forall>t. tx = Some t \<longrightarrow> staged e t)) (selected_authentic e)"
proof (rule valid_if)
  note lay = guardedD(3) [OF g]
  let ?Q = "\<lambda>tx w. verified e v w \<and> (\<forall>t. tx = Some t \<longrightarrow> staged e t)"
  have "valid (selected_authentic e) (reuse_version e md inst retained i v) (\<lambda>_. verified e v) (selected_authentic e)"
  proof -
    have rest: "touches (repairs e) (whenM (h_windows (e_host e)) (bindM (case retained of
        Some l \<Rightarrow> returnM (lo_size l, lo_sha256 l) | None \<Rightarrow> bindM (liftE r) g) (\<lambda>(n, digest).
          bindM (liftIO (ensure_regular_file (e_host e) (e_command e))) (\<lambda>_. verify_file_digest e (e_command e) n digest))))"
      if "\<And>l. touches (repairs e) (g l)" for r and g :: "launcher_metadata \<Rightarrow> ('v, u64 \<times> string) inst"
      using that by (intro touches_intros; auto intro!: touches_intros split: prod.splits)
    have "watches e (verified e v)" unfolding verified_def by (rule watches_version)
    note hold = valid_post [OF step_repairs [OF g _ this], where E' = "selected_authentic e"]
    show ?thesis
      unfolding reuse_version_def
      by (rule step_verify [OF g], rule step_verified [OF g touches_same_metadata], rule hold)
        (auto intro!: touches_intros rest verified_selected split: option.splits)
  qed
  then show "valid (selected_authentic e) (bindM (reuse_version e md inst retained i v) (\<lambda>_. returnM None)) ?Q (selected_authentic e)"
    by (rule valid_bind) (simp add: valid_def returnM_apply)
  have "valid (selected_authentic e) (stage_version e md archive i t b v)
      (\<lambda>tx w. verified e v w \<and> staged e tx) (selected_authentic e)"
    using valid_InrD [OF stage_authentic [OF g]] valid_InlD [OF stage_authentic [OF g]] stage_version_result
    by (intro validI) (blast | fast)+
  then show "valid (selected_authentic e) (bindM (stage_version e md archive i t b v) (\<lambda>tx. returnM (Some tx))) ?Q (selected_authentic e)"
    by (rule valid_bind) (simp add: valid_def returnM_apply)
qed

lemma activate_new_authentic:
  fixes e :: "('v, 'z) env_scheme"
  assumes g: "guarded e"
  shows "valid (selected_authentic e) (activate_new e probe md archive t v inst from retained)
    (\<lambda>_. selected_authentic e) (selected_authentic e)"
proof -
  note lay = guardedD(3) [OF g] and keep = step_selected [OF g]
  have fin: "valid (\<lambda>w. verified e v w \<and> (\<forall>t. tx = Some t \<longrightarrow> staged e t))
      (bindM (ensure_command_parent e) (\<lambda>_. bindM (activate_pointer_and_state e probe from v i prior tid tx)
        (\<lambda>_. returnM r))) (\<lambda>_. selected_authentic e) (selected_authentic e)" for tx i prior tid r
  proof (cases "\<forall>t. tx = Some t \<longrightarrow> staged e t")
    case True
    have "valid (verified e v) (bindM (ensure_command_parent e) (\<lambda>_. bindM (activate_pointer_and_state e probe from v i prior tid tx)
        (\<lambda>_. returnM r))) (\<lambda>_. selected_authentic e) (selected_authentic e)"
      by (rule step_verified [OF g touches_repairs [OF touches_command_parent [OF lay]]],
          rule valid_bind [OF activate_authentic [OF g True]], rule valid_return)
    then show ?thesis by (rule valid_pre) simp
  qed (auto simp: valid_def)
  show ?thesis
    unfolding activate_new_def Let_def
    apply (rule keep, rule touches_repairs [OF touches_private_layout [OF lay]], rule keep, rule touches_repairs [OF touches_choose_id [OF lay]])
    apply (rule keep, (intro touches_intros)[1], rule keep, (intro touches_intros touches_repairs [OF touches_cleanup_staging] lay)[1])
    apply (rule keep, (intro touches_intros touches_repairs [OF touches_cleanup_staging] lay)[1])
    apply (rule keep, rule touches_repairs [OF touches_command_owned [OF lay]], rule keep, (intro touches_intros)[1])
    apply (rule valid_bind [OF choose_stage_authentic [OF g]], rule fin)
    done
qed

lemma not_newer_authentic:
  fixes e :: "('v, 'z) env_scheme"
  assumes "guarded e"
  shows "valid (selected_authentic e) (not_newer e md inst active v) (\<lambda>_. selected_authentic e) (selected_authentic e)"
proof -
  note lay = guardedD(3) [OF assms] and keep = step_selected [OF assms]
  show ?thesis
    unfolding not_newer_def
    by (rule valid_if, rule keep, rule touches_repairs [OF touches_verify_final [OF lay]], rule keep, rule touches_same_metadata,
        rule keep, rule touches_repairs [OF touches_command_owned [OF lay]], rule valid_return, rule valid_throw)
qed

lemma activate_download_locked_authentic:
  fixes e :: "('v, 'z) env_scheme"
  assumes g: "guarded e"
  shows "valid (selected_authentic e) (activate_download_locked e probe md archive v)
    (\<lambda>_. selected_authentic e) (selected_authentic e)"
proof -
  note lay = guardedD(3) [OF g] and keep = step_selected [OF g]
  show ?thesis
    unfolding activate_download_locked_def
    apply (rule keep, (intro touches_intros)[1], rule keep, (intro touches_intros)[1], rule keep, (intro touches_intros)[1])
    apply (rule keep, rule touches_verify_metadata, rule keep, rule touches_install_state)
    apply (rule keep, (intro touches_intros)[1], rule keep, (intro touches_intros)[1])
    apply (rule keep, (intro touches_intros touches_repairs [OF touches_retained] lay)[1])
    apply (auto split: option.splits intro!: activate_new_authentic not_newer_authentic g)
    done
qed

lemma activate_existing_authentic:
  fixes e :: "('v, 'z) env_scheme"
  assumes g: "guarded e"
  shows "valid (selected_authentic e) (activate_existing e probe v) (\<lambda>_. selected_authentic e) (selected_authentic e)"
proof -
  note lay = guardedD(3) [OF g] and keep = step_selected [OF g] and hold = step_verified [OF g]
  show ?thesis
    unfolding activate_existing_def activate_existing_locked_def
    apply (rule keep, rule touches_repairs [OF touches_lock(1) [OF lay]], rule keep, rule touches_install_state)
    apply (rule keep, (intro touches_intros)[1], rule keep, (intro touches_intros)[1], rule keep, (intro touches_intros)[1])
    apply (rule keep, (intro touches_intros)[1], rule keep, rule touches_repairs [OF touches_command_owned [OF lay]])
    apply (rule step_verify [OF g], rule hold, rule touches_installed_launcher, rule hold, rule touches_fault)
    apply (rule hold, rule touches_repairs [OF touches_command_parent [OF lay]], rule activate_authentic [OF g])
    apply simp
    done
qed

text \<open>Recovery writes the journal and \<^verbatim>\<open>install.json\<close>, and neither the selector nor a version.\<close>

lemma touches_recover:
  fixes e :: "('v, 'z) env_scheme"
  assumes lay: "layout_ok e"
  shows "touches (repairs e) (recover_if_managed e)"
proof -
  have intros: "touches (repairs e) (ensure_private_layout e)" "touches (repairs e) (lock_existing e)"
    "touches (repairs e) (liftIO (ensure_private_dir (e_host e) (e_root e)))"
    "touches (repairs e) (cleanup_staging e)" "touches (repairs e) (verify_final_version e v i)"
    "touches (repairs e) (launcher_ownership_for e v prior)" for v i prior
    by (intro touches_repairs touches_private_layout touches_lock touches_private_dirs touches_liftIO touches_cleanup_staging
        touches_verify_final touches_launcher_for lay)+
  note intros = intros touches_journal touches_intros
  have finish: "touches (repairs e) (finish_pending e)"
    unfolding finish_pending_def by (intro intros)
  have pending: "touches (repairs e) (recover_pending e pend inst pointer)" for pend inst pointer
    unfolding recover_pending_def by (intro intros finish)
  have rec: "touches (repairs e) (reconcile e inst v)" for inst v
    unfolding reconcile_def Let_def by (intro intros)
  have locked: "touches (repairs e) (recover_locked e)"
    unfolding recover_locked_def read_pending_def by (intro intros pending rec)
  show ?thesis
    unfolding recover_if_managed_def recover_existing_root_def by (intro intros locked)
qed

lemma activate_download_authentic:
  fixes e :: "('v, 'z) env_scheme"
  assumes g: "guarded e"
  shows "valid (selected_authentic e) (activate_download e probe md archive v)
    (\<lambda>_. selected_authentic e) (selected_authentic e)"
proof -
  note lay = guardedD(3) [OF g] and keep = step_selected [OF g]
  show ?thesis
    unfolding activate_download_def
    apply (rule keep, rule touches_recover [OF lay], rule keep, (intro touches_intros)[1], rule keep, (intro touches_intros)[1])
    apply (rule keep, (intro touches_intros touches_repairs [OF touches_prove_retained] lay)[1])
    apply (rule keep, rule touches_repairs [OF touches_lock(1) [OF lay]], rule activate_download_locked_authentic [OF g])
    done
qed

lemma operations_authentic:
  fixes e :: "('v, 'z) env_scheme"
  assumes g: "guarded e"
  shows "valid (selected_authentic e) (install_version e probe v) (\<lambda>_. selected_authentic e) (selected_authentic e)"
    and "valid (selected_authentic e) (install e probe) (\<lambda>_. selected_authentic e) (selected_authentic e)"
    and "valid (selected_authentic e) (update e probe) (\<lambda>_. selected_authentic e) (selected_authentic e)"
    and "valid (selected_authentic e) (rollback e probe) (\<lambda>_. selected_authentic e) (selected_authentic e)"
    and "valid (selected_authentic e) (rollback_to e probe v) (\<lambda>_. selected_authentic e) (selected_authentic e)"
    and "valid (selected_authentic e) (check_latest e) (\<lambda>_. selected_authentic e) (selected_authentic e)"
    and "valid (selected_authentic e) (recover_if_managed e) (\<lambda>_. selected_authentic e) (selected_authentic e)"
proof -
  note lay = guardedD(3) [OF g]
  note keep = step_selected [OF g, where Q = "\<lambda>_. selected_authentic e"]
    step_selected [OF g touches_recover [OF lay], where Q = "\<lambda>_. selected_authentic e"]
  note managed = touches_repairs [OF touches_require_managed [OF lay]]
  note go = activate_download_authentic [OF g] activate_existing_authentic [OF g] valid_return valid_throw
  show version: "valid (selected_authentic e) (install_version e probe v) (\<lambda>_. selected_authentic e) (selected_authentic e)"
    for v
    unfolding install_version_def
    by (rule keep(2), rule keep(1), rule touches_metadata, (rule keep(1), (intro touches_intros)[1])+, rule go)
  show "valid (selected_authentic e) (install e probe) (\<lambda>_. selected_authentic e) (selected_authentic e)"
    unfolding install_def by (rule keep(1), (intro touches_intros)[1], rule version)
  show "valid (selected_authentic e) (update e probe) (\<lambda>_. selected_authentic e) (selected_authentic e)"
    unfolding update_def
    by (rule keep(2), rule keep(1), rule managed, rule keep(1), rule touches_metadata, (rule valid_if, rule go)+,
        (rule keep(1), (intro touches_intros)[1])+, rule go)
  show "valid (selected_authentic e) (rollback e probe) (\<lambda>_. selected_authentic e) (selected_authentic e)"
    unfolding rollback_def
    by (rule keep(2), rule keep(1), rule managed, (rule keep(1), (intro touches_intros)[1])+, rule go)
  show "valid (selected_authentic e) (rollback_to e probe v) (\<lambda>_. selected_authentic e) (selected_authentic e)"
    unfolding rollback_to_def
    by (rule keep(2), rule keep(1), rule managed, (rule keep(1), (intro touches_intros)[1])+, rule go)
  show "valid (selected_authentic e) (check_latest e) (\<lambda>_. selected_authentic e) (selected_authentic e)"
    unfolding check_latest_def
    by (rule keep(2), rule keep(1), rule touches_metadata, (rule keep(1), (intro touches_intros)[1])+, rule go)
  show "valid (selected_authentic e) (recover_if_managed e) (\<lambda>_. selected_authentic e) (selected_authentic e)"
    by (rule step_repairs [OF g touches_recover [OF lay] watches_selected])
qed

lemma run_operation_authentic:
  assumes "guarded e" and "selected_authentic e w"
  shows "selected_authentic e (run_operation e op w)"
  using operations_authentic [OF assms(1), THEN valid_snd, OF assms(2)] by (cases op) simp_all

end
