(* ===== verification/Installation_Properties.thy ===== *)
theory Installation_Properties
  imports Sample_Installation Authenticity
begin

text \<open>
  What the installation engine guarantees: crash safety of every sequence of operations, the
  direction in which each operation may move the selector, the phases of an activation, the outcome
  of recovery, and the durable cells these rest on.
\<close>

subsection \<open>Every history\<close>

text \<open>C1: start with nothing installed and run the public operations in any order, each under any
  schedule of failing and interrupted system calls, any server and any other program that leaves the
  three cells alone: the selector, the journal and \<^verbatim>\<open>install.json\<close> always agree, or the journal
  explains the difference, so that recovery can finish or undo the interrupted activation.\<close>

theorem every_history_recoverable:
  assumes "history e w" and "env_ok e"
  shows "recoverable e (view e w)"
  using assms by (rule history_recoverable)

theorem every_history_recoverable_witness:
  "recoverable (sample_env [0, 1]) (view (sample_env [0, 1])
     (run_operation (sample_env [0, 1]) (Install sample_probe) (sample_world (replicate 40 IoOk @ [IoCrash]))))"
  by (rule every_history_recoverable [OF history.step [OF history.fresh [OF sample_world_view] sample_world_rooted] sample_env_ok])

text \<open>C4: an operation, however it ends, leaves the selector alone or moves it to a version it may
  select: an installation or update to none that is at most the selected one, a rollback to an older
  one, a check or a recovery to none at all; and the state stays recoverable.\<close>

theorem selector_moves_only_as_asked:
  assumes "env_ok e" and "recoverable e (view e w)" and "rooted e w"
  shows "let before = lookup w (selector_path e); after = lookup (run_operation e op w) (selector_path e)
    in recoverable e (view e (run_operation e op w))
       \<and> (after = before \<or> (\<exists>v. may_select e op before v \<and> points_to e v after))"
  using run_operation_fate [OF assms, of op] by (simp add: fate_def view_def Let_def)

theorem selector_moves_only_as_asked_witness:
  "let e = sample_env [0]; w = sample_world [IoOk, IoFail 3] in
     recoverable e (view e (run_operation e (RollbackTo 0 sample_probe) w))"
  using selector_moves_only_as_asked [of "sample_env [0]" "sample_world [IoOk, IoFail 3]" "RollbackTo 0 sample_probe"]
  by (simp add: Let_def sample_machine)

subsection \<open>One activation\<close>

text \<open>C5: an activation refines five atomic phases: whatever system call fails or is the last one the
  process makes, the three cells are in one of the phases (nothing done, journaled, selector switched,
  \<^verbatim>\<open>install.json\<close> written, journal removed), and it returns normally only from the last one.\<close>

theorem activation_refines_phases:
  assumes "env_ok e" and "\<forall>t. tx = Some t \<longrightarrow> prefix (staging_dir e) (tx_dir t)"
  shows "case activate_pointer_and_state e probe prev to i prior tid tx w of
      (Inr a, w') \<Rightarrow> ar_version a = to \<and> in_phase e (view e w) prev to i Settled (view e w')
    | (Inl k, w') \<Rightarrow> some_phase e (view e w) prev to i (view e w')"
proof (cases "activate_pointer_and_state e probe prev to i prior tid tx w")
  case (Pair r w')
  have "in_phase e (view e w) prev to i Untouched (view e w)"
    by (simp add: in_phase_def Let_def split: prod.splits)
  note phases = activation_phases [OF assms, of "view e w" prev to i probe prior tid]
  show ?thesis
  proof (cases r)
    case (Inl k)
    with Pair valid_InlD [OF phases \<open>in_phase _ _ _ _ _ _ _\<close>] show ?thesis by simp
  next
    case (Inr a)
    with Pair valid_InrD [OF phases \<open>in_phase _ _ _ _ _ _ _\<close>] activate_result [of e probe prev to i prior tid tx w a w']
    show ?thesis by simp
  qed
qed

theorem activation_refines_phases_witness:
  "some_phase (sample_env []) (view (sample_env []) (sample_world [IoCrash])) None 3 ''i''
     (view (sample_env []) (snd (activate_pointer_and_state (sample_env []) sample_probe None 3 ''i'' None None None
        (sample_world [IoCrash]))))
   \<or> in_phase (sample_env []) (view (sample_env []) (sample_world [IoCrash])) None 3 ''i'' Settled
     (view (sample_env []) (snd (activate_pointer_and_state (sample_env []) sample_probe None 3 ''i'' None None None
        (sample_world [IoCrash]))))"
  using activation_refines_phases [OF sample_env_ok [of "[]"], where tx = None and prev = None and to = 3 and i = "''i''" and prior = None
      and tid = None and w = "sample_world [IoCrash]" and probe = sample_probe]
  by (auto split: prod.splits sum.splits)

subsection \<open>Recovery\<close>

text \<open>C7: recovery never moves the selector. When it returns, no journal is left and \<^verbatim>\<open>install.json\<close>
  describes the selected version; when it fails, the state is as recoverable as before, so it can be
  run again.\<close>

theorem recovery_settles:
  assumes "env_ok e" and "recoverable e (view e w)" and "rooted e w"
  shows "case recover_if_managed e w of
      (Inr managed, w') \<Rightarrow> lookup w' (selector_path e) = lookup w (selector_path e) \<and> settled e (view e w')
    | (Inl k, w') \<Rightarrow> lookup w' (selector_path e) = lookup w (selector_path e) \<and> recoverable e (view e w')"
proof -
  obtain s x j where v: "view e w = (s, x, j)" by (rule prod_cases3)
  have s: "s = lookup w (selector_path e)" using v by (simp add: view_def)
  from recover_if_managed_view [OF assms(1) assms(2) [unfolded v], where P = "\<lambda>_. False"]
  have "case recover_if_managed e w of (Inl k, w') \<Rightarrow> fate e (\<lambda>_. False) (s, x, j) w'
      | (Inr a, w') \<Rightarrow> fst (view e w') = s \<and> settled e (view e w')"
    using v assms(3) by (auto simp: valid_def)
  then show ?thesis
    by (auto simp: s fate_def view_def split: prod.splits sum.splits)
qed

theorem recovery_settles_witness:
  "lookup (snd (recover_if_managed (sample_env []) (sample_world [IoOk]))) [RootDir, Normal ''bin'', Normal ''demo''] = None"
  using recovery_settles [of "sample_env []" "sample_world [IoOk]"]
  by (auto simp: selector_path_def sample_machine split: prod.splits sum.splits)

subsection \<open>What is selected\<close>

text \<open>C2: whatever the server sends, whichever system call fails or is the last one, the selector never
  points to a version whose directory does not hold a manifest signed by a trusted key, its
  signatures, and a payload of the size and digest that manifest publishes for this host.\<close>

theorem selected_version_stays_authentic:
  assumes "guarded e" and "selected_authentic e w"
  shows "selected_authentic e (run_operation e op w)"
  using assms by (rule run_operation_authentic)

lemma sample_platform: "platform_ok (sample_env vs)"
  by (simp add: platform_ok_def temp_like_def file_name_def host_payload_name_def sample_app_def sample_env_def
      sample_host_def is_windows_def payload_name_def)

lemma sample_guarded: "guarded (sample_env vs)"
  by (simp add: guarded_def sample_env_ok sample_platform)

lemma sample_selected_authentic: "selected_authentic (sample_env vs) (sample_world ss)"
  by (auto simp: selected_authentic_def selector_path_def sample_machine dest: points_to_some)

theorem selected_version_stays_authentic_witness:
  "selected_authentic (sample_env [0, 1]) (run_operation (sample_env [0, 1]) (Update sample_probe)
     (run_operation (sample_env [0, 1]) (InstallVersion 0 sample_probe) (sample_world (replicate 60 IoOk @ [IoFail 5]))))"
  by (rule selected_version_stays_authentic [OF sample_guarded run_operation_authentic [OF sample_guarded sample_selected_authentic]])

text \<open>C6: an update that returns normally leaves nothing to recover: the selector points to the version
  it reports, \<^verbatim>\<open>install.json\<close> names that version, no journal is left, the version is newer than
  the one selected before or the same one, and its directory is authentic.\<close>

theorem update_reports_selected:
  assumes "guarded e" and "recoverable e (view e w)" and "rooted e w" and "selected_authentic e w"
  shows "case update e probe w of
      (Inr r, w') \<Rightarrow> points_to e (ar_version r) (lookup w' (selector_path e)) \<and> settled e (view e w')
        \<and> (lookup w' (selector_path e) = lookup w (selector_path e)
           \<or> climbs e (lookup w (selector_path e)) (ar_version r))
        \<and> authentic e (ar_version r) (files_at e (version_dir e (ar_version r)) w')
    | (Inl k, w') \<Rightarrow> recoverable e (view e w') \<and> selected_authentic e w'"
proof (cases "update e probe w")
  case (Pair r w')
  note ok = guardedD(1) [OF assms(1)]
  have pre: "view e w = view e w \<and> rooted e w" using assms(3) by simp
  show ?thesis
  proof (cases r)
    case (Inl k)
    with Pair valid_InlD [OF update_fate [OF ok assms(2)] pre] valid_InlD [OF operations_authentic(3) [OF assms(1)] assms(4)]
    show ?thesis by (simp add: fate_def)
  next
    case (Inr a)
    with Pair valid_InrD [OF update_fate [OF ok assms(2)] pre] valid_InrD [OF operations_authentic(3) [OF assms(1)] assms(4)]
    have "reached e (climbs e (fst (view e w))) (view e w) a w'" "selected_authentic e w'" by blast+
    then show ?thesis
      using Pair Inr points_to_unique [OF env_okD(3) [OF ok]]
      by (auto simp: reached_def fate_def view_def selected_authentic_def)
  qed
qed

theorem update_reports_selected_witness:
  "let e = sample_env [0, 1]; w = sample_world [IoOk] in
     case update e sample_probe w of
       (Inr r, w') \<Rightarrow> authentic e (ar_version r) (files_at e (version_dir e (ar_version r)) w')
     | (Inl k, w') \<Rightarrow> recoverable e (view e w') \<and> selected_authentic e w'"
  using update_reports_selected [OF sample_guarded sample_world_recoverable sample_world_rooted sample_selected_authentic,
    of "[0, 1]" "[IoOk]" sample_probe]
  by (auto simp: Let_def split: prod.splits sum.splits)

end
