(* ===== verification/Tool_Properties.thy ===== *)
theory Tool_Properties
  imports Tool_Commands Sample_Installation
begin

text \<open>
  Properties of the release tool: what its argument parser returns, that key generation never
  replaces a file, that what it signs is verified with the key document it wrote, what a manifest
  it generates describes, and what a release it has verified guarantees to a client.
\<close>

subsection \<open>Which files a command may change\<close>

lemma touches_toolIO [touches_intros]: "touches S m \<Longrightarrow> touches S (toolIO message m)"
  unfolding toolIO_def by (rule touches_map_err)

lemma touches_toolR [touches_intros]: "touches S (toolR message r)"
  unfolding toolR_def by (rule touches_basic)

lemma touches_path_reads [touches_intros]:
  "touches S (path_exists h p)" "touches S (path_is kind h p)" "touches S (read_path h p)" "touches S (list_directory h p)"
  unfolding path_exists_def path_is_def read_path_def list_directory_def by (intro touches_intros)+

lemma touches_ensure_new [touches_intros]: "touches S (ensure_new_path h p)" "touches S (ensure_parent h p)"
  unfolding ensure_new_path_def ensure_parent_def Let_def by (intro touches_intros)+

lemma touches_write_new [touches_intros]: "os_path h name \<in> S \<Longrightarrow> touches S (write_new h name b is_private)"
  unfolding write_new_def Let_def by (intro touches_intros)

lemma toolR_Inr [simp]: "toolR message r w = (Inr x, v) \<longleftrightarrow> r = Inr x \<and> v = w"
  by (auto simp: toolR_def liftE_apply split: sum.splits)

lemma toolIO_Inr [simp]: "toolIO message m w = (Inr x, v) \<longleftrightarrow> m w = (Inr x, v)"
  by (simp add: toolIO_def)

subsection \<open>Key generation\<close>

lemma set_permissions_Inr:
  "set_permissions p mode w = (Inr u, w') \<Longrightarrow> lookup w p = Some (RegularFile a b)
   \<Longrightarrow> lookup w' = (lookup w)(p \<mapsto> RegularFile (a\<lparr>at_mode := mode\<rparr>) b)"
  unfolding set_permissions_def by (erule io_cases) (auto simp: fun_eq_iff split: option.splits node.splits)

lemma write_new_outcome:
  "valid (\<lambda>w. lookup w = f) (write_new h name b is_private)
     (\<lambda>_ w. f (os_path h name) = None \<and> (\<exists>a. lookup w = f(os_path h name \<mapsto> RegularFile a b)
        \<and> (is_private \<longrightarrow> at_mode a AND 0x3F = 0)))
     (\<lambda>w. lookup w = f \<or> f (os_path h name) = None \<and> (\<exists>n. lookup w = f(os_path h name := n)))"
proof (rule validI)
  let ?p = "os_path h name"
  fix w u w' assume f: "lookup w = f" and w: "write_new h name b is_private w = (Inr u, w')"
  obtain v1 v2 v3 where
    c: "create_new h ?p (if is_private then 0x180 else 0x1A4) w = (Inr (), v1)"
    and wr: "write_all ?p b v1 = (Inr (), v2)" and sy: "sync_all v2 = (Inr (), v3)"
    and rest: "(if is_private then
        bindM (toolIO ''stat'' (symlink_metadata ?p)) (\<lambda>_.
        bindM (toolIO ''protect'' (set_permissions ?p 0x180)) (\<lambda>_.
        bindM (toolIO ''stat'' (open_existing ?p)) (\<lambda>n.
        ensureM (node_mode n AND 0x3F = 0) ''private key is not mode 0600'')))
      else returnM ()) v3 = (Inr u, w')"
    using w by (auto simp: write_new_def Let_def bindM_return_iff toolIO_def)
  from create_new_Inr [OF c] f have new: "f ?p = None"
    and l1: "lookup v1 = f(?p \<mapsto> RegularFile (new_attr h (if is_private then 0x180 else 0x1A4)) [])" by auto
  from write_all_Inr [OF wr] l1 have "lookup v2 = f(?p \<mapsto> RegularFile (new_attr h (if is_private then 0x180 else 0x1A4)) b)"
    by auto
  moreover have "lookup v3 = lookup v2" using reads_lookup [OF touches_reads(4) sy] .
  ultimately have "\<exists>a. lookup v3 = f(?p \<mapsto> RegularFile a b)" by auto
  then obtain a where l3: "lookup v3 = f(?p \<mapsto> RegularFile a b)" by blast
  have "\<exists>a. lookup w' = f(?p \<mapsto> RegularFile a b) \<and> at_mode a AND 0x3F = 0" if is_private
  proof -
    from rest that obtain n v4 v5 m where st: "symlink_metadata ?p v3 = (Inr n, v4)"
      and pe: "set_permissions ?p 0x180 v4 = (Inr (), v5)" and op: "open_existing ?p v5 = (Inr m, w')"
      by (auto simp: bindM_return_iff toolIO_def ensureM_apply split: if_splits)
    have "lookup v4 = lookup v3" using symlink_metadata_Inr [OF st] by simp
    with l3 have "lookup v5 = f(?p \<mapsto> RegularFile (a\<lparr>at_mode := 0x180\<rparr>) b)"
      using set_permissions_Inr [OF pe, of a b] by simp
    moreover have "lookup w' = lookup v5" using reads_lookup [OF touches_reads(3) op] .
    ultimately show ?thesis by (intro exI [of _ "a\<lparr>at_mode := 0x180\<rparr>"]) simp
  qed
  with rest l3 new show "f ?p = None \<and> (\<exists>a. lookup w' = f(?p \<mapsto> RegularFile a b) \<and> (is_private \<longrightarrow> at_mode a AND 0x3F = 0))"
    by (cases is_private) (auto simp: monad_simps)
next
  let ?p = "os_path h name"
  fix w k w' assume f: "lookup w = f" and w: "write_new h name b is_private w = (Inl k, w')"
  have t: "touches {?p} (write_new h name b is_private)" by (rule touches_write_new) simp
  show "lookup w' = f \<or> f ?p = None \<and> (\<exists>n. lookup w' = f(?p := n))"
  proof (cases "fst (create_new h ?p (if is_private then 0x180 else 0x1A4) w)")
    case (Inl e)
    then obtain v where c: "create_new h ?p (if is_private then 0x180 else 0x1A4) w = (Inl e, v)" by (metis prod.collapse)
    with w have "w' = v" by (simp add: write_new_def Let_def bindM_throw_iff toolIO_def)
    with create_new_Inl [OF c] f show ?thesis by simp
  next
    case (Inr u)
    then obtain v where "create_new h ?p (if is_private then 0x180 else 0x1A4) w = (Inr u, v)" by (metis prod.collapse)
    from create_new_Inr [OF this] f have "f ?p = None" by simp
    moreover have "lookup w' = f(?p := lookup w' ?p)" using touchesD [OF t w] f by (auto simp: fun_eq_iff)
    ultimately show ?thesis by blast
  qed
qed

lemma write_new_touches: "touches {os_path h name} (write_new h name b is_private)"
  by (rule touches_write_new) simp

definition fresh_key_files ::
  "('v, 'z) tlib_scheme \<Rightarrow> arguments \<Rightarrow> (path \<Rightarrow> node option) \<Rightarrow> (path \<Rightarrow> node option) \<Rightarrow> bool" where
  "fresh_key_files e a f g \<longleftrightarrow> (\<exists>i x y secret ap ab.
     args_one a ''id'' = Inr i \<and> args_one a ''private-key'' = Inr x \<and> args_one a ''public-key'' = Inr y
     \<and> validate_key_id i = Inr () \<and> f (os_path (t_host e) (path_of x)) = None \<and> f (os_path (t_host e) (path_of y)) = None
     \<and> os_path (t_host e) (path_of x) \<noteq> os_path (t_host e) (path_of y)
     \<and> g = f(os_path (t_host e) (path_of x) \<mapsto> RegularFile ap (base64_encode e secret @ [CHR 0x0A]),
             os_path (t_host e) (path_of y) \<mapsto> RegularFile ab (json_of_key_set e (key_document e i secret) @ [CHR 0x0A]))
     \<and> at_mode ap AND 0x3F = 0)"

definition grows_at :: "path set \<Rightarrow> (path \<Rightarrow> node option) \<Rightarrow> (path \<Rightarrow> node option) \<Rightarrow> bool" where
  "grows_at S f g \<longleftrightarrow> (\<forall>q. g q = f q \<or> q \<in> S \<and> f q = None)"

text \<open>The two files are written one after the other; when the second fails the first is removed.\<close>

lemma write_pair:
  assumes w: "write_key_pair h x b y c w = (r, w')"
  shows "grows_at {os_path h x, os_path h y} (lookup w) (lookup w')"
    and "r = Inr u \<Longrightarrow> lookup w (os_path h x) = None \<and> lookup w (os_path h y) = None \<and> os_path h x \<noteq> os_path h y
       \<and> (\<exists>ap ab. lookup w' = (lookup w)(os_path h x \<mapsto> RegularFile ap b, os_path h y \<mapsto> RegularFile ab c)
            \<and> at_mode ap AND 0x3F = 0)"
proof -
  let ?x = "os_path h x" and ?y = "os_path h y"
  obtain r1 w1 where p: "write_new h x b True w = (r1, w1)" by fastforce
  have both: "grows_at {?x, ?y} (lookup w) (lookup w') \<and> (\<forall>u. r = Inr u \<longrightarrow>
       lookup w ?x = None \<and> lookup w ?y = None \<and> ?x \<noteq> ?y
       \<and> (\<exists>ap ab. lookup w' = (lookup w)(?x \<mapsto> RegularFile ap b, ?y \<mapsto> RegularFile ab c) \<and> at_mode ap AND 0x3F = 0))"
  proof (cases r1)
    case (Inl k)
    with w p have "r = Inl k \<and> w' = w1" by (simp add: write_key_pair_def bindM_def)
    moreover have "lookup w1 = lookup w \<or> lookup w ?x = None \<and> (\<exists>n. lookup w1 = (lookup w)(?x := n))"
      using valid_InlD [OF write_new_outcome [of "lookup w" h x b True] refl p [unfolded Inl]] .
    ultimately show ?thesis by (auto simp: grows_at_def split: if_splits)
  next
    case (Inr u1)
    then obtain ap where new: "lookup w ?x = None" and l1: "lookup w1 = (lookup w)(?x \<mapsto> RegularFile ap b)"
      and mode: "at_mode ap AND 0x3F = 0"
      using valid_InrD [OF write_new_outcome [of "lookup w" h x b True] refl p [unfolded Inr]] by auto
    obtain r2 w2 where q: "write_new h y c False w1 = (r2, w2)" by fastforce
    show ?thesis
    proof (cases r2)
      case (Inr u2)
      with w p \<open>r1 = Inr u1\<close> q have end_ok: "r = Inr ()" "w' = w2" by (simp_all add: write_key_pair_def bindM_def tryM_def returnM_apply)
      obtain ab where y: "lookup w1 ?y = None" and l2: "lookup w2 = (lookup w1)(?y \<mapsto> RegularFile ab c)"
        using valid_InrD [OF write_new_outcome [of "lookup w1" h y c False] refl q [unfolded Inr]] by auto
      from y l1 have "?x \<noteq> ?y" "lookup w ?y = None" by (auto split: if_splits)
      then show ?thesis
        using new l1 l2 mode end_ok by (fastforce simp: grows_at_def)
    next
      case (Inl k)
      obtain r3 w3 where rm: "remove_file ?x w2 = (r3, w3)" by fastforce
      with w p \<open>r1 = Inr u1\<close> q Inl have end_err: "r = Inl k" "w' = w3" by (simp_all add: write_key_pair_def bindM_def tryM_def throwM_apply)
      have l2: "lookup w2 = lookup w1 \<or> lookup w1 ?y = None \<and> (\<exists>n. lookup w2 = (lookup w1)(?y := n))"
        using valid_InlD [OF write_new_outcome [of "lookup w1" h y c False] refl q [unfolded Inl]] .
      have l3: "lookup w3 = lookup w2 \<or> lookup w3 = (lookup w2)(?x := None)"
        using rm remove_file_Inr [of ?x w2 _ w3] remove_file_Inl [of ?x w2 _ w3] by (cases r3) auto
      from l3 l2 l1 new end_err show ?thesis by (auto simp: grows_at_def split: if_splits)
    qed
  qed
  show "grows_at {?x, ?y} (lookup w) (lookup w')" using both by blast
  show "r = Inr u \<Longrightarrow> lookup w ?x = None \<and> lookup w ?y = None \<and> ?x \<noteq> ?y
       \<and> (\<exists>ap ab. lookup w' = (lookup w)(?x \<mapsto> RegularFile ap b, ?y \<mapsto> RegularFile ab c) \<and> at_mode ap AND 0x3F = 0)"
    using both by blast
qed

lemma valid_bind_reads:
  assumes "touches {} m" and "\<And>a. valid (\<lambda>w. lookup w = f) (g a) Q E" and "\<And>w. lookup w = f \<Longrightarrow> E w"
  shows "valid (\<lambda>w. lookup w = f) (bindM m g) Q E"
proof (rule valid_bind)
  show "valid (\<lambda>w. lookup w = f) m (\<lambda>_ w. lookup w = f) E"
    by (rule valid_post [OF valid_unchanged [OF assms(1)]]) (simp_all add: assms(3))
qed (rule assms(2))

lemma valid_bind_liftE:
  "(\<And>a. r = Inr a \<Longrightarrow> valid P (g a) Q E) \<Longrightarrow> (\<And>s. P s \<Longrightarrow> E s) \<Longrightarrow> valid P (bindM (liftE r) g) Q E"
  by (cases r) (simp_all add: valid_def throwM_apply)

lemma valid_bind_ensure:
  "(b \<Longrightarrow> valid P (g ()) Q E) \<Longrightarrow> (\<And>s. P s \<Longrightarrow> E s) \<Longrightarrow> valid P (bindM (ensureM b e) g) Q E"
  by (cases b) (simp_all add: ensureM_def valid_def throwM_apply)

definition named_file :: "('v, 'z) tlib_scheme \<Rightarrow> arguments \<Rightarrow> string \<Rightarrow> path \<Rightarrow> bool" where
  "named_file e a option q \<longleftrightarrow> (\<exists>x. args_one a option = Inr x \<and> q = os_path (t_host e) (path_of x))"

lemma generate_key_outcome:
  "valid (\<lambda>w. lookup w = f) (generate_key e a) (\<lambda>_ w. fresh_key_files e a f (lookup w))
     (\<lambda>w. grows_at {q. named_file e a ''private-key'' q \<or> named_file e a ''public-key'' q} f (lookup w))"
  unfolding generate_key_def Let_def
proof (intro valid_bind_liftE valid_bind_ensure valid_bind_reads)
  let ?S = "{q. named_file e a ''private-key'' q \<or> named_file e a ''public-key'' q}"
  fix i x y u secret
  assume i: "args_one a ''id'' = Inr i" "validate_key_id i = Inr (u :: unit)" and x: "args_one a ''private-key'' = Inr x"
    and y: "args_one a ''public-key'' = Inr y"
  let ?pair = "write_key_pair (t_host e) (path_of x) (base64_encode e secret @ [CHR 0x0A])
     (path_of y) (json_of_key_set e (key_document e i secret) @ [CHR 0x0A])"
  show "valid (\<lambda>w. lookup w = f) ?pair (\<lambda>_ w. fresh_key_files e a f (lookup w)) (\<lambda>w. grows_at ?S f (lookup w))"
  proof (rule validI)
    fix w u w' assume f: "lookup w = f" and run: "?pair w = (Inr u, w')"
    have "validate_key_id i = Inr ()" using i by simp
    with write_pair(2) [OF run refl] i(1) x y show "fresh_key_files e a f (lookup w')"
      unfolding fresh_key_files_def f [symmetric] by blast
  next
    fix w k w' assume f: "lookup w = f" and run: "?pair w = (Inl k, w')"
    from write_pair(1) [OF run] f x y show "grows_at ?S f (lookup w')"
      unfolding grows_at_def named_file_def by auto
  qed
qed (auto simp: grows_at_def intro!: touches_intros)

text \<open>C16: key generation never replaces anything: it changes only the two named paths, and only where nothing
  was before; when it returns, both are new, distinct files, the private one closed to group and others
  and holding the secret, the public one the key document of that secret.\<close>

theorem keygen_never_overwrites:
  assumes "generate_key e a w = (r, w')"
  shows "(\<forall>q. lookup w' q \<noteq> lookup w q \<longrightarrow> lookup w q = None \<and> (named_file e a ''private-key'' q \<or> named_file e a ''public-key'' q))
    \<and> (\<forall>u. r = Inr u \<longrightarrow> fresh_key_files e a (lookup w) (lookup w'))"
  using generate_key_outcome [of "lookup w" e a] refl assms
proof (rule valid_outcome)
  fix u assume "r = Inr u" and new: "fresh_key_files e a (lookup w) (lookup w')"
  then have "lookup w q = None \<and> (named_file e a ''private-key'' q \<or> named_file e a ''public-key'' q)"
    if "lookup w' q \<noteq> lookup w q" for q
    using that unfolding fresh_key_files_def named_file_def by (auto split: if_splits)
  with new show ?thesis by blast
next
  fix k assume "r = Inl k" and "grows_at {q. named_file e a ''private-key'' q \<or> named_file e a ''public-key'' q} (lookup w) (lookup w')"
  then show ?thesis by (auto simp: grows_at_def)
qed

subsection \<open>Arguments\<close>

definition wf_option :: "string \<times> string list \<Rightarrow> bool" where
  "wf_option = (\<lambda>(name, xs). name \<noteq> [] \<and> CHR ''='' \<notin> set name \<and> name \<notin> set boolean_flags \<and> xs \<noteq> []
     \<and> (name \<noteq> ''private-key'' \<longrightarrow> (\<forall>x \<in> set xs. \<not> prefix ''-'' x)))"

definition wf_arguments :: "arguments \<Rightarrow> bool" where
  "wf_arguments a \<longleftrightarrow> sorted_wrt (<) (map fst (ar_values a)) \<and> list_all wf_option (ar_values a)
     \<and> ar_flags a \<subseteq> set boolean_flags"

lemma wf_push [intro]:
  "wf_arguments a \<Longrightarrow> name \<in> set boolean_flags \<Longrightarrow> wf_arguments (push_flag name a)"
  "wf_arguments a \<Longrightarrow> wf_arguments (push_positional x a)"
  by (auto simp: wf_arguments_def push_flag_def push_positional_def)

lemma wf_push_value:
  assumes wf: "wf_arguments a" and n: "name \<noteq> []" "CHR ''='' \<notin> set name" "name \<notin> set boolean_flags"
    and v: "prefix ''-'' v \<Longrightarrow> name = ''private-key''"
  shows "wf_arguments (push_value name v a)"
proof -
  let ?old = "case map_of (ar_values a) name of None \<Rightarrow> [] | Some xs \<Rightarrow> xs"
  have "wf_option (name, ?old @ [v])"
  proof (cases "map_of (ar_values a) name")
    case (Some xs)
    then have "wf_option (name, xs)" using wf map_of_SomeD [OF Some] by (auto simp: wf_arguments_def list_all_iff)
    with Some v show ?thesis by (auto simp: wf_option_def)
  qed (use n v in \<open>auto simp: wf_option_def\<close>)
  then have "list_all wf_option (btree_insert name (?old @ [v]) (ar_values a))"
    using wf set_btree_insert [of name "?old @ [v]" "ar_values a"] by (auto simp: wf_arguments_def list_all_iff)
  with wf show ?thesis by (simp add: wf_arguments_def push_value_def sorted_btree_insert)
qed

lemma split_once_None: "split_once c s = None \<longleftrightarrow> c \<notin> set s"
  by (auto simp: split_once_def position_None)

lemma split_once_Some:
  assumes "split_once c s = Some (n, v)"
  shows "s = n @ c # v" and "c \<notin> set n"
proof -
  from assms obtain i where i: "position (\<lambda>x. x = c) s = Some i" "n = take i s" "v = drop (i + 1) s"
    by (auto simp: split_once_def)
  have "i < length s" "s ! i = c" using position_less [OF i(1)] position_nth [OF i(1)] by auto
  then show "s = n @ c # v" using i by (metis Suc_eq_plus1 id_take_nth_drop)
  show "c \<notin> set n" using position_before [OF i(1)] \<open>i < length s\<close> i(2) by (fastforce simp: in_set_conv_nth)
qed

lemma parse_loop_wf: "parse_loop sep a input = Inr b \<Longrightarrow> wf_arguments a \<Longrightarrow> wf_arguments b"
proof (induction sep a input arbitrary: b rule: parse_loop.induct)
  case (2 sep a x input)
  show ?case
  proof (cases "sep \<or> \<not> prefix ''-'' x \<or> x = ''-''")
    case True
    then show ?thesis using 2 by (auto intro: wf_push)
  next
    case opt: False
    show ?thesis
    proof (cases "x = ''--''")
      case True
      with opt 2 show ?thesis by auto
    next
      case False
      with opt "2.prems" obtain raw where raw: "strip_prefix ''--'' x = Some raw"
        by (cases "strip_prefix ''--'' x") auto
      obtain name inline where ni: "(case split_once (CHR ''='') raw of None \<Rightarrow> (raw, None) | Some (n, v) \<Rightarrow> (n, Some v)) = (name, inline)"
        by fastforce
      then have name: "CHR ''='' \<notin> set name"
        by (auto simp: split_once_None dest: split_once_Some split: option.splits prod.splits)
      have step: "(if name = [] then Inl ''empty option name''
            else if name \<in> set boolean_flags then
              (if inline \<noteq> None then Inl ''option does not take a value''
               else parse_loop sep (push_flag name a) input)
            else (case inline of
                Some v \<Rightarrow>
                  if v = [] then Inl ''option requires a non-empty value''
                  else if prefix ''-'' v \<and> name \<noteq> ''private-key'' then Inl ''option requires a value, got another option''
                  else parse_loop sep (push_value name v a) input
              | None \<Rightarrow>
                  (case input of
                     [] \<Rightarrow> Inl ''option requires a value''
                   | v # rest \<Rightarrow>
                       if prefix ''-'' v \<and> name \<noteq> ''private-key'' then Inl ''option requires a value, got another option''
                       else parse_loop sep (push_value name v a) rest))) = Inr b"
        using "2.prems"(1) opt False raw ni by (simp only: parse_loop.simps Let_def if_False option.case prod.case)
      show ?thesis
      proof (cases "name \<in> set boolean_flags")
        case True
        with step have "name \<noteq> []" "inline = None" "parse_loop sep (push_flag name a) input = Inr b"
          by (auto split: if_splits)
        with "2.IH"(3) [OF opt False raw refl ni [symmetric]] True wf_push(1) [OF "2.prems"(2)] show ?thesis by blast
      next
        case flag: False
        show ?thesis
        proof (cases inline)
          case None
          with step flag obtain v rest where r: "name \<noteq> []" "input = v # rest" "\<not> (prefix ''-'' v \<and> name \<noteq> ''private-key'')"
            "parse_loop sep (push_value name v a) rest = Inr b"
            by (auto split: if_splits list.splits)
          have "wf_arguments (push_value name v a)"
            using "2.prems"(2) r(1,3) name flag by (intro wf_push_value) auto
          with "2.IH"(4) [OF opt False raw refl ni [symmetric] r(1) flag None r(2,3,4)] show ?thesis by blast
        next
          case (Some v)
          with step flag have r: "name \<noteq> []" "v \<noteq> []" "\<not> (prefix ''-'' v \<and> name \<noteq> ''private-key'')"
            "parse_loop sep (push_value name v a) input = Inr b"
            by (auto split: if_splits)
          have "wf_arguments (push_value name v a)"
            using "2.prems"(2) r(1,3) name flag by (intro wf_push_value) auto
          with "2.IH"(5) [OF opt False raw refl ni [symmetric] r(1) flag Some r(2,3,4)] show ?thesis by blast
        qed
      qed
    qed
  qed
qed simp

text \<open>C17: the parser returns options only in a form the commands can rely on: every option once, in key order,
  with a nonempty name that contains no equals sign and at least one value, no value that looks like
  an option except a private key's, and no flag it does not know.\<close>

theorem parsed_arguments_wellformed:
  assumes "parse_arguments input = Inr a"
  shows "wf_arguments a"
proof (cases input)
  case Nil
  with assms show ?thesis by (auto simp: wf_arguments_def arguments_default_def)
next
  case (Cons c rest)
  have "wf_arguments (push_flag ''help'' arguments_default)" "wf_arguments (arguments_default\<lparr>ar_command := Some c\<rparr>)"
    by (auto simp: wf_arguments_def arguments_default_def push_flag_def boolean_flags_def)
  with assms Cons show ?thesis by (auto split: if_splits intro: parse_loop_wf)
qed

theorem parsed_arguments_wellformed_witness:
  "\<exists>a. parse_arguments [''keygen'', ''--id=k'', ''--private-key'', ''-k'', ''--public-key'', ''p'', ''--'', ''--x''] = Inr a
     \<and> args_one a ''private-key'' = Inr ''-k'' \<and> ar_positionals a = [''--x''] \<and> wf_arguments a"
proof -
  have "\<exists>a. parse_arguments [''keygen'', ''--id=k'', ''--private-key'', ''-k'', ''--public-key'', ''p'', ''--'', ''--x''] = Inr a
     \<and> args_one a ''private-key'' = Inr ''-k'' \<and> ar_positionals a = [''--x'']"
    by (simp add: arguments_default_def split_once_def boolean_flags_def push_value_def push_positional_def
        args_one_def strip_prefix_def)
  with parsed_arguments_wellformed show ?thesis by blast
qed

subsection \<open>Reading and writing by name\<close>

definition file_bytes :: "world \<Rightarrow> path \<Rightarrow> bytes \<Rightarrow> bool" where
  "file_bytes w p b \<longleftrightarrow> (\<exists>a. stat w p = Inr (RegularFile a b))"

lemma follow_cong: "lookup v = lookup w \<Longrightarrow> follow n v p = follow n w p"
  by (induction n w p rule: follow.induct) (simp_all split: option.splits node.splits)

lemma stat_cong: "lookup v = lookup w \<Longrightarrow> stat v p = stat w p"
  using follow_cong [of v w 40 p] by (simp add: stat_def split: option.splits)

lemma file_bytes_cong: "lookup v = lookup w \<Longrightarrow> file_bytes v p b = file_bytes w p b"
  using stat_cong [of v w p] by (simp add: file_bytes_def)

lemma file_bytes_regular: "lookup w p = Some (RegularFile a b) \<Longrightarrow> file_bytes w p b"
  by (simp add: file_bytes_def stat_def eval_nat_numeral)

lemma file_bytes_unique: "file_bytes w p b \<Longrightarrow> file_bytes w p c \<Longrightarrow> b = c"
  by (auto simp: file_bytes_def)

lemma fs_read_Inr: "fs_read p w = (Inr b, w') \<Longrightarrow> file_bytes w p b \<and> lookup w' = lookup w"
  unfolding fs_read_def
  by (erule io_cases) (auto simp: file_bytes_def dest: stat_cong [where p = p] split: sum.splits node.splits)

lemma read_path_Inr: "read_path h p w = (Inr b, w') \<Longrightarrow> file_bytes w (os_path h p) b \<and> lookup w' = lookup w"
  by (auto simp: read_path_def toolIO_def dest: fs_read_Inr)

lemma follow_end: "follow n w p = Some q \<Longrightarrow> \<forall>t. lookup w q \<noteq> Some (Symlink t)"
  by (induction n w p rule: follow.induct) (auto split: option.splits node.splits)

lemma follow_written:
  "follow n w p = Some q \<Longrightarrow> lookup w' = (lookup w)(q \<mapsto> RegularFile a b) \<Longrightarrow> follow n w' p = Some q"
proof (induction n w p rule: follow.induct)
  case (2 k w p)
  show ?case
  proof (cases "\<exists>t. lookup w p = Some (Symlink t)")
    case True
    then obtain t where t: "lookup w p = Some (Symlink t)" by blast
    with "2.prems"(1) have "follow k w t = Some q" by simp
    with "2.IH" [OF t refl _ "2.prems"(2)] have "follow k w' t = Some q" by simp
    moreover have "p \<noteq> q" using follow_end [OF "2.prems"(1)] t by blast
    ultimately show ?thesis using t "2.prems"(2) by simp
  next
    case False
    with "2.prems"(1) have "p = q" by (auto split: option.splits node.splits)
    with "2.prems"(2) show ?thesis by simp
  qed
qed simp

lemma fs_write_Inr:
  assumes "fs_write h p b w = (Inr u, w')"
  shows "\<exists>q a. follow 40 w p = Some q \<and> lookup w' = (lookup w)(q \<mapsto> RegularFile a b)" and "file_bytes w' p b"
proof -
  from assms obtain q v where o: "open_truncate h p w = (Inr q, v)" and wr: "write_all q b v = (Inr u, w')"
    by (auto simp: fs_write_def bindM_return_iff)
  from o obtain x where x: "lookup x = lookup w" and r: "(case follow 40 x p of
       None \<Rightarrow> (Inl OtherIo, x)
     | Some q \<Rightarrow> (case lookup x q of
         None \<Rightarrow> if parent_is_dir x q then (Inr q, put q (RegularFile (new_attr h 0x1B6) []) x) else (Inl NotFound, x)
       | Some (RegularFile a _) \<Rightarrow> (Inr q, put q (RegularFile a []) x)
       | Some _ \<Rightarrow> (Inl OtherIo, x))) = (Inr q, v)"
    unfolding open_truncate_def by (auto elim!: io_cases)
  from r x obtain a where q: "follow 40 w p = Some q" and v: "lookup v = (lookup w)(q \<mapsto> RegularFile a [])"
    by (auto simp: follow_cong [OF x] fun_eq_iff split: option.splits node.splits if_splits)
  from write_all_Inr [OF wr, of a "[]"] v have w': "lookup w' = (lookup w)(q \<mapsto> RegularFile a b)" by simp
  with q show "\<exists>q a. follow 40 w p = Some q \<and> lookup w' = (lookup w)(q \<mapsto> RegularFile a b)" by blast
  have "follow 40 w' p = Some q" by (rule follow_written [OF q w'])
  with w' show "file_bytes w' p b" by (simp add: file_bytes_def stat_def)
qed

subsection \<open>Signing\<close>

text \<open>Documented behaviour of base64 and serde: the text is over the standard alphabet, white space after a
  document is skipped.\<close>

definition base64_char :: "char \<Rightarrow> bool" where
  "base64_char c \<longleftrightarrow> is_ascii_alphanumeric c \<or> c \<in> set ''+/=''"

definition documents_ok :: "('v, 'z) tlib_scheme \<Rightarrow> bool" where
  "documents_ok e \<longleftrightarrow>
     (\<forall>b. list_all base64_char (base64_encode e b) \<and> (b \<noteq> [] \<longrightarrow> base64_encode e b \<noteq> []))
     \<and> (\<forall>ks. key_set_of_json e (json_of_key_set e ks @ [CHR 0x0A]) = Some ks)"

lemma white_space_ends:
  "w \<in> set white_space \<Longrightarrow> w \<noteq> [] \<and> \<not> base64_char (hd w) \<and> (last w = CHR 0x0A \<longrightarrow> w = [CHR 0x0A]) \<and> \<not> base64_char (last w)"
proof -
  have "list_all (\<lambda>w. w \<noteq> [] \<and> \<not> base64_char (hd w) \<and> (last w = CHR 0x0A \<longrightarrow> w = [CHR 0x0A]) \<and> \<not> base64_char (last w)) white_space"
    by code_simp
  then show "w \<in> set white_space \<Longrightarrow> w \<noteq> [] \<and> \<not> base64_char (hd w) \<and> (last w = CHR 0x0A \<longrightarrow> w = [CHR 0x0A]) \<and> \<not> base64_char (last w)"
    by (auto simp: list_all_iff)
qed

lemma newline_white_space: "[CHR 0x0A] \<in> set white_space"
  by code_simp

lemma trim_base64:
  assumes s: "list_all base64_char s" "s \<noteq> []"
  shows "trim (s @ [CHR 0x0A]) = s" and "\<not> has_space s"
proof -
  have hd: "\<not> prefix w s" "\<not> prefix w (s @ [CHR 0x0A])" if "w \<in> set white_space" for w
  proof -
    note ws = white_space_ends [OF that]
    obtain d t where d: "s = d # t" "base64_char d" using s by (cases s) auto
    obtain c r where "w = c # r" using ws by (cases w) auto
    moreover from this ws have "\<not> base64_char c" by simp
    ultimately show "\<not> prefix w s" "\<not> prefix w (s @ [CHR 0x0A])" using d by (auto simp only: append_Cons Cons_prefix_Cons)
  qed
  have sub: "\<not> sublist w s" if "w \<in> set white_space" for w
  proof
    assume "sublist w s"
    then have "set w \<subseteq> set s" by (rule set_mono_sublist)
    moreover have "hd w \<in> set w" using white_space_ends [OF that] by simp
    ultimately have "base64_char (hd w)" using s(1) unfolding list_all_iff by blast
    with white_space_ends [OF that] show False by blast
  qed
  then show "\<not> has_space s" by (auto simp: has_space_def list_ex_iff)
  have "leading_space (s @ [CHR 0x0A]) = None"
    using hd(2) by (auto simp: leading_space_def find_None_iff)
  then have start: "trim_start (s @ [CHR 0x0A]) = s @ [CHR 0x0A]" by (simp add: trim_start.simps)
  have only: "w = [CHR 0x0A]" if "w \<in> set white_space" "suffix w (s @ [CHR 0x0A])" for w
  proof -
    have "last w = CHR 0x0A" using that white_space_ends [OF that(1)] by (metis last_appendR last_snoc suffix_def)
    with white_space_ends [OF that(1)] show ?thesis by blast
  qed
  have "find (\<lambda>w. w \<noteq> [] \<and> suffix w (s @ [CHR 0x0A])) white_space \<noteq> None"
    unfolding find_None_iff using newline_white_space by (auto simp: suffix_def)
  then obtain w where w: "find (\<lambda>w. w \<noteq> [] \<and> suffix w (s @ [CHR 0x0A])) white_space = Some w" by blast
  with find_Some [OF w] only have "w = [CHR 0x0A]" by blast
  with w have cut: "trim_end (s @ [CHR 0x0A]) = trim_end s" by (simp add: trim_end.simps [of "s @ [CHR 0x0A]"])
  have "find (\<lambda>w. w \<noteq> [] \<and> suffix w s) white_space = None"
    using sub by (auto simp: find_None_iff intro: suffix_imp_sublist)
  then have "trim_end s = s" by (simp add: trim_end.simps)
  with start cut show "trim (s @ [CHR 0x0A]) = s" by (simp add: trim_def)
qed

lemma base64_utf8:
  assumes "list_all base64_char s"
  shows "from_utf8 (s @ [CHR 0x0A]) = Some (s @ [CHR 0x0A])"
proof -
  have "of_char c < (128 :: nat)" if "base64_char c" for c
    using that by (auto simp: base64_char_def is_ascii_alphanumeric_def is_ascii_digit_def is_ascii_alphabetic_def)
  then have "utf8_from (map of_char (s @ [CHR 0x0A]))"
    using assms by (intro utf8_ascii) (auto simp: list_all_iff)
  then show ?thesis by (simp add: from_utf8_def)
qed

text \<open>What \<open>load_private_key\<close> makes of the file that key generation wrote.\<close>

lemma load_generated_key:
  assumes doc: "documents_ok e" and crypto: "crypto_ok e"
    and arg: "args_optional_one a ''private-key'' = Inr (Some x)"
    and stored: "file_bytes w (os_path (t_host e) (path_of x)) (base64_encode e secret @ [CHR 0x0A])"
    and load: "load_private_key e a w = (Inr s, w')"
  shows "s = secret \<and> lookup w' = lookup w"
proof -
  have alphabet: "list_all base64_char (base64_encode e secret)" using doc by (simp add: documents_ok_def)
  from load arg obtain b v where read: "fs_read (os_path (t_host e) (path_of x)) w = (Inr b, v)"
    and rest: "(let encoded = trim b in
     bindM (ensureM (encoded \<noteq> [] \<and> \<not> has_space encoded) ''private key must be one base64 value'') (\<lambda>_.
     bindM (liftE (ok_orE (base64_decode e encoded) ''decode private key'')) (\<lambda>secret.
     bindM (ensureM (length secret = 32) ''private key must decode to exactly 32 bytes'') (\<lambda>_.
     returnM secret)))) v = (Inr s, w')"
    by (auto simp: load_private_key_def bindM_return_iff toolIO_def liftE_apply dest!: from_utf8_Some)
  from fs_read_Inr [OF read] stored have b: "b = base64_encode e secret @ [CHR 0x0A]" and v: "lookup v = lookup w"
    using file_bytes_unique by blast+
  from rest have ne: "trim b \<noteq> []" and dec: "base64_decode e (trim b) = Some s" and w': "w' = v"
    by (auto simp: Let_def bindM_return_iff ensureM_apply liftE_apply returnM_apply split: if_splits)
  have "base64_encode e secret \<noteq> []"
  proof
    assume "base64_encode e secret = []"
    with b have "b = [CHR 0x0A]" by simp
    moreover have "trim [CHR 0x0A] = []" by code_simp
    ultimately show False using ne by simp
  qed
  with trim_base64(1) [OF alphabet] b dec crypto w' v show ?thesis by (simp add: crypto_ok_def)
qed

lemma load_manifest_Inr:
  assumes "load_manifest e app p w = (Inr (b, m), w')"
  shows "file_bytes w (os_path (t_host e) p) b" and "manifest_from_bytes e app b = Inr m" and "lookup w' = lookup w"
proof -
  from assms obtain v where "read_path (t_host e) p w = (Inr b, v)" and m: "manifest_from_bytes e app b = Inr m"
    and "w' = v"
    by (auto simp: load_manifest_def bindM_return_iff liftE_apply returnM_apply)
  with read_path_Inr [of "t_host e" p w b v] show "file_bytes w (os_path (t_host e) p) b" "lookup w' = lookup w"
    "manifest_from_bytes e app b = Inr m" by auto
qed

text \<open>An envelope whose entries parse: the schema version is right, the key ids are there and distinct.\<close>

definition good_envelope :: "signature_envelope \<Rightarrow> bool" where
  "good_envelope env \<longleftrightarrow> env_schema_version env = SIGNATURE_SCHEMA_VERSION
     \<and> (\<forall>s \<in> set (env_signatures env). e_key_id s \<noteq> [] \<and> e_algorithm s \<noteq> [])
     \<and> distinct (map e_key_id (env_signatures env))"

lemma existing_envelope_Inr:
  assumes "existing_envelope e a output w = (Inr env, w')"
  shows "good_envelope env" and "lookup w' = lookup w"
proof -
  from assms obtain append v where ap: "(if args_flag a ''append'' then path_exists (t_host e) output else returnM False) w = (Inr append, v)"
    and rest: "(if append then
       bindM (read_path (t_host e) output) (\<lambda>b. toolR ''parse signatures'' (envelope_from_bytes e b))
     else returnM (envelope_new [])) v = (Inr env, w')"
    by (auto simp: existing_envelope_def bindM_return_iff)
  have t: "touches {} (if args_flag a ''append'' then path_exists (t_host e) output else returnM False)"
    by (intro touches_intros)
  have v: "lookup v = lookup w" using t ap by (rule reads_lookup)
  have "good_envelope env \<and> lookup w' = lookup v"
  proof (cases append)
    case True
    with rest obtain b where "read_path (t_host e) output v = (Inr b, w')" "envelope_from_bytes e b = Inr env"
      by (auto simp: bindM_return_iff)
    with read_path_Inr show ?thesis by (auto simp: good_envelope_def envelope_from_bytes_Inr)
  next
    case False
    with rest show ?thesis by (auto simp: returnM_apply good_envelope_def envelope_new_def)
  qed
  with v show "good_envelope env" "lookup w' = lookup w" by simp_all
qed

lemma sign_one: "i \<noteq> [] \<Longrightarrow> env_signatures (sign_manifest_multi lib b [(i, sk)]) =
   [\<lparr>e_key_id = i, e_algorithm = ED25519_ALGORITHM, e_signature = base64_encode lib (sign lib sk b)\<rparr>]"
  by (simp add: sign_manifest_multi_def envelope_new_def)

text \<open>Adding a signature keeps an envelope readable, and with the signer's key it verifies.\<close>

lemma appended_envelope:
  assumes good: "good_envelope env" and i: "i \<noteq> []"
    and ap: "append_signature i env (sign_manifest_multi lib b [(i, sk)]) = Inr env'"
  shows "good_envelope env'" and "set (env_signatures env') = insert
     \<lparr>e_key_id = i, e_algorithm = ED25519_ALGORITHM, e_signature = base64_encode lib (sign lib sk b)\<rparr> (set (env_signatures env))"
proof -
  let ?new = "\<lparr>e_key_id = i, e_algorithm = ED25519_ALGORITHM, e_signature = base64_encode lib (sign lib sk b)\<rparr>"
  from ap have new: "\<forall>s \<in> set (env_signatures env). e_key_id s \<noteq> i"
    and env': "env' = env\<lparr>env_signatures := sort_key e_key_id (env_signatures env @ [?new])\<rparr>"
    by (auto simp: append_signature_def sign_one [OF i] list_ex_iff)
  then show "set (env_signatures env') = insert ?new (set (env_signatures env))" by simp
  have "distinct (map e_key_id (env_signatures env @ [?new]))"
    using good new by (auto simp: good_envelope_def)
  then have "distinct (map e_key_id (sort_key e_key_id (env_signatures env @ [?new])))"
    by (simp only: distinct_map distinct_sort set_sort)
  with good i env' show "good_envelope env'" by (simp add: good_envelope_def)
qed

lemma appended_verifies:
  assumes crypto: "crypto_ok lib" and good: "good_envelope env'" and i: "i \<noteq> []"
    and mem: "\<lparr>e_key_id = i, e_algorithm = ED25519_ALGORITHM, e_signature = base64_encode lib (sign lib sk b)\<rparr> \<in> set (env_signatures env')"
    and len: "length (json_of_envelope lib env') \<le> MAX_METADATA_SIZE"
  shows "verify_manifest_with_keys lib b (json_of_envelope lib env') (ks_keys (key_document lib i sk)) = Inr i"
proof -
  let ?new = "\<lparr>e_key_id = i, e_algorithm = ED25519_ALGORITHM, e_signature = base64_encode lib (sign lib sk b)\<rparr>"
  let ?keys = "ks_keys (key_document lib i sk)"
  have env: "envelope_from_bytes lib (json_of_envelope lib env') = Inr env'"
    using crypto good mem len by (auto simp: envelope_from_bytes_Inr crypto_ok_def good_envelope_def)
  have "entry_verifies lib b ?keys ?new"
    using crypto by (simp add: entry_verifies_iff find_key_def key_document_def trusted_key_ed25519_def
        decode_public_key_Inr crypto_ok_def)
  then have "find (entry_verifies lib b ?keys) (env_signatures env') \<noteq> None"
    using mem by (auto simp: find_None_iff)
  then obtain s where s: "find (entry_verifies lib b ?keys) (env_signatures env') = Some s" by blast
  from find_Some [OF s] have "e_key_id s = i"
    by (auto simp: entry_verifies_iff find_key_def key_document_def trusted_key_ed25519_def split: if_splits)
  with env s show ?thesis
    by (auto simp: verify_with_keys_Inr has_ed25519_key_def key_document_def trusted_key_ed25519_def)
qed

lemma args_one_optional: "args_one a n = Inr x \<Longrightarrow> args_optional_one a n = Inr (Some x)"
  by (auto simp: args_one_def args_optional_one_def)

lemma tool_sign_Inr:
  assumes "tool_sign_manifest e a w = (Inr u, w')"
  shows "\<exists>app manifest_arg output_arg i b m secret env env'.
     app_from_args a = Inr app \<and> args_one a ''manifest'' = Inr manifest_arg \<and> args_one a ''output'' = Inr output_arg
     \<and> args_one a ''key-id'' = Inr i \<and> validate_key_id i = Inr ()
     \<and> file_bytes w (os_path (t_host e) (path_of manifest_arg)) b \<and> manifest_from_bytes e app b = Inr m
     \<and> (\<exists>v v'. lookup v = lookup w \<and> load_private_key e a v = (Inr secret, v'))
     \<and> good_envelope env \<and> append_signature i env (sign_manifest_multi e b [(i, secret)]) = Inr env'
     \<and> file_bytes w' (os_path (t_host e) (path_of output_arg)) (json_of_envelope e env')"
proof -
  from assms obtain app manifest_arg output_arg i b m secret env env' out v1 v2 v3 where
    arg: "app_from_args a = Inr app" "args_one a ''manifest'' = Inr manifest_arg" "args_one a ''output'' = Inr output_arg"
      "args_one a ''key-id'' = Inr i" "validate_key_id i = Inr ()"
    and m: "load_manifest e app (path_of manifest_arg) w = (Inr (b, m), v1)"
    and k: "load_private_key e a v1 = (Inr secret, v2)"
    and ex: "existing_envelope e a (path_of output_arg) v2 = (Inr env, v3)"
    and ap: "append_signature i env (sign_manifest_multi e b [(i, secret)]) = Inr env'"
    and out: "envelope_to_bytes e env' = Inr out" and wr: "write_path (t_host e) (path_of output_arg) out v3 = (Inr u, w')"
    by (auto simp: tool_sign_manifest_def bindM_return_iff liftE_apply Let_def)
  have "out = json_of_envelope e env'" using out by (auto simp: envelope_to_bytes_def split: if_splits)
  moreover have "file_bytes w' (os_path (t_host e) (path_of output_arg)) out"
    using wr fs_write_Inr(2) by (auto simp: write_path_def)
  ultimately show ?thesis
    using arg load_manifest_Inr [OF m] k existing_envelope_Inr(1) [OF ex] ap by blast
qed

text \<open>\<open>exists\<close> is false on every error, so an envelope whose state cannot be read is begun anew, whatever
  signatures it holds.\<close>

lemma append_drops_unseen_envelope:
  assumes "sched w = IoFail n # ss" and "args_flag a ''append''"
  shows "existing_envelope e a p w = (Inr (envelope_new []), w\<lparr>sched := ss\<rparr>)"
  using assms
  by (simp add: existing_envelope_def path_exists_def bindM_def tryM_def open_existing_def io_def io_partial_def returnM_apply)

text \<open>C13: a manifest signed with a key that the tool generated verifies under the key document the tool wrote with
  it: the document is a valid set of trusted keys, and the envelope written for the manifest is accepted under
  the key's id, whatever other signatures the envelope already held.\<close>

theorem generated_key_signs:
  assumes crypto: "crypto_ok e" and doc: "documents_ok e"
    and gen: "generate_key e g w = (Inr u, w1)" and sign: "tool_sign_manifest e s w1 = (Inr u', w2)"
    and same: "args_one s ''key-id'' = args_one g ''id''" "args_one s ''private-key'' = args_one g ''private-key''"
  shows "\<exists>i keys ks p manifest o' sigs. args_one g ''id'' = Inr i
     \<and> (\<exists>q. named_file e g ''public-key'' q \<and> file_bytes w1 q keys) \<and> key_set_from_bytes e keys = Inr ks
     \<and> named_file e s ''manifest'' p \<and> file_bytes w1 p manifest
     \<and> named_file e s ''output'' o' \<and> file_bytes w2 o' sigs
     \<and> (length sigs \<le> MAX_METADATA_SIZE \<longrightarrow> verify_manifest_with_keys e manifest sigs (ks_keys ks) = Inr i)"
proof -
  from valid_InrD [OF generate_key_outcome [of "lookup w"] refl gen]
  obtain i x y secret ap ab where g: "args_one g ''id'' = Inr i" "args_one g ''private-key'' = Inr x" "args_one g ''public-key'' = Inr y"
      "validate_key_id i = Inr ()" "os_path (t_host e) (path_of x) \<noteq> os_path (t_host e) (path_of y)"
    and w1: "lookup w1 = (lookup w)(os_path (t_host e) (path_of x) \<mapsto> RegularFile ap (base64_encode e secret @ [CHR 0x0A]),
       os_path (t_host e) (path_of y) \<mapsto> RegularFile ab (json_of_key_set e (key_document e i secret) @ [CHR 0x0A]))"
    unfolding fresh_key_files_def by blast
  let ?ks = "key_document e i secret"
  have i: "i \<noteq> []" using g(4) by (auto simp: validate_key_id_def)
  have priv: "file_bytes w1 (os_path (t_host e) (path_of x)) (base64_encode e secret @ [CHR 0x0A])"
    and pub: "file_bytes w1 (os_path (t_host e) (path_of y)) (json_of_key_set e ?ks @ [CHR 0x0A])"
    using w1 g(5) by (auto intro!: file_bytes_regular)
  have ks: "key_set_from_bytes e (json_of_key_set e ?ks @ [CHR 0x0A]) = Inr ?ks"
    using doc crypto i by (simp add: key_set_from_bytes_def documents_ok_def key_document_def check_keys_Inr
        trusted_key_ed25519_def decode_public_key_Inr crypto_ok_def is_ok_iff)
  from tool_sign_Inr [OF sign] obtain manifest_arg output_arg i' b secret' env env' v v' where
    s: "args_one s ''manifest'' = Inr manifest_arg" "args_one s ''output'' = Inr output_arg" "args_one s ''key-id'' = Inr i'"
    and b: "file_bytes w1 (os_path (t_host e) (path_of manifest_arg)) b"
    and load: "lookup v = lookup w1" "load_private_key e s v = (Inr secret', v')"
    and env: "good_envelope env" "append_signature i' env (sign_manifest_multi e b [(i', secret')]) = Inr env'"
    and out: "file_bytes w2 (os_path (t_host e) (path_of output_arg)) (json_of_envelope e env')" by blast
  have "args_optional_one s ''private-key'' = Inr (Some x)"
    using same(2) g(2) by (simp add: args_one_optional)
  then have "secret' = secret"
    using load_generated_key [OF doc crypto _ _ load(2)] priv file_bytes_cong [OF load(1)] by blast
  moreover have "i' = i" using s(3) same(1) g(1) by simp
  ultimately have env': "append_signature i env (sign_manifest_multi e b [(i, secret)]) = Inr env'" using env(2) by simp
  note app = appended_envelope [OF env(1) i env']
  have "verify_manifest_with_keys e b (json_of_envelope e env') (ks_keys ?ks) = Inr i"
    if "length (json_of_envelope e env') \<le> MAX_METADATA_SIZE"
    using appended_verifies [OF crypto app(1) i _ that] app(2) by blast
  then show ?thesis
    using g(1,3) ks pub s b out unfolding named_file_def by blast
qed

subsection \<open>Verification of a release\<close>

lemma touches_hash_file [touches_intros]: "touches S (hash_file e p)"
  unfolding hash_file_def Let_def by (intro touches_intros)

lemma touches_verify_checksum [touches_intros]: "touches S (verify_checksum_file e p expected)"
  unfolding verify_checksum_file_def Let_def by (intro touches_intros)

lemma touches_unlisted [touches_intros]: "touches S (verify_unlisted app expected ps)"
  by (induction ps) (auto intro!: touches_intros)

lemma verify_listed_Inr:
  assumes "verify_listed e app dir seen ts w = (Inr listed, w')"
  shows "lookup w' = lookup w \<and> listed = seen \<union> a_archive ` snd ` set ts
    \<and> (\<forall>(t, a) \<in> set ts. \<exists>c x. file_bytes w (os_path (t_host e) (join dir (a_archive a))) c
         \<and> inspect_archive e app c a = Inr x)"
  using assms
proof (induction e app dir seen ts arbitrary: w rule: verify_listed.induct)
  case (2 e app dir seen t a rest)
  let ?p = "join dir (a_archive a)"
  from "2.prems" obtain c x v v' where
    c: "read_path (t_host e) ?p w = (Inr c, v)" "inspect_archive e app c a = Inr x"
    and ck: "verify_checksum_file e ?p (a_archive_sha256 a) v = (Inr (), v')"
    and more: "verify_listed e app dir (insert (a_archive a) seen) rest v' = (Inr listed, w')"
    and fresh: "a_archive a \<notin> seen" "of_nat (length c) = a_archive_size a"
    by (auto simp: bindM_return_iff ensureM_apply Let_def split: if_splits)
  have v: "file_bytes w (os_path (t_host e) ?p) c" "lookup v = lookup w" using read_path_Inr [OF c(1)] by auto
  have v': "lookup v' = lookup v" using touches_verify_checksum ck by (rule reads_lookup)
  have same: "file_bytes v' q d = file_bytes w q d" for q d using file_bytes_cong v' v(2) by metis
  from "2.IH" [OF refl more] c(2) v v' same show ?case by auto
qed (simp add: returnM_apply)

lemma verify_unlisted_Inr:
  "verify_unlisted app expected ps w = (Inr u, w')
   \<Longrightarrow> \<forall>p \<in> set ps. is_archive_name app p \<longrightarrow> (\<exists>n \<in> expected. file_name p = Some n)"
proof (induction ps arbitrary: w)
  case (Cons p ps)
  then obtain v where rest: "verify_unlisted app expected ps v = (Inr u, w')"
    and p: "is_archive_name app p \<Longrightarrow> \<exists>n \<in> expected. file_name p = Some n"
    by (fastforce simp: bindM_return_iff liftE_apply ensureM_apply bind_eq_Some_conv split: if_splits dest!: from_utf8_Some)
  from Cons.IH [OF rest] p show ?case by auto
qed simp

lemma list_directory_Inr:
  assumes "list_directory h p w = (Inr ps, w')" and "lookup w (join (os_path h p) n) \<noteq> None"
  shows "p @ [Normal n] \<in> set ps"
proof -
  from assms(1) obtain qs where qs: "fs_read_dir (os_path h p) w = (Inr qs, w')" "ps = map (\<lambda>q. p @ [last q]) qs"
    by (auto simp: list_directory_def bindM_return_iff returnM_apply)
  from qs(1) obtain v where v: "lookup v = lookup w" and
    r: "(case stat v (os_path h p) of Inl e \<Rightarrow> (Inl e, v)
       | Inr (Directory _) \<Rightarrow> (Inr (remdups (filter (\<lambda>q. parent q = Some (os_path h p)) (map fst (files v)))), v)
       | Inr _ \<Rightarrow> (Inl OtherIo, v)) = (Inr qs, w')"
    unfolding fs_read_dir_def by (auto elim!: io_cases)
  from v assms(2) have "join (os_path h p) n \<in> set (map fst (files v))"
    by (metis lookup_def map_of_eq_None_iff set_map)
  with r have "join (os_path h p) n \<in> set qs" by (auto simp del: set_map split: sum.splits node.splits)
  with qs(2) show ?thesis by (force simp: join_def)
qed

lemma read_keys_Inr:
  assumes "read_keys e p b w = (Inr ks, w')"
  shows "\<exists>doc. file_bytes w (os_path (t_host e) p) doc \<and> key_set_from_bytes e doc = Inr ks" and "lookup w' = lookup w"
proof -
  from assms obtain doc where "read_path (t_host e) p w = (Inr doc, w')" "key_set_from_bytes e doc = Inr ks"
    by (auto simp: read_keys_def bindM_return_iff ensureM_apply liftE_apply returnM_apply split: if_splits)
  with read_path_Inr show "\<exists>doc. file_bytes w (os_path (t_host e) p) doc \<and> key_set_from_bytes e doc = Inr ks"
    "lookup w' = lookup w" by blast+
qed

lemma verify_artifacts_Inr:
  assumes "verify_artifacts e app m dir w = (Inr u, w')"
  shows "lookup w' = lookup w"
    and "\<forall>(t, a) \<in> set (m_targets m). \<exists>c x. file_bytes w (os_path (t_host e) (join dir (a_archive a))) c
         \<and> inspect_archive e app c a = Inr x"
    and "lookup w (join (os_path (t_host e) dir) n) \<noteq> None \<Longrightarrow> is_archive_name app [Normal n]
         \<Longrightarrow> n \<in> a_archive ` snd ` set (m_targets m)"
proof -
  from assms obtain v1 v2 v3 listed ps where
    d: "path_is is_dir (t_host e) dir w = (Inr True, v1)"
    and l: "verify_listed e app dir {} (m_targets m) v1 = (Inr listed, v2)"
    and ps: "list_directory (t_host e) dir v2 = (Inr ps, v3)"
    and un: "verify_unlisted app listed ps v3 = (Inr u, w')"
    by (auto simp: verify_artifacts_def bindM_return_iff ensureM_apply split: if_splits)
  have v1: "lookup v1 = lookup w" using touches_path_reads(2) d by (rule reads_lookup)
  note l' = verify_listed_Inr [OF l]
  have v3: "lookup v3 = lookup v2" using touches_path_reads(4) ps by (rule reads_lookup)
  have "lookup w' = lookup v3" using touches_unlisted un by (rule reads_lookup)
  with v1 v3 l' show "lookup w' = lookup w" by simp
  show "\<forall>(t, a) \<in> set (m_targets m). \<exists>c x. file_bytes w (os_path (t_host e) (join dir (a_archive a))) c
         \<and> inspect_archive e app c a = Inr x"
    using l' file_bytes_cong [OF v1] by auto
  assume n: "lookup w (join (os_path (t_host e) dir) n) \<noteq> None" and a: "is_archive_name app [Normal n]"
  have "dir @ [Normal n] \<in> set ps" using list_directory_Inr [OF ps] n l' v1 by simp
  moreover have "is_archive_name app (dir @ [Normal n])" using a by (simp add: is_archive_name_def file_name_def)
  ultimately have "\<exists>x \<in> listed. file_name (dir @ [Normal n]) = Some x"
    using verify_unlisted_Inr [OF un] by blast
  then show "n \<in> a_archive ` snd ` set (m_targets m)" using l' by (auto simp: file_name_def)
qed

lemma trust_anchor_irrelevant:
  "manifest_from_bytes e app b = Inr m \<Longrightarrow> manifest_from_bytes e (app\<lparr>app_trust_anchor := doc\<rparr>) b = Inr m"
  by (auto simp: manifest_from_bytes_Inr manifest_validate_Inr canonical_asset_def archive_name_def payload_path_def
      launcher_path_def target_root_name_def root_name_def target_payload_name_def payload_name_def
      target_launcher_name_def launcher_name_def launcher_protocol_def split: option.splits)

text \<open>Nothing reads the clock before the expiry check.\<close>

lemma clock_reads:
  "keeps (\<lambda>v. clock v = c \<and> clock_pos v = n) (read_path h p)"
  "keeps (\<lambda>v. clock v = c \<and> clock_pos v = n) (load_manifest e app p)"
  "keeps (\<lambda>v. clock v = c \<and> clock_pos v = n) (read_keys e p b)"
proof -
  have "clock w' = clock w \<and> clock_pos w' = clock_pos w" if "fs_read p w = (r, w')" for p w r w'
    using that unfolding fs_read_def io_def io_partial_def
    by (auto split: list.splits io_step.splits sum.splits node.splits)
  then have base: "keeps (\<lambda>v. clock v = c \<and> clock_pos v = n) (fs_read p)" for p
    unfolding keeps_def by (auto intro!: validI)
  have path: "keeps (\<lambda>v. clock v = c \<and> clock_pos v = n) (read_path h p)" for h p
    unfolding read_path_def toolIO_def by (intro keeps_intros base)
  show "keeps (\<lambda>v. clock v = c \<and> clock_pos v = n) (read_path h p)"
    "keeps (\<lambda>v. clock v = c \<and> clock_pos v = n) (load_manifest e app p)"
    "keeps (\<lambda>v. clock v = c \<and> clock_pos v = n) (read_keys e p b)"
    unfolding load_manifest_def read_keys_def toolR_def by (intro keeps_intros path)+
qed

lemma keepsD: "keeps I m \<Longrightarrow> m w = (r, w') \<Longrightarrow> I w \<Longrightarrow> I w'"
  using keeps_snd [of I m w] by simp

text \<open>C14: a release the tool has verified is one a client installs: with the checked key document as its trust
  anchor, a client's verification accepts the manifest and the signatures, the manifest is not expired, every
  asset it lists has an archive in the directory that the client's inspection accepts, and no
  other archive of the product lies there.\<close>

theorem verified_release_installable:
  assumes "verify_release e a w = (Inr u, w')"
  shows "lookup w' = lookup w \<and> (\<exists>app manifest sigs keys dir m i.
     app_from_args a = Inr app \<and> args_one a ''artifacts-dir'' = Inr dir
     \<and> (\<exists>p. named_file e a ''manifest'' p \<and> file_bytes w p manifest)
     \<and> (\<exists>p. named_file e a ''signatures'' p \<and> file_bytes w p sigs)
     \<and> (\<exists>p. named_file e a ''keys'' p \<and> file_bytes w p keys)
     \<and> verify_manifest e (app\<lparr>app_trust_anchor := keys\<rparr>) manifest sigs = Inr i
     \<and> manifest_from_bytes e (app\<lparr>app_trust_anchor := keys\<rparr>) manifest = Inr m
     \<and> ensure_not_expired e m (clock w (clock_pos w)) = Inr ()
     \<and> (\<forall>(t, asset) \<in> set (m_targets m). \<exists>c x.
          file_bytes w (os_path (t_host e) (join (path_of dir) (a_archive asset))) c \<and> inspect_archive e app c asset = Inr x)
     \<and> (\<forall>n. lookup w (join (os_path (t_host e) (path_of dir)) n) \<noteq> None \<and> is_archive_name app [Normal n]
          \<longrightarrow> n \<in> a_archive ` snd ` set (m_targets m)))"
proof -
  from assms obtain app manifest_arg signatures_arg keys_arg dir b m sigs keys i now v1 v2 v3 v4 where
    arg: "app_from_args a = Inr app" "args_one a ''manifest'' = Inr manifest_arg" "args_one a ''signatures'' = Inr signatures_arg"
      "args_one a ''keys'' = Inr keys_arg" "args_one a ''artifacts-dir'' = Inr dir"
    and m: "load_manifest e app (path_of manifest_arg) w = (Inr (b, m), v1)"
    and s: "read_path (t_host e) (path_of signatures_arg) v1 = (Inr sigs, v2)"
    and k: "read_keys e (path_of keys_arg) True v2 = (Inr keys, v3)"
    and ver: "verify_manifest_with_keys e b sigs (ks_keys keys) = Inr i"
    and now: "(utc_now :: int tool) v3 = (Inr now, v4)" "ensure_not_expired e m now = Inr ()"
    and art: "verify_artifacts e app m (path_of dir) v4 = (Inr u, w')"
    by (auto simp: verify_release_def bindM_return_iff liftE_apply ensureM_apply Let_def split: if_splits)
  note m' = load_manifest_Inr [OF m] and s' = read_path_Inr [OF s] and k' = read_keys_Inr [OF k]
  have v4: "lookup v4 = lookup v3" using touches_utc_now now(1) by (rule reads_lookup)
  have lk: "lookup v1 = lookup w" "lookup v2 = lookup w" "lookup v4 = lookup w" using m' s' k' v4 by simp_all
  obtain doc where doc: "file_bytes w (os_path (t_host e) (path_of keys_arg)) doc" "key_set_from_bytes e doc = Inr keys"
    using k'(1) file_bytes_cong [OF lk(2)] by blast
  have "verify_manifest e (app\<lparr>app_trust_anchor := doc\<rparr>) b sigs = Inr i"
    using doc(2) ver by (simp add: verify_manifest_def)
  moreover have "file_bytes w (os_path (t_host e) (path_of signatures_arg)) sigs"
    using s' file_bytes_cong [OF lk(1)] by blast
  moreover have "\<forall>(t, asset) \<in> set (m_targets m). \<exists>c x.
      file_bytes w (os_path (t_host e) (join (path_of dir) (a_archive asset))) c \<and> inspect_archive e app c asset = Inr x"
    using verify_artifacts_Inr(2) [OF art] file_bytes_cong [OF lk(3)] by simp
  moreover have "\<forall>n. lookup w (join (os_path (t_host e) (path_of dir)) n) \<noteq> None \<and> is_archive_name app [Normal n]
      \<longrightarrow> n \<in> a_archive ` snd ` set (m_targets m)"
    using verify_artifacts_Inr(3) [OF art] lk(3) by simp
  moreover have "lookup w' = lookup w" using verify_artifacts_Inr(1) [OF art] lk(3) by simp
  moreover have "clock v3 = clock w \<and> clock_pos v3 = clock_pos w"
    using keepsD [OF clock_reads(3) k, of "clock w" "clock_pos w"] keepsD [OF clock_reads(1) s, of "clock w" "clock_pos w"]
      keepsD [OF clock_reads(2) m, of "clock w" "clock_pos w"] by blast
  then have "ensure_not_expired e m (clock w (clock_pos w)) = Inr ()" using now by (simp add: utc_now_def)
  ultimately show ?thesis
    using arg m'(1) trust_anchor_irrelevant [OF m'(2)] doc(1) unfolding named_file_def by blast
qed

end
