(* ===== verification/Calm.thy ===== *)
theory Calm
  imports Executable
begin

text \<open>
  A calm world: every system call succeeds and no path is a symbolic link. There the operations of the
  file system run by rewriting, one after the other, with the rules collected in \<open>run_simps\<close>; the theorems
  that something does succeed on a healthy host are about such worlds.
\<close>

definition plain :: "world \<Rightarrow> bool" where
  "plain w \<longleftrightarrow> (\<forall>q t. lookup w q \<noteq> Some (Symlink t))"

lemma plain_follow: "plain w \<Longrightarrow> follow (Suc n) w p = Some p"
  by (auto simp: plain_def split: option.splits node.splits)

named_theorems run_simps \<open>operations on a calm world, evaluated\<close>

definition calm :: "world \<Rightarrow> bool" where
  "calm w \<longleftrightarrow> sched w = [] \<and> plain w"

lemma calm_put [run_simps]:
  "calm w \<Longrightarrow> calm (put p (RegularFile a b) w)" "calm w \<Longrightarrow> calm (put p (Directory a) w)"
  by (simp_all add: calm_def plain_def)

lemma run_bind [run_simps]: "bindM m f w = (case m w of (Inl e, v) \<Rightarrow> (Inl e, v) | (Inr x, v) \<Rightarrow> f x v)"
  by (simp add: bindM_def)

text \<open>A continuation is not looked at before its turn.\<close>

lemma run_bind_cong: "w = v \<Longrightarrow> bindM m f w = bindM m f v"
  by simp

lemma calm_io: "calm w \<Longrightarrow> io m w = m w" "calm w \<Longrightarrow> io_partial p m w = m w"
  by (simp_all add: calm_def io_def io_partial_def)

lemma calm_stat: "calm w \<Longrightarrow> stat w p = (case lookup w p of None \<Rightarrow> Inl NotFound | Some n \<Rightarrow> Inr n)"
proof -
  assume "calm w"
  then have "follow 40 w p = Some p" using plain_follow [of w 39 p] by (simp add: calm_def)
  then show ?thesis by (simp add: stat_def)
qed

lemma calm_calls [run_simps]:
  assumes "calm w"
  shows "open_existing p w = (case lookup w p of None \<Rightarrow> Inl NotFound | Some n \<Rightarrow> Inr n, w)"
    and "symlink_metadata p w = (case lookup w p of None \<Rightarrow> Inl NotFound | Some n \<Rightarrow> Inr n, w)"
    and "sync_all w = (Inr (), w)" and "dir_entry w = (Inr (), w)"
  using assms
  by (simp_all add: calm_io calm_stat open_existing_def symlink_metadata_def sync_all_def dir_entry_def split: option.splits)

lemma calm_read [run_simps]:
  "calm w \<Longrightarrow> fs_read p w = (case lookup w p of None \<Rightarrow> (Inl NotFound, w) | Some (RegularFile a b) \<Rightarrow> (Inr b, w) | Some _ \<Rightarrow> (Inl OtherIo, w))"
  by (simp add: calm_io fs_read_def calm_stat split: option.splits node.splits)

lemma calm_handle [run_simps]:
  "calm w \<Longrightarrow> read_handle p w = (case lookup w p of Some (RegularFile _ b) \<Rightarrow> (Inr b, w) | _ \<Rightarrow> (Inl OtherIo, w))"
  by (simp add: calm_io read_handle_def)

lemma calm_create [run_simps]: "calm w \<Longrightarrow> create_new h p mode w = (if lookup w p \<noteq> None then (Inl AlreadyExists, w)
     else if \<not> parent_is_dir w p then (Inl NotFound, w) else (Inr (), put p (RegularFile (new_attr h mode) []) w))"
  by (simp add: calm_io create_new_def)

lemma calm_write [run_simps]: "calm w \<Longrightarrow> lookup w p = Some (RegularFile a c)
    \<Longrightarrow> write_all p b w = (Inr (), put p (RegularFile a b) w)"
  by (simp add: calm_io write_all_def set_content_def)

lemma calm_permissions [run_simps]: "calm w \<Longrightarrow> lookup w p = Some (RegularFile a b)
    \<Longrightarrow> set_permissions p mode w = (Inr (), put p (RegularFile (a\<lparr>at_mode := mode\<rparr>) b) w)"
  by (simp add: calm_io set_permissions_def)

lemma calm_open [run_simps]:
  assumes "calm w"
  shows "open_dir_at p w = (case lookup w p of None \<Rightarrow> (Inl NotFound, w)
     | Some (Directory _) \<Rightarrow> (Inr (), w) | Some _ \<Rightarrow> (Inl OtherIo, w))"
    and "lookup w p = Some (RegularFile a b) \<Longrightarrow> open_file_at p w = (Inr (), w)"
    and "lookup w p = Some (Directory a) \<Longrightarrow> fs_read_dir p w = (Inr (remdups (filter (\<lambda>q. parent q = Some p) (map fst (files w)))), w)"
  using assms by (simp_all add: calm_io calm_stat open_dir_at_def open_file_at_def fs_read_dir_def)

lemma calm_random [run_simps]: "calm w \<Longrightarrow> fill_random w = (Inr (rng w (rng_pos w)), w\<lparr>rng_pos := Suc (rng_pos w)\<rparr>)"
  by (simp add: calm_io fill_random_def)

lemma calm_frame [run_simps]: "calm (w\<lparr>rng_pos := n\<rparr>) = calm w" "calm (w\<lparr>clock_pos := n\<rparr>) = calm w"
  by (simp_all add: calm_def plain_def)

subsection \<open>Directories in a calm world\<close>

definition real_dir :: "world \<Rightarrow> path \<Rightarrow> bool" where
  "real_dir w q \<longleftrightarrow> (\<exists>a. lookup w q = Some (Directory a) \<and> \<not> at_reparse a)"

lemma calm_query [run_simps]: "calm w \<Longrightarrow> query a w = (Inr a, w)"
  by (simp add: calm_io query_def)

lemma calm_mkdir [run_simps]: "calm w \<Longrightarrow> mkdir h mode p w = (if lookup w p \<noteq> None then (Inl AlreadyExists, w)
     else if \<not> parent_is_dir w p then (Inl NotFound, w) else (Inr (), put p (Directory (new_attr h mode)) w))"
  by (simp add: calm_io mkdir_def)

lemma calm_dir_permissions [run_simps]: "calm w \<Longrightarrow> lookup w p = Some (Directory a)
    \<Longrightarrow> set_permissions p mode w = (Inr (), put p (Directory (a\<lparr>at_mode := mode\<rparr>)) w)"
  by (simp add: calm_io set_permissions_def)

lemma calm_security_info [run_simps]:
  "calm w \<Longrightarrow> lookup w p = Some n \<Longrightarrow> get_security_info p w = (Inr (node_security n), w)"
  by (simp add: calm_io get_security_info_def)

lemma calm_validate_directory [run_simps]:
  "calm w \<Longrightarrow> real_dir w p \<Longrightarrow> validate_directory p w = (Inr (), w)"
  by (auto simp: validate_directory_def real_dir_def run_simps ensureM_apply)

lemma calm_open_root [run_simps]: "calm w \<Longrightarrow> real_dir w p \<Longrightarrow> open_root p w = (Inr p, w)"
  by (auto simp: open_root_def calm_io run_bind calm_validate_directory returnM_apply real_dir_def
      intro: calm_validate_directory [unfolded real_dir_def])

lemma real_dir_parent: "real_dir w d \<Longrightarrow> parent_is_dir w (join d n)"
  by (auto simp: real_dir_def parent_is_dir_def)

lemma calm_open_relative:
  assumes "calm w" and "2 * wide_length n < 2 ^ 16"
  shows "open_relative h d n disp kind sd w = (case lookup w (join d n) of
       None \<Rightarrow> if disp = FileOpen \<or> \<not> parent_is_dir w (join d n) then (Inl NotFound, w)
         else (Inr (join d n), put (join d n) (new_object h kind sd) w)
     | Some x \<Rightarrow> if disp = FileCreate then (Inl AlreadyExists, w)
         else if opens_as kind x then (Inr (join d n), w) else (Inl OtherIo, w))"
  using assms by (simp add: open_relative_def directory_is_case_sensitive_def run_simps ensureM_apply returnM_apply
      nt_create_file_def calm_io split: option.splits)

lemma calm_walk:
  assumes "calm w" and "disp \<noteq> FileCreate" and "\<forall>n\<in>set ns. 2 * wide_length n < 2 ^ 16"
    and "\<And>q. prefix q (d @ map Normal ns) \<Longrightarrow> strict_prefix d q \<Longrightarrow> real_dir w q"
  shows "walk_windows h disp sd d ns w = (Inr (d @ map Normal ns), w)"
  using assms(3,4)
proof (induction ns arbitrary: d)
  case (Cons n ns)
  have real: "real_dir w (join d n)" by (rule Cons.prems(2)) (simp_all add: join_def strict_prefix_def)
  then have "open_relative h d n disp DirectoryFile sd w = (Inr (join d n), w)"
    using assms(1,2) Cons.prems(1) by (auto simp: calm_open_relative real_dir_def opens_as_def)
  moreover have "walk_windows h disp sd (join d n) ns w = (Inr (join d n @ map Normal ns), w)"
  proof (rule Cons.IH)
    fix q assume q: "prefix q (join d n @ map Normal ns)" "strict_prefix (join d n) q"
    have "strict_prefix d (join d n)" by (simp add: join_def strict_prefix_def)
    then have "strict_prefix d q" using q(2) by (rule prefix_order.less_trans)
    with q(1) show "real_dir w q" using Cons.prems(2) by (simp add: join_def)
  qed (use Cons.prems(1) in simp)
  ultimately show ?case
    using assms(1) real by (simp add: run_bind calm_validate_directory) (simp add: join_def)
qed (simp add: returnM_apply)

lemma walk_windows_append:
  "walk_windows h disp sd d (ns @ ms) = bindM (walk_windows h disp sd d ns) (\<lambda>d'. walk_windows h disp sd d' ms)"
  by (induction ns arbitrary: d) (simp_all add: bindM_assoc)

text \<open>A missing directory below real ones is found missing.\<close>

lemma calm_walk_missing:
  assumes "calm w" and "\<forall>m\<in>set (ns @ [n]). 2 * wide_length m < 2 ^ 16"
    and "\<And>q. prefix q (d @ map Normal ns) \<Longrightarrow> strict_prefix d q \<Longrightarrow> real_dir w q"
    and "lookup w (join (d @ map Normal ns) n) = None"
  shows "walk_windows h FileOpen sd d (ns @ [n]) w = (Inl NotFound, w)"
  using assms unfolding walk_windows_append
  by (simp add: run_bind calm_walk calm_open_relative)

text \<open>\<open>create_dir_all\<close> below real directories makes the one that is missing.\<close>

lemma calm_create_dir:
  assumes "calm w" and "\<And>q. prefix q (d @ map Normal ns) \<Longrightarrow> prefix d q \<Longrightarrow> real_dir w q"
    and "lookup w (join (d @ map Normal ns) n) = None"
  shows "create_dir_from h mode d (map Normal (ns @ [n])) w
     = (Inr (), put (join (d @ map Normal ns) n) (Directory (new_attr h mode)) w)"
  using assms(2,3)
proof (induction ns arbitrary: d)
  case Nil
  then have "real_dir w d" by simp
  from real_dir_parent [OF this] have "parent_is_dir w (join d n)" .
  with Nil assms(1) show ?case by (simp add: run_simps tryM_def returnM_apply)
next
  case (Cons m ns)
  have "real_dir w (join d m)" by (rule Cons.prems(1)) (simp_all add: join_def)
  then obtain a where a: "lookup w (join d m) = Some (Directory a)" by (auto simp: real_dir_def)
  have "create_dir_from h mode (join d m) (map Normal (ns @ [n])) w
     = (Inr (), put (join (join d m @ map Normal ns) n) (Directory (new_attr h mode)) w)"
  proof (rule Cons.IH)
    fix q assume q: "prefix q (join d m @ map Normal ns)" "prefix (join d m) q"
    then show "real_dir w q"
      using Cons.prems(1) prefix_order.trans [OF prefix_join] by (simp add: join_def)
  qed (use Cons.prems(2) in \<open>simp add: join_def\<close>)
  with a assms(1) show ?case by (simp add: run_simps tryM_def ensureM_apply join_def)
qed

end
