(* ===== verification/Tool_Manifest_Properties.thy ===== *)
theory Tool_Manifest_Properties
  imports Tool_Properties Calm
begin

text \<open>
  What a manifest generated by the release tool describes: every asset is the engine's own inspection of
  an archive file with the canonical name. The checksum files written on the way end in \<^verbatim>\<open>.sha256\<close>,
  so they are no archives; on a file system without symbolic links the archives are as they were
  before the command.
\<close>

definition checksum_like :: "path \<Rightarrow> bool" where
  "checksum_like q \<longleftrightarrow> (\<exists>d n. q = join d (n @ ''.sha256''))"

definition archives_kept :: "world \<Rightarrow> world \<Rightarrow> bool" where
  "archives_kept w v \<longleftrightarrow> plain v \<and> (\<forall>q. \<not> checksum_like q \<longrightarrow> lookup v q = lookup w q)"

lemma plain_file_bytes: "plain w \<Longrightarrow> file_bytes w p b \<longleftrightarrow> (\<exists>a. lookup w p = Some (RegularFile a b))"
proof -
  assume "plain w"
  then have "follow 40 w p = Some p" using plain_follow [of w 39 p] by simp
  then show ?thesis by (auto simp: file_bytes_def stat_def split: option.splits)
qed

lemma archives_kept_cong: "archives_kept w v \<Longrightarrow> lookup v' = lookup v \<Longrightarrow> archives_kept w v'"
  by (simp add: archives_kept_def plain_def)

lemma archives_kept_bytes:
  "archives_kept w v \<Longrightarrow> plain w \<Longrightarrow> \<not> checksum_like q \<Longrightarrow> file_bytes v q c \<Longrightarrow> file_bytes w q c"
  by (simp add: archives_kept_def plain_file_bytes)

lemma absolute_normalized_last:
  "file_name p = Some n \<Longrightarrow> \<exists>d. os_path h p = join d n"
proof -
  assume "file_name p = Some n"
  then obtain d where p: "p = d @ [Normal n]"
    by (auto simp: file_name_def rev_eq_Cons_iff split: list.splits component.splits)
  then show "\<exists>d. os_path h p = join d n"
    by (simp add: os_path_def absolute_normalized_def normalize_step_def join_def)
qed

lemma archive_not_checksum:
  assumes "is_archive_name app p"
  shows "\<not> checksum_like (os_path h p)"
proof -
  from assms obtain n where n: "file_name p = Some n" "suffix ''.tar.gz'' n \<or> suffix ''.zip'' n"
    by (auto simp: is_archive_name_def split: option.splits)
  then have "\<not> suffix ''.sha256'' n" by (auto simp: suffix_def append_eq_append_conv2) 
  with absolute_normalized_last [OF n(1), of h] show ?thesis
    by (auto simp: checksum_like_def suffix_def)
qed

lemma write_checksum_kept:
  assumes w: "write_checksum h p digest v = (Inr u, v')" and kept: "archives_kept w v"
  shows "archives_kept w v'"
proof -
  from w obtain name where n: "file_name p = Some name"
    and wr: "fs_write h (os_path h (checksum_path p name)) (digest @ ''  '' @ name @ [CHR 0x0A]) v = (Inr u, v')"
    by (auto simp: write_checksum_def bindM_return_iff liftE_apply write_path_def bind_eq_Some_conv dest!: from_utf8_Some)
  have "file_name (checksum_path p name) = Some (name @ ''.sha256'')"
    using n by (simp add: checksum_path_def with_file_name_def file_name_def)
  from absolute_normalized_last [OF this, of h] have like: "checksum_like (os_path h (checksum_path p name))"
    unfolding checksum_like_def by blast
  have "follow 40 v q = Some q" for q using kept plain_follow [of v 39 q] by (simp add: archives_kept_def)
  with fs_write_Inr(1) [OF wr] obtain a where
    "lookup v' = (lookup v)(os_path h (checksum_path p name) \<mapsto> RegularFile a (digest @ ''  '' @ name @ [CHR 0x0A]))" by auto
  with kept like show ?thesis by (auto simp: archives_kept_def plain_def)
qed

text \<open>The name of an inspected archive is the canonical one of its target.\<close>

lemma tool_inspect_Inr:
  assumes "tool_inspect_archive e app p version w = (Inr probe, w')"
  shows "lookup w' = lookup w" and "is_archive_name app p"
    and "\<exists>t. target_from_str (ap_target probe) = Some t
       \<and> file_name p = Some (archive_prefix app @ version @ ''-'' @ as_str t @ archive_suffix t)"
proof -
  have t: "touches {} (tool_inspect_archive e app p version)"
    unfolding tool_inspect_archive_def tool_inspect_zip_def tool_inspect_tar_def Let_def by (intro touches_intros)
  from t assms show "lookup w' = lookup w" by (rule reads_lookup)
  from assms obtain name where name: "file_name p = Some name" and arch: "is_archive_name app p"
    and rest: "let ending = (if suffix ''.zip'' name then ''.zip'' else ''.tar.gz'') in
      Option.bind (strip_suffix ending name) (strip_prefix (archive_prefix app @ version @ ''-'')) = Some (ap_target probe)
      \<and> (\<exists>t. target_from_str (ap_target probe) = Some t \<and> is_windows t = (ending = ''.zip''))"
    by (auto simp: tool_inspect_archive_def bindM_return_iff liftE_apply ensureM_apply returnM_apply Let_def
        validate_target_def tool_from_str_def target_is_windows_def bind_eq_Some_conv
        split: if_splits option.splits dest!: from_utf8_Some)
  show "is_archive_name app p" by fact
  show "\<exists>t. target_from_str (ap_target probe) = Some t
       \<and> file_name p = Some (archive_prefix app @ version @ ''-'' @ as_str t @ archive_suffix t)"
    using rest name by (auto simp: Let_def archive_suffix_def target_from_str_Some bind_eq_Some_conv split: if_splits)
qed

lemma probe_asset_archive: "probe_asset lib app v t probe = Inr a \<Longrightarrow> a_archive a = archive_name lib t app v"
  by (auto simp: probe_asset_def Let_def with_launcher_def asset_new_def split: if_splits option.splits)

text \<open>What stands behind an entry of the manifest: a file of the asset's name that the engine's inspection accepts.\<close>

definition described :: "('v, 'z) tlib_scheme \<Rightarrow> app \<Rightarrow> world \<Rightarrow> release_asset \<Rightarrow> bool" where
  "described e app w a \<longleftrightarrow> (\<exists>p c x. file_name p = Some (a_archive a) \<and> file_bytes w (os_path (t_host e) p) c
     \<and> inspect_archive e app c a = Inr x)"

lemma manifest_step_Inr:
  assumes step: "manifest_step e app (version_string e v) v ts p u = (Inr ts', u')"
    and kept: "archives_kept w u" and w: "plain w"
  shows "\<exists>t a. ts' = btree_insert t a ts \<and> described e app w a" and "archives_kept w u'"
proof -
  from step obtain probe t a c x u1 u2 where
    pr: "tool_inspect_archive e app p (version_string e v) u = (Inr probe, u1)"
    and t: "target_from_str (ap_target probe) = Some t" and a: "probe_asset e app v t probe = Inr a"
    and c: "read_path (t_host e) p u1 = (Inr c, u2)" "inspect_archive e app c a = Inr x"
    and ck: "write_checksum (t_host e) p (ap_sha256 probe) u2 = (Inr (), u')" and ts': "ts' = btree_insert t a ts"
    by (auto simp: manifest_step_def bindM_return_iff liftE_apply ensureM_apply returnM_apply tool_from_str_def split: if_splits)
  note pr' = tool_inspect_Inr [OF pr] and c' = read_path_Inr [OF c(1)]
  have u1: "archives_kept w u1" using archives_kept_cong [OF kept] pr'(1) .
  have u2: "archives_kept w u2" using archives_kept_cong [OF u1] c' by blast
  have "file_name p = Some (a_archive a)"
    using pr'(3) t probe_asset_archive [OF a]
    by (simp add: archive_name_def target_root_name_def root_name_def archive_prefix_def)
  moreover have "file_bytes w (os_path (t_host e) p) c"
    using archives_kept_bytes [OF u1 w archive_not_checksum [OF pr'(2)]] c' by blast
  ultimately have "described e app w a" using c(2) unfolding described_def by blast
  with ts' show "\<exists>t a. ts' = btree_insert t a ts \<and> described e app w a" by blast
  show "archives_kept w u'" using write_checksum_kept [OF ck u2] .
qed

lemma manifest_loop_Inr:
  assumes "manifest_loop e app (version_string e v) v ts ps u = (Inr ts', u')" and "archives_kept w u" and w: "plain w"
    and "\<forall>(t, a) \<in> set ts. described e app w a" and "sorted_wrt (<) (map fst ts)"
  shows "(\<forall>(t, a) \<in> set ts'. described e app w a) \<and> sorted_wrt (<) (map fst ts')"
  using assms
proof (induction ps arbitrary: ts u)
  case (Cons p ps)
  from Cons.prems(1) obtain ts1 u1 where
    step: "manifest_step e app (version_string e v) v ts p u = (Inr ts1, u1)"
    and rest: "manifest_loop e app (version_string e v) v ts1 ps u1 = (Inr ts', u')"
    by (auto simp: bindM_return_iff)
  from manifest_step_Inr [OF step Cons.prems(2) w] obtain t a where
    ts1: "ts1 = btree_insert t a ts" "described e app w a" and u1: "archives_kept w u1" by blast
  have "\<forall>(t, a) \<in> set ts1. described e app w a"
  proof
    fix x assume "x \<in> set ts1"
    then have "x = (t, a) \<or> x \<in> set ts" using subsetD [OF set_btree_insert [of t a ts], of x] ts1(1) by simp
    with ts1(2) Cons.prems(4) show "case x of (t, a) \<Rightarrow> described e app w a" by auto
  qed
  moreover have "sorted_wrt (<) (map fst ts1)" unfolding ts1(1) by (rule sorted_btree_insert [OF Cons.prems(5)])
  ultimately show ?case by (rule Cons.IH [OF rest u1 w])
qed (simp add: returnM_apply)

lemma touches_artifact_paths: "touches S (artifact_paths h app ps)"
  by (induction ps) (auto intro!: touches_intros)

lemma touches_collect_archives: "touches S (collect_archives e a app)"
  unfolding collect_archives_def Let_def by (intro touches_intros touches_artifact_paths)

text \<open>C15: a generated manifest is what it says: it is written to the named output in a form that parses back, for
  the version asked for, its targets in order and each once, and every asset in it describes an archive
  file of its canonical name that the engine's own inspection accepts against exactly that asset.\<close>

theorem generated_manifest_describes:
  assumes json: "manifest_json_ok e" and w: "plain w"
    and gen: "generate_manifest e a w = (Inr u, w')"
  shows "\<exists>app v m out. app_from_args a = Inr app \<and> args_one a ''version'' = Inr (version_string e v) \<and> m_version m = v
     \<and> named_file e a ''output'' out \<and> file_bytes w' out (json_of_manifest e m)
     \<and> (length (json_of_manifest e m) \<le> MAX_METADATA_SIZE \<longrightarrow> manifest_from_bytes e app (json_of_manifest e m) = Inr m)
     \<and> m_targets m \<noteq> [] \<and> sorted_wrt (<) (map fst (m_targets m))
     \<and> (\<forall>(t, asset) \<in> set (m_targets m). canonical_asset e app v t asset \<and> described e app w asset)"
proof -
  from gen obtain app version v outarg archives targets published expires m b w1 w2 w3 w4 where
    arg: "app_from_args a = Inr app" "args_one a ''version'' = Inr version" "parse_version e version = Some v"
      "args_one a ''output'' = Inr outarg"
    and col: "collect_archives e a app w = (Inr archives, w1)"
    and loop: "manifest_loop e app version v [] archives w1 = (Inr targets, w2)"
    and m: "manifest_new e app v published expires targets = Inr m" and b: "manifest_to_bytes e m app = Inr b"
    and wr: "write_path (t_host e) (path_of outarg) b w4 = (Inr u, w')"
    unfolding generate_manifest_def bindM_return_iff liftE_apply toolR_Inr prod.inject ok_orE_Inr by blast
  have version: "version = version_string e v" using parse_version_Some [OF arg(3)] by simp
  have "lookup w1 = lookup w" using touches_collect_archives col by (rule reads_lookup)
  then have "archives_kept w w1" using w by (simp add: archives_kept_def plain_def)
  from manifest_loop_Inr [OF loop [unfolded version] this w]
  have targets: "\<forall>(t, a) \<in> set targets. described e app w a" "sorted_wrt (<) (map fst targets)" by auto
  have valid: "manifest_validate e m app = Inr ()" and mt: "m_targets m = targets" "m_version m = v"
    using m by (auto simp: manifest_new_def Let_def)
  have "b = json_of_manifest e m" using b by (auto simp: manifest_to_bytes_def)
  then have "file_bytes w' (os_path (t_host e) (path_of outarg)) (json_of_manifest e m)"
    using wr fs_write_Inr(2) by (auto simp: write_path_def)
  moreover have "manifest_from_bytes e app (json_of_manifest e m) = Inr m" if "length (json_of_manifest e m) \<le> MAX_METADATA_SIZE"
    using manifest_roundtrip [OF json _ valid that] targets(2) mt(1) by (simp add: in_key_order_def)
  moreover have "m_targets m \<noteq> []" and "\<forall>(t, asset) \<in> set targets. canonical_asset e app v t asset"
    using valid mt by (auto simp: manifest_validate_Inr)
  ultimately show ?thesis
    using arg(1,2,4) version mt targets unfolding named_file_def by blast
qed

end
