(* ===== verification/Tool_Witnesses.thy ===== *)
theory Tool_Witnesses
  imports Tool_Manifest_Properties Sample_Tool
begin

text \<open>
  The properties of the release tool at the machine of \<^verbatim>\<open>Sample_Tool\<close>, where every system call succeeds
  and no path is a symbolic link: the commands run by rewriting, one operation after the other.
\<close>

subsection \<open>Running a command\<close>

lemma calm_truncate [run_simps]: "calm w \<Longrightarrow> open_truncate h p w = (case lookup w p of
     None \<Rightarrow> if parent_is_dir w p then (Inr p, put p (RegularFile (new_attr h 0x1B6) []) w) else (Inl NotFound, w)
   | Some (RegularFile a _) \<Rightarrow> (Inr p, put p (RegularFile a []) w) | Some _ \<Rightarrow> (Inl OtherIo, w))"
  using plain_follow [of w 39 p] by (simp add: calm_io open_truncate_def calm_def)

lemma run_results [run_simps]:
  "toolIO message m w = (case m w of (Inl e, v) \<Rightarrow> (Inl message, v) | (Inr x, v) \<Rightarrow> (Inr x, v))"
  "toolR message r w = (case r of Inl e \<Rightarrow> Inl message | Inr x \<Rightarrow> Inr x, w)"
  "tryM n w = (case n w of (r, v) \<Rightarrow> (Inr r, v))"
  "map_errM g k w = (case k w of (Inl e, v) \<Rightarrow> (Inl (g e), v) | (Inr x, v) \<Rightarrow> (Inr x, v))"
  by (simp_all add: toolIO_def toolR_def tryM_def map_errM_def liftE_apply)

declare monad_simps [run_simps]

abbreviation in_bin :: "string \<Rightarrow> path" where
  "in_bin n \<equiv> [RootDir, Normal ''bin'', Normal n]"

lemma put_put: "put p n (put p m w) = put p n w"
  by (simp add: put_def update_triv)


lemma sample_calm [run_simps]: "calm (sample_world [])"
  by (auto simp: calm_def plain_def sample_world_def Let_def lookup_def split: if_splits)

lemma sample_dirs [run_simps]:
  "lookup (sample_world []) [RootDir] = Some (Directory \<lparr>at_uid = 0, at_mode = 0x1ED, at_nlink = 1, at_reparse = False, at_security = inherited_descriptor\<rparr>)"
  "lookup (sample_world []) [RootDir, Normal ''bin''] = Some (Directory \<lparr>at_uid = 0, at_mode = 0x1ED, at_nlink = 1, at_reparse = False, at_security = inherited_descriptor\<rparr>)"
  "n \<noteq> ''bin'' \<Longrightarrow> lookup (sample_world []) [RootDir, Normal n] = None"
  "lookup (sample_world []) (RootDir # Normal n # c # p) = None"
  by (simp_all add: sample_world_def Let_def lookup_def)

lemma sample_os_path [run_simps]: "os_path sample_host (RootDir # p) = foldl normalize_step [RootDir] p"
  by (simp add: os_path_def absolute_normalized_def normalize_step_def)

lemma tool_host [run_simps]: "t_host sample_tool = sample_host"
  by (simp add: sample_tool_def)

lemma tool_fields [simp]:
  "base64_encode sample_tool = sample_base64_encode" "base64_decode sample_tool = sample_base64_decode"
  "manifest_of_json sample_tool = decode manifest_codec" "json_of_manifest sample_tool = encode manifest_codec"
  "envelope_of_json sample_tool = decode envelope_codec" "json_of_envelope sample_tool = encode envelope_codec"
  "key_set_of_json sample_tool = sample_key_set" "json_of_key_set sample_tool = encode key_set_codec"
  "verifying_key sample_tool pk" "verify_strict sample_tool pk msg sig = (sig = sample_sign pk msg)"
  "sign sample_tool sk = sample_sign (sample_public sk)" "public_of sample_tool = sample_public"
  "sha256_hex sample_tool = sample_sha256" "zip_open sample_tool = sample_entries"
  by (simp_all add: sample_tool_def)

lemma high_nibble: "(of_char c :: nat) div 16 < 16"
  by (rule less_mult_imp_div_less) simp

lemma sample_base64: "sample_base64_decode (sample_base64_encode b) = Some b"
proof (induction b)
  case (Cons c b)
  with high_nibble [of c] show ?case by (simp add: sample_base64_encode_def)
qed (simp add: sample_base64_encode_def)

lemma sample_base64_length: "length (sample_base64_encode b) = 2 * length b"
  by (induction b) (simp_all add: sample_base64_encode_def)

lemma sample_tool_crypto: "crypto_ok sample_tool"
  by (simp add: crypto_ok_def decode_encode envelope_codec_ok sample_base64)

lemma sample_letter: "n < 16 \<Longrightarrow> base64_char (char_of (97 + n :: nat))"
proof -
  have "list_all (\<lambda>n. base64_char (char_of (97 + n :: nat))) [0..<16]" by code_simp
  then show "n < 16 \<Longrightarrow> base64_char (char_of (97 + n :: nat))" by (simp add: list_all_iff)
qed

lemma sample_documents: "documents_ok sample_tool"
proof -
  have "list_all base64_char (sample_base64_encode b)" for b
  proof (induction b)
    case (Cons c b)
    with high_nibble [of c] show ?case by (simp add: sample_base64_encode_def sample_letter)
  qed (simp add: sample_base64_encode_def)
  moreover have "sample_base64_encode b \<noteq> []" if "b \<noteq> []" for b
    using that by (cases b) (simp_all add: sample_base64_encode_def)
  ultimately show ?thesis
    by (simp add: documents_ok_def sample_key_set_def decode_encode key_set_codec_ok)
qed

subsection \<open>Key generation\<close>

lemma keygen_options: "args_one keygen_args ''id'' = Inr ''k''" "args_one keygen_args ''private-key'' = Inr ''/bin/priv''"
   "args_one keygen_args ''public-key'' = Inr ''/bin/pub''" "validate_key_id ''k'' = Inr ()"
   "path_of ''/bin/priv'' = [RootDir, Normal ''bin'', Normal ''priv'']" "path_of ''/bin/pub'' = [RootDir, Normal ''bin'', Normal ''pub'']"
  by code_simp+

lemmas keygen_steps = generate_key_def keygen_options ensure_new_path_def ensure_parent_def path_exists_def path_is_def
  write_key_pair_def write_new_def normalize_step_def parent_def parent_is_dir_def node_mode_def put_put Let_def

definition sample_secret :: bytes where
  "sample_secret = replicate 32 (CHR 0x00)"

definition keygen_world :: "world \<Rightarrow> world" where
  "keygen_world w = put (in_bin ''pub'') (RegularFile (new_attr sample_host 0x1A4)
       (encode key_set_codec (key_document sample_tool ''k'' sample_secret) @ [CHR 0x0A]))
     (put (in_bin ''priv'') (RegularFile ((new_attr sample_host 0x180)\<lparr>at_mode := 0x180\<rparr>)
       (sample_base64_encode sample_secret @ [CHR 0x0A]))
     (w\<lparr>rng_pos := Suc (rng_pos w)\<rparr>))"

lemma keygen_runs:
  assumes "calm w" and "lookup w [RootDir, Normal ''bin''] = Some (Directory a)"
    and "lookup w (in_bin ''pub'') = None" and "lookup w (in_bin ''priv'') = None" and "rng w (rng_pos w) = sample_secret"
  shows "generate_key sample_tool keygen_args w = (Inr (), keygen_world w)"
  using assms by (simp add: keygen_steps run_simps keygen_world_def cong: run_bind_cong)

lemma sample_random: "rng (sample_world ss) (rng_pos (sample_world ss)) = sample_secret"
proof -
  have "char_of (0 :: nat) = CHR 0x00" by code_simp
  then show ?thesis by (simp add: sample_world_def sample_secret_def Let_def)
qed

theorem keygen_never_overwrites_witness:
  "fresh_key_files sample_tool keygen_args (lookup (sample_world [])) (lookup (keygen_world (sample_world [])))"
proof -
  have "generate_key sample_tool keygen_args (sample_world []) = (Inr (), keygen_world (sample_world []))"
    by (intro keygen_runs) (simp_all add: run_simps sample_random)
  from keygen_never_overwrites [OF this] show ?thesis by simp
qed

subsection \<open>Signing\<close>

definition tool_manifest :: "nat release_manifest" where
  "tool_manifest = \<lparr>m_schema_version = 2, m_version = 7, m_published_at = ''1500'', m_expires_at = ''2000'',
     m_targets = [(X86_64PcWindowsMsvc, tool_asset)]\<rparr>"

lemma tool_manifest_valid: "manifest_validate sample_tool tool_manifest tool_app = Inr ()"
  by code_simp

lemma tool_manifest_length: "length (encode manifest_codec tool_manifest) \<le> MAX_METADATA_SIZE"
proof -
  have "length (encode manifest_codec tool_manifest) \<le> 2000"
    by (simp add: encode_def manifest_codec_def asset_codec_def payload_codec_def launcher_codec_def option_codec_def iso_codec_def
        pair_codec_def list_codec_def nat_codec_def string_codec_def word_codec_def target_codec_def tool_manifest_def
        tool_asset_def sample_sha256_def zip_lengths sample_root_def)
  then show ?thesis by (simp add: MAX_METADATA_SIZE_def)
qed

lemma tool_manifest_parsed: "manifest_from_bytes sample_tool tool_app (encode manifest_codec tool_manifest) = Inr tool_manifest"
  by (simp add: manifest_from_bytes_Inr tool_manifest_valid tool_manifest_length decode_encode manifest_codec_ok)

lemma tool_manifest_times: "m_published_at tool_manifest = ''1500''" "m_expires_at tool_manifest = ''2000''"
  by (simp_all add: tool_manifest_def)

lemma tool_timestamps: "validate_published_at sample_tool ''1500'' = Inr ()" "validate_timestamp sample_tool ''2000'' = Inr ()"
  by code_simp+

definition sign_world :: world where
  "sign_world = put (in_bin ''demo-release.json'') (RegularFile (new_attr sample_host 0x1A4) (encode manifest_codec tool_manifest))
     (sample_world [])"

lemma sign_options: "app_from_args sign_args = Inr tool_app" "args_one sign_args ''manifest'' = Inr ''/bin/demo-release.json''"
   "args_one sign_args ''output'' = Inr ''/bin/demo-release.signatures.json''" "args_one sign_args ''key-id'' = Inr ''k''"
   "args_optional_one sign_args ''private-key'' = Inr (Some ''/bin/priv'')" "args_flag sign_args ''append'' = False"
   "path_of ''/bin/demo-release.json'' = in_bin ''demo-release.json''"
   "path_of ''/bin/demo-release.signatures.json'' = in_bin ''demo-release.signatures.json''"
  by code_simp+

lemma sample_key_text:
  "from_utf8 (sample_base64_encode sample_secret @ [CHR 0x0A]) = Some (sample_base64_encode sample_secret @ [CHR 0x0A])"
  "trim (sample_base64_encode sample_secret @ [CHR 0x0A]) = sample_base64_encode sample_secret"
  "sample_base64_encode sample_secret \<noteq> []" "has_space (sample_base64_encode sample_secret) = False"
  "length sample_secret = 32"
  by code_simp+

definition tool_envelope :: signature_envelope where
  "tool_envelope = sign_manifest_multi sample_tool (encode manifest_codec tool_manifest) [(''k'', sample_secret)]"

lemma tool_envelope_new: "append_signature ''k'' (envelope_new [])
    (sign_manifest_multi sample_tool (encode manifest_codec tool_manifest) [(''k'', sample_secret)]) = Inr tool_envelope"
  "envelope_to_bytes sample_tool tool_envelope = Inr (encode envelope_codec tool_envelope)"
  by (simp_all add: append_signature_def tool_envelope_def sign_manifest_multi_def envelope_new_def envelope_to_bytes_def)

lemma sign_runs:
  "tool_sign_manifest sample_tool sign_args (keygen_world sign_world)
     = (Inr (), put (in_bin ''demo-release.signatures.json'') (RegularFile (new_attr sample_host 0x1B6) (encode envelope_codec tool_envelope))
         (keygen_world sign_world))"
  by (simp add: tool_sign_manifest_def sign_options keygen_options tool_envelope_new sample_key_text sample_base64 ok_orE_def load_manifest_def load_private_key_def existing_envelope_def read_path_def
      write_path_def fs_write_def run_simps tool_manifest_parsed tool_manifest_times tool_timestamps keygen_world_def sign_world_def Let_def
      normalize_step_def parent_def parent_is_dir_def put_put
      cong: run_bind_cong)

theorem generated_key_signs_witness:
  "\<exists>i keys ks p manifest o' sigs. i = ''k''
     \<and> file_bytes (keygen_world sign_world) (in_bin ''pub'') keys \<and> key_set_from_bytes sample_tool keys = Inr ks
     \<and> named_file sample_tool sign_args ''manifest'' p \<and> file_bytes (keygen_world sign_world) p manifest
     \<and> named_file sample_tool sign_args ''output'' o'
     \<and> file_bytes (snd (tool_sign_manifest sample_tool sign_args (keygen_world sign_world))) o' sigs
     \<and> (length sigs \<le> MAX_METADATA_SIZE \<longrightarrow> verify_manifest_with_keys sample_tool manifest sigs (ks_keys ks) = Inr i)"
proof -
  have "rng sign_world (rng_pos sign_world) = sample_secret"
    using sample_random by (simp add: sign_world_def put_def)
  then have gen: "generate_key sample_tool keygen_args sign_world = (Inr (), keygen_world sign_world)"
    by (intro keygen_runs) (simp_all add: sign_world_def run_simps)
  have same: "args_one sign_args ''key-id'' = args_one keygen_args ''id''"
    "args_one sign_args ''private-key'' = args_one keygen_args ''private-key''"
    by code_simp+
  have "q = in_bin ''pub''" if "named_file sample_tool keygen_args ''public-key'' q" for q
    using that by (simp add: named_file_def keygen_options run_simps normalize_step_def)
  with generated_key_signs [OF sample_tool_crypto sample_documents gen sign_runs same] show ?thesis
    by (simp add: keygen_options sign_runs) blast
qed

subsection \<open>Manifest generation\<close>

definition archive_name_7 :: string where
  "archive_name_7 = sample_root @ ''.zip''"

lemma path_of_archive: "sample_archive_path = in_bin archive_name_7"
  by (simp add: sample_archive_path_def archive_name_7_def)

lemma hash_runs:
  assumes "calm w" and "lookup w [RootDir] = Some (Directory a)" and "lookup w [RootDir, Normal ''bin''] = Some (Directory a')"
    and "lookup w (in_bin n) = Some (RegularFile a'' b)" and "CHR 0x00 \<notin> set n"
  shows "hash_file sample_tool (in_bin n) w = (Inr \<lparr>di_size = of_nat (length b), di_sha256 = sample_sha256 b\<rparr>, w)"
  using assms
  by (simp add: hash_file_def run_simps normalize_step_def sha256_file_def open_regular_file_secure_def Let_def parent_def
      file_name_def open_directory_def open_directory_tree_def join_def ok_orE_def sha256_reader_result sha256_bytes_def reader_of_def
      cong: run_bind_cong)

lemma archive_facts: "from_utf8 archive_name_7 = Some archive_name_7" "is_archive_name tool_app (in_bin archive_name_7) = True"
  "suffix ''.zip'' archive_name_7 = True" "strip_suffix ''.zip'' archive_name_7 = Some sample_root"
  "strip_prefix (archive_prefix tool_app @ ''1.0.7-'') sample_root = Some ''x86_64-pc-windows-msvc''"
  "validate_target ''x86_64-pc-windows-msvc'' = Inr ()" "target_is_windows ''x86_64-pc-windows-msvc'' = True"
  "launcher_name tool_app = Some ''demo-launcher.exe''" "payload_name tool_app True = ''demo.exe''"
  "CHR 0x00 \<in> set archive_name_7 = False"
  by code_simp+

lemma probe_runs: "bindE (probe_loop (tool_zip_step sample_tool sample_root (sample_root @ ''/demo.exe'') (sample_root @ ''/demo-launcher.exe'')) probe_start
    [Some (sample_entry [] []), Some (sample_entry ''demo.exe'' ''payload''), Some (sample_entry ''demo-launcher.exe'' ''launcher'')])
    finish_probe = Inr \<lparr>ac_payload = \<lparr>di_size = 7, di_sha256 = sample_sha256 ''payload''\<rparr>,
      ac_launcher = Some \<lparr>di_size = 8, di_sha256 = sample_sha256 ''launcher''\<rparr>\<rparr>"
  by code_simp

lemma inspect_runs:
  assumes "calm w" and "lookup w [RootDir] = Some (Directory a)" and "lookup w [RootDir, Normal ''bin''] = Some (Directory a')"
    and "lookup w (in_bin archive_name_7) = Some (RegularFile a'' sample_zip)"
  shows "tool_inspect_archive sample_tool tool_app (in_bin archive_name_7) ''1.0.7'' w
    = (Inr \<lparr>ap_target = ''x86_64-pc-windows-msvc'', ap_size = 287, ap_sha256 = sample_sha256 sample_zip,
         ap_payload = \<lparr>di_size = 7, di_sha256 = sample_sha256 ''payload''\<rparr>,
         ap_launcher = Some \<lparr>di_size = 8, di_sha256 = sample_sha256 ''launcher''\<rparr>\<rparr>, w)"
proof -
  let ?zs = "[Some (sample_entry [] []), Some (sample_entry ''demo.exe'' ''payload''), Some (sample_entry ''demo-launcher.exe'' ''launcher'')]"
  let ?loop = "probe_loop (tool_zip_step sample_tool sample_root (sample_root @ ''/demo.exe'') (sample_root @ ''/demo-launcher.exe'')) probe_start ?zs"
  obtain st where st: "?loop = Inr st" and fin: "finish_probe st = Inr \<lparr>ac_payload = \<lparr>di_size = 7, di_sha256 = sample_sha256 ''payload''\<rparr>,
      ac_launcher = Some \<lparr>di_size = 8, di_sha256 = sample_sha256 ''launcher''\<rparr>\<rparr>"
    using probe_runs unfolding bindE_Inr by blast
  have "tool_inspect_zip sample_tool (in_bin archive_name_7) sample_root (sample_root @ ''/demo.exe'') (sample_root @ ''/demo-launcher.exe'') w
    = (Inr \<lparr>ac_payload = \<lparr>di_size = 7, di_sha256 = sample_sha256 ''payload''\<rparr>,
      ac_launcher = Some \<lparr>di_size = 8, di_sha256 = sample_sha256 ''launcher''\<rparr>\<rparr>, w)"
    using assms st fin by (simp add: tool_inspect_zip_def run_simps normalize_step_def sample_entries_def ok_orE_def
        cong: run_bind_cong del: probe_loop.simps)
  then show ?thesis
    using assms by (simp add: tool_inspect_archive_def run_simps Let_def file_name_def archive_facts hash_runs zip_lengths ok_orE_def
        cong: run_bind_cong)
qed

lemma manifest_options: "app_from_args manifest_args = Inr tool_app" "args_one manifest_args ''version'' = Inr ''1.0.7''"
   "args_one manifest_args ''output'' = Inr ''/bin/demo-release.json''" "args_optional_one manifest_args ''artifacts-dir'' = Inr (Some ''/bin'')"
   "args_optional_one manifest_args ''expires-at'' = Inr (Some ''2000'')" "args_many manifest_args ''archive'' = []"
   "ar_positionals manifest_args = []" "path_of ''/bin'' = [RootDir, Normal ''bin'']"
   "parse_version sample_tool ''1.0.7'' = Some 7" "utc_rfc3339 sample_tool 1500000000000 = ''1500''"
   "tool_from_str ''x86_64-pc-windows-msvc'' = Inr X86_64PcWindowsMsvc"
  by code_simp+

lemma probe_described: "probe_asset sample_tool tool_app 7 X86_64PcWindowsMsvc
    \<lparr>ap_target = ''x86_64-pc-windows-msvc'', ap_size = 287, ap_sha256 = sample_sha256 sample_zip,
     ap_payload = \<lparr>di_size = 7, di_sha256 = sample_sha256 ''payload''\<rparr>,
     ap_launcher = Some \<lparr>di_size = 8, di_sha256 = sample_sha256 ''launcher''\<rparr>\<rparr> = Inr tool_asset"
  by code_simp

lemma archive_apart: "archive_name_7 \<noteq> ''demo-release.json''" "archive_name_7 \<noteq> ''demo-release.signatures.json''"
  "archive_name_7 \<noteq> ''pub''" "archive_name_7 @ ''.sha256'' \<noteq> ''demo-release.json''"
  "archive_name_7 @ ''.sha256'' \<noteq> ''demo-release.signatures.json''" "archive_name_7 @ ''.sha256'' \<noteq> ''pub''"
  by code_simp+

definition manifest_world :: world where
  "manifest_world = with_archive (sample_world [])"

lemma manifest_files: "files manifest_world = files (sample_world []) @ [(sample_archive_path, RegularFile (new_attr sample_host 0x1A4) sample_zip)]"
  by (simp add: manifest_world_def with_archive_def put_def sample_world_def Let_def sample_archive_path_def)

lemma manifest_calm: "calm manifest_world"
  by (simp add: manifest_world_def with_archive_def run_simps)

lemma manifest_world_frame: "clock (put p n w) = clock w" "clock_pos (put p n w) = clock_pos w"
  "clock manifest_world = clock (sample_world [])" "clock_pos manifest_world = 0"
  by (simp_all add: put_def manifest_world_def with_archive_def sample_world_def Let_def)

lemma sample_clock: "clock (sample_world ss) n = 1500000000000"
  by (simp add: sample_world_def Let_def)

lemma tool_manifest_new: "manifest_new sample_tool tool_app 7 ''1500'' ''2000'' [(X86_64PcWindowsMsvc, tool_asset)] = Inr tool_manifest"
  "manifest_to_bytes sample_tool tool_manifest tool_app = Inr (encode manifest_codec tool_manifest)"
  using tool_manifest_valid by (simp_all add: manifest_new_def tool_manifest_def Let_def MANIFEST_SCHEMA_VERSION_def manifest_to_bytes_def)

lemma sample_tool_semver: "semver_ok sample_tool"
  using sample_semver_ok by (simp add: semver_ok_def sample_tool_def)

lemma sample_version_7: "version_parse sample_tool ''1.0.7'' = Some 7"
  by code_simp

lemma manifest_runs: "\<exists>w'. generate_manifest sample_tool manifest_args manifest_world = (Inr (), w')"
proof -
  note calm = manifest_calm
  have dirs: "filter (\<lambda>q. parent q = Some [RootDir, Normal ''bin'']) (map fst (files manifest_world)) = [in_bin archive_name_7]"
    by (simp add: manifest_files sample_world_def Let_def path_of_archive parent_def)
  obtain x where x: "inspect_archive sample_tool tool_app sample_zip tool_asset = Inr x" using sample_inspected by blast
  have dir: "lookup manifest_world [RootDir, Normal ''bin''] = lookup (sample_world []) [RootDir, Normal ''bin'']"
    "lookup manifest_world [RootDir] = lookup (sample_world []) [RootDir]"
    "lookup manifest_world (in_bin archive_name_7) = Some (RegularFile (new_attr sample_host 0x1A4) sample_zip)"
    by (simp_all add: manifest_world_def with_archive_def path_of_archive)
  have list: "collect_archives sample_tool manifest_args tool_app manifest_world = (Inr [in_bin archive_name_7], manifest_world)"
    by (simp add: collect_archives_def manifest_options list_directory_def run_simps calm dirs dir normalize_step_def path_is_def
        archive_facts Let_def cong: run_bind_cong)
  let ?w = "put (in_bin (archive_name_7 @ ''.sha256'')) (RegularFile (new_attr sample_host 0x1B6)
      (sample_sha256 sample_zip @ ''  '' @ archive_name_7 @ [CHR 0x0A])) manifest_world"
  have none: "lookup manifest_world (in_bin (archive_name_7 @ ''.sha256'')) = None"
    by (simp add: manifest_world_def with_archive_def path_of_archive run_simps)
  have target: "lookup manifest_world (in_bin ''demo-release.json'') = None"
    using archive_apart by (simp add: manifest_world_def with_archive_def path_of_archive run_simps)
  have step: "manifest_step sample_tool tool_app ''1.0.7'' 7 [] (in_bin archive_name_7) manifest_world
      = (Inr [(X86_64PcWindowsMsvc, tool_asset)], ?w)"
    by (simp add: manifest_step_def inspect_runs [OF calm] dir run_simps manifest_options probe_described read_path_def calm
        normalize_step_def x write_checksum_def write_path_def fs_write_def checksum_path_def with_file_name_def file_name_def archive_facts
        none parent_is_dir_def parent_def put_put ok_orE_def cong: run_bind_cong)
  show ?thesis
    by (simp add: generate_manifest_def manifest_options ok_orE_def run_simps list step utc_now_def sample_clock manifest_world_frame
        tool_timestamps tool_manifest_new write_path_def fs_write_def sign_options calm dir normalize_step_def parent_is_dir_def
        parent_def put_put target cong: run_bind_cong)
qed

theorem generated_manifest_describes_witness:
  "\<exists>w' m out. generate_manifest sample_tool manifest_args manifest_world = (Inr (), w') \<and> m_version m = 7
     \<and> named_file sample_tool manifest_args ''output'' out \<and> file_bytes w' out (json_of_manifest sample_tool m)
     \<and> m_targets m \<noteq> [] \<and> (\<forall>(t, asset) \<in> set (m_targets m). described sample_tool tool_app manifest_world asset)"
proof -
  obtain w' where run: "generate_manifest sample_tool manifest_args manifest_world = (Inr (), w')" using manifest_runs by blast
  have "manifest_json_ok sample_tool"
    by (simp add: manifest_json_ok_def decode_encode manifest_codec_ok)
  moreover have "plain manifest_world" using manifest_calm by (simp add: calm_def)
  ultimately obtain app v m out where "app_from_args manifest_args = Inr app"
    and "args_one manifest_args ''version'' = Inr (version_string sample_tool v)" and "m_version m = v"
    and rest: "named_file sample_tool manifest_args ''output'' out" "file_bytes w' out (json_of_manifest sample_tool m)"
      "m_targets m \<noteq> []" "\<forall>(t, asset) \<in> set (m_targets m). canonical_asset sample_tool app v t asset \<and> described sample_tool app manifest_world asset"
    using generated_manifest_describes [OF _ _ run] by blast
  moreover from this have "app = tool_app" by (simp add: manifest_options)
  moreover have "v = 7"
    using calculation(2) sample_version_7 sample_tool_semver by (metis manifest_options(2) sum.inject(2) semver_ok_def option.inject)
  moreover have "\<forall>(t, asset) \<in> set (m_targets m). described sample_tool app manifest_world asset" using rest(4) by blast
  ultimately show ?thesis using run by blast
qed

subsection \<open>Verification\<close>

definition checksum_line :: bytes where
  "checksum_line = sample_sha256 sample_zip @ ''  '' @ archive_name_7 @ [CHR 0x0A]"

definition verify_world :: world where
  "verify_world =
     put (in_bin (archive_name_7 @ ''.sha256'')) (RegularFile (new_attr sample_host 0x1B6)
       checksum_line)
     (put (in_bin ''demo-release.signatures.json'') (RegularFile (new_attr sample_host 0x1B6) (encode envelope_codec tool_envelope))
     (put (in_bin ''demo-release.json'') (RegularFile (new_attr sample_host 0x1B6) (encode manifest_codec tool_manifest))
     (put (in_bin ''pub'') (RegularFile (new_attr sample_host 0x1A4)
       (encode key_set_codec (key_document sample_tool ''k'' sample_secret) @ [CHR 0x0A]))
     manifest_world)))"

lemma verify_options: "app_from_args verify_args = Inr tool_app" "args_one verify_args ''manifest'' = Inr ''/bin/demo-release.json''"
   "args_one verify_args ''signatures'' = Inr ''/bin/demo-release.signatures.json''" "args_one verify_args ''keys'' = Inr ''/bin/pub''"
   "args_one verify_args ''artifacts-dir'' = Inr ''/bin''"
   "metadata_filename tool_app = ''demo-release.json''" "signature_filename tool_app = ''demo-release.signatures.json''"
  by code_simp+

lemma verify_calm: "calm verify_world"
  by (simp add: verify_world_def run_simps manifest_calm)

lemma verify_files:
  "lookup verify_world [RootDir] = lookup (sample_world []) [RootDir]"
  "lookup verify_world [RootDir, Normal ''bin''] = lookup (sample_world []) [RootDir, Normal ''bin'']"
  "lookup verify_world (in_bin ''pub'') = Some (RegularFile (new_attr sample_host 0x1A4)
       (encode key_set_codec (key_document sample_tool ''k'' sample_secret) @ [CHR 0x0A]))"
  "lookup verify_world (in_bin ''demo-release.json'') = Some (RegularFile (new_attr sample_host 0x1B6) (encode manifest_codec tool_manifest))"
  "lookup verify_world (in_bin ''demo-release.signatures.json'') = Some (RegularFile (new_attr sample_host 0x1B6) (encode envelope_codec tool_envelope))"
  "lookup verify_world (in_bin archive_name_7) = Some (RegularFile (new_attr sample_host 0x1A4) sample_zip)"
  "lookup verify_world (in_bin (archive_name_7 @ ''.sha256'')) = Some (RegularFile (new_attr sample_host 0x1B6)
       checksum_line)"
  using archive_apart by (auto simp add: verify_world_def manifest_world_def with_archive_def path_of_archive)

lemma verify_listing: "filter (\<lambda>q. parent q = Some [RootDir, Normal ''bin'']) (map fst (files verify_world))
   = [in_bin archive_name_7, in_bin ''pub'', in_bin ''demo-release.json'', in_bin ''demo-release.signatures.json'',
      in_bin (archive_name_7 @ ''.sha256'')]"
  using archive_apart
  by (simp add: verify_world_def put_def manifest_files sample_world_def Let_def path_of_archive parent_def)

lemma checksum_facts: "split_whitespace checksum_line = [sample_sha256 sample_zip, archive_name_7]"
  "from_utf8 checksum_line = Some checksum_line"
  "is_lower_hex (sample_sha256 sample_zip) 64" "dropWhile (\<lambda>c. c = CHR ''*'') archive_name_7 = archive_name_7"
  "is_archive_name tool_app (in_bin ''pub'') = False" "is_archive_name tool_app (in_bin ''demo-release.json'') = False"
  "is_archive_name tool_app (in_bin ''demo-release.signatures.json'') = False"
  "is_archive_name tool_app (in_bin (archive_name_7 @ ''.sha256'')) = False"
  by code_simp+

lemma key_document_parsed:
  "key_set_from_bytes sample_tool (encode key_set_codec (key_document sample_tool ''k'' sample_secret) @ [CHR 0x0A])
    = Inr (key_document sample_tool ''k'' sample_secret)"
  by (simp add: key_set_from_bytes_def sample_key_set_def decode_encode key_set_codec_ok key_document_def check_keys_Inr
      trusted_key_ed25519_def decode_public_key_Inr is_ok_iff sample_base64)

lemma tool_envelope_length: "length (encode envelope_codec tool_envelope) \<le> MAX_METADATA_SIZE"
proof -
  have "length (encode envelope_codec tool_envelope) \<le> 1000"
    by (simp add: encode_def envelope_codec_def entry_codec_def iso_codec_def pair_codec_def list_codec_def nat_codec_def
        string_codec_def word_codec_def tool_envelope_def sign_manifest_multi_def envelope_new_def ED25519_ALGORITHM_def
        SIGNATURE_SCHEMA_VERSION_def sample_base64_length)
  then show ?thesis by (simp add: MAX_METADATA_SIZE_def)
qed

lemma tool_envelope_parsed: "envelope_from_bytes sample_tool (encode envelope_codec tool_envelope) = Inr tool_envelope"
  by (simp add: envelope_from_bytes_Inr tool_envelope_length decode_encode envelope_codec_ok)
    (simp add: tool_envelope_def sign_manifest_multi_def envelope_new_def ED25519_ALGORITHM_def)

lemma tool_signature_verifies:
  "verify_manifest_with_keys sample_tool (encode manifest_codec tool_manifest) (encode envelope_codec tool_envelope)
     (ks_keys (key_document sample_tool ''k'' sample_secret)) = Inr ''k''"
proof -
  let ?keys = "ks_keys (key_document sample_tool ''k'' sample_secret)"
  have "entry_verifies sample_tool (encode manifest_codec tool_manifest) ?keys (hd (env_signatures tool_envelope))"
    by (simp add: entry_verifies_iff find_key_def key_document_def trusted_key_ed25519_def decode_public_key_Inr sample_base64
        tool_envelope_def sign_manifest_multi_def envelope_new_def)
  then show ?thesis
    using tool_envelope_parsed by (simp add: verify_with_keys_Inr has_ed25519_key_def key_document_def
        trusted_key_ed25519_def tool_envelope_def sign_manifest_multi_def envelope_new_def)
qed

lemma verify_listed_runs: "verify_listed sample_tool tool_app [RootDir, Normal ''bin''] {} (m_targets tool_manifest) (verify_world\<lparr>clock_pos := Suc 0\<rparr>)
   = (Inr {archive_name_7}, verify_world\<lparr>clock_pos := Suc 0\<rparr>)"
proof -
  obtain x where x: "inspect_archive sample_tool tool_app sample_zip tool_asset = Inr x" using sample_inspected by blast
  have asset: "m_targets tool_manifest = [(X86_64PcWindowsMsvc, tool_asset)]" "a_archive tool_asset = archive_name_7"
    "a_archive_size tool_asset = 287" "a_archive_sha256 tool_asset = sample_sha256 sample_zip"
    by (simp_all add: tool_manifest_def tool_asset_def archive_name_7_def zip_lengths)
  show ?thesis
    by (simp add: asset run_simps Let_def read_path_def verify_calm verify_files normalize_step_def x zip_lengths join_def
        verify_checksum_file_def file_name_def archive_facts checksum_path_def with_file_name_def checksum_facts ok_orE_def
        hash_runs cong: run_bind_cong)
qed

lemma verify_artifacts_runs:
  "verify_artifacts sample_tool tool_app tool_manifest [RootDir, Normal ''bin''] (verify_world\<lparr>clock_pos := Suc 0\<rparr>)
    = (Inr (), verify_world\<lparr>clock_pos := Suc 0\<rparr>)"
  by (simp add: verify_artifacts_def path_is_def run_simps verify_calm verify_files normalize_step_def verify_listed_runs
      list_directory_def verify_listing checksum_facts archive_facts file_name_def ok_orE_def cong: run_bind_cong)

lemma verify_keys_runs: "read_keys sample_tool (in_bin ''pub'') True verify_world
    = (Inr (key_document sample_tool ''k'' sample_secret), verify_world)"
  by (simp add: read_keys_def read_path_def run_simps verify_calm verify_files normalize_step_def key_document_parsed cong: run_bind_cong)
    (simp add: key_document_def has_ed25519_key_def trusted_key_ed25519_def check_trusted_key_def keygen_options ensureE_def returnM_apply
      ED25519_ALGORITHM_def PUBLIC_KEY_ALGORITHM_def)

lemma verify_clock: "utc_now verify_world = (Inr 1500000000000, verify_world\<lparr>clock_pos := Suc 0\<rparr>)"
  by (simp add: utc_now_def verify_world_def manifest_world_frame sample_clock)

lemma tool_manifest_fresh: "ensure_not_expired sample_tool tool_manifest 1500000000000 = Inr ()"
  by code_simp

lemma verify_runs: "verify_release sample_tool verify_args verify_world = (Inr (), verify_world\<lparr>clock_pos := Suc 0\<rparr>)"
  by (simp add: verify_release_def verify_options Let_def run_simps sign_options keygen_options manifest_options file_name_def
      load_manifest_def read_path_def verify_calm verify_files normalize_step_def tool_manifest_parsed tool_manifest_times
      tool_timestamps tool_envelope_parsed verify_keys_runs tool_signature_verifies verify_clock tool_manifest_fresh
      verify_artifacts_runs cong: run_bind_cong)

theorem verified_release_installable_witness:
  "\<exists>manifest sigs keys i. verify_manifest sample_tool (tool_app\<lparr>app_trust_anchor := keys\<rparr>) manifest sigs = Inr i
     \<and> file_bytes verify_world (in_bin ''demo-release.json'') manifest
     \<and> file_bytes verify_world (in_bin ''pub'') keys"
proof -
  have only: "p = in_bin ''demo-release.json''" if "named_file sample_tool verify_args ''manifest'' p" for p
    using that by (simp add: named_file_def verify_options sign_options run_simps normalize_step_def)
  have keys: "p = in_bin ''pub''" if "named_file sample_tool verify_args ''keys'' p" for p
    using that by (simp add: named_file_def verify_options keygen_options run_simps normalize_step_def)
  from verified_release_installable [OF verify_runs] obtain app manifest sigs doc i p q where
    "app_from_args verify_args = Inr app" "named_file sample_tool verify_args ''manifest'' p" "file_bytes verify_world p manifest"
    "named_file sample_tool verify_args ''keys'' q" "file_bytes verify_world q doc"
    "verify_manifest sample_tool (app\<lparr>app_trust_anchor := doc\<rparr>) manifest sigs = Inr i" by blast
  moreover from this have "app = tool_app" by (simp add: verify_options)
  ultimately show ?thesis using only keys by blast
qed

end
