(* ===== verification/Security_Properties.thy ===== *)
theory Security_Properties
  imports Sample_Installation Calm
begin

text \<open>
  Private directories: whatever fails or is interrupted, a directory the policy accepted is private to the
  user, on Unix by its owner and mode and on Windows by its owner and its access-control list; and on a
  healthy host the directory the policy creates is one it accepts.
\<close>

subsection \<open>An accepted directory is private\<close>

lemma get_security_info_Inr:
  "get_security_info p w = (Inr sd, w') \<Longrightarrow> lookup w' = lookup w \<and> (\<exists>n. lookup w p = Some n \<and> sd = node_security n)"
  unfolding get_security_info_def by (erule io_cases) (auto split: option.splits)

lemma validate_private_dacl_Inr:
  assumes "validate_private_dacl h p w = (Inr u, w')"
  shows "lookup w' = lookup w \<and> (\<exists>n a. lookup w p = Some n \<and> sd_control (node_security n) AND SE_DACL_PROTECTED \<noteq> 0
     \<and> sd_owner (node_security n) = Some (h_sid h) \<and> sd_dacl (node_security n) = Some [a]
     \<and> full_control_ace a \<and> ace_sid a = h_sid h)"
proof -
  from assms obtain sd w1 aces w2 where
    sd: "get_security_info p w = (Inr sd, w1)" and
    aces: "sd_dacl sd = Some aces" "sd_control sd AND SE_DACL_PROTECTED \<noteq> 0" and
    w2: "lookup w2 = lookup w1" and
    rest: "bindM (query (length aces)) (\<lambda>count.
       bindM (ensureM (count = 1) PermissionDenied) (\<lambda>_.
       bindM (query (aces ! 0)) (\<lambda>a.
       bindM (ensureM (full_control_ace a) PermissionDenied) (\<lambda>_.
       bindM (current_user_sid h) (\<lambda>sid.
       bindM (query sid) (\<lambda>expected.
       bindM (ensureM (ace_sid a = expected) PermissionDenied) (\<lambda>_.
       ensureM (sd_owner sd = Some expected) PermissionDenied))))))) w2 = (Inr u, w')"
    unfolding validate_private_dacl_def bindM_return_iff [of "get_security_info p"]
    by (auto elim!: query_bindE simp: throwM_apply split: option.splits if_splits)
  from rest obtain v where one: "length aces = 1" "full_control_ace (aces ! 0)" "lookup v = lookup w2" and
    who: "ace_sid (aces ! 0) = h_sid h" "sd_owner sd = Some (h_sid h)" "lookup w' = lookup v"
    by (auto elim!: query_bindE current_user_sid_bindE simp: ensureM_def returnM_apply throwM_apply split: if_splits)
  from one(1) have "aces = [aces ! 0]" by (cases aces) auto
  with get_security_info_Inr [OF sd] aces w2 one who show ?thesis by auto
qed

lemma validate_private_dir_handle_Inr:
  assumes "validate_private_dir_handle h p w = (Inr u, w')" and "h_windows h"
  shows "lookup w' = lookup w \<and> (\<exists>a. lookup w p = Some (Directory a) \<and> private_attr h a)"
proof -
  from assms(1) obtain n w1 where
    n: "symlink_metadata p w = (Inr n, w1)" "is_dir n" "\<not> node_reparse n" and
    dacl: "validate_private_dacl h p w1 = (Inr u, w')"
    by (auto simp: validate_private_dir_handle_def bindM_return_iff ensureM_apply split: if_splits)
  from symlink_metadata_Inr [OF n(1)] validate_private_dacl_Inr [OF dacl] n(2,3) assms(2) show ?thesis
    by (auto simp: private_attr_def node_security_def elim!: is_dir_cases)
qed

lemma validate_private_dir_Inr:
  "validate_private_dir h n = Inr u \<Longrightarrow> \<not> h_windows h \<Longrightarrow> \<exists>a. n = Directory a \<and> private_attr h a"
  by (auto simp: validate_private_dir_def private_attr_def split: node.splits if_splits)

lemma create_private_directory_path:
  assumes "create_private_directory h p sd w = (Inr d, w')" and "canonical_path (h_windows h) p"
  shows "d = p"
proof -
  have np: "absolute_normalized h p = p" by (rule canonical_absolute_normalized [OF assms(2)])
  with assms(1) obtain par name dir v v' where
    p: "parent p = Some par" "file_name p = Some name" and
    dir: "open_directory_with_descriptor h par True (Some sd) w = (Inr dir, v)" and
    d: "open_relative h dir name FileCreate DirectoryFile (Some sd) v = (Inr d, v')"
    by (auto simp: create_private_directory_def Let_def bindM_return_iff ok_orE_def liftE_apply returnM_apply
        split: option.splits)
  have "canonical_path (h_windows h) par" using canonical_parent assms(2) p(1) .
  with open_directory_desc_path [OF dir] have "dir = par" by (simp add: canonical_absolute_normalized)
  with open_relative_path [OF d] p file_name_cases [of p name] show ?thesis by (auto simp: join_def)
qed

text \<open>A Windows machine with a real drive and a private directory in it.\<close>

definition private_descriptor :: descriptor where
  "private_descriptor = \<lparr>sd_owner = Some ''S-1-5-21-7'', sd_control = 0x9004,
     sd_dacl = Some [\<lparr>ace_type = 0, ace_flags = 3, ace_mask = 0x10000000, ace_sid = ''S-1-5-21-7''\<rparr>]\<rparr>"

definition windows_host :: host where
  "windows_host = sample_host\<lparr>h_windows := True,
     h_sddl := (\<lambda>s. if s = private_sddl ''S-1-5-21-7'' then Some private_descriptor else None)\<rparr>"

definition windows_world :: world where
  "windows_world =
     (let root = \<lparr>at_uid = 0, at_mode = 0x1ED, at_nlink = 1, at_reparse = False, at_security = inherited_descriptor\<rparr>
      in (sample_world [])\<lparr>files := [([Prefix ''C:'', RootDir], Directory root),
           ([Prefix ''C:'', RootDir, Normal ''app''], Directory (root\<lparr>at_security := private_descriptor\<rparr>))]\<rparr>)"

lemma windows_host_facts:
  "h_windows windows_host" "sddl_ok windows_host"
  "at_security a = private_descriptor \<Longrightarrow> private_attr windows_host a \<longleftrightarrow> \<not> at_reparse a"
  by (simp_all add: windows_host_def sample_host_def sddl_ok_def private_attr_def private_descriptor_def full_control_ace_def
      SE_DACL_PROTECTED_def OBJECT_INHERIT_ACE_def CONTAINER_INHERIT_ACE_def FILE_ALL_ACCESS_def GENERIC_ALL_def Let_def)

lemma windows_world_facts:
  "calm windows_world" "real_dir windows_world [Prefix ''C:'', RootDir]"
  "real_dir windows_world [Prefix ''C:'', RootDir, Normal ''app'']"
  "lookup windows_world [Prefix ''C:'', RootDir, Normal ''data''] = None"
  by (auto simp: calm_def plain_def windows_world_def sample_world_def Let_def lookup_def real_dir_def split: if_splits)

lemma windows_world_app:
  "\<exists>a. lookup windows_world [Prefix ''C:'', RootDir, Normal ''app''] = Some (Directory a) \<and> private_attr windows_host a"
  by (simp add: windows_world_def lookup_def Let_def windows_host_facts)

text \<open>C22: whatever system call fails or whenever the process dies, a directory that was accepted as private,
  found or just created, is a real directory at the very path and private to the user: on Unix it is the
  user's and closed to group and others, on Windows it is no reparse point, the user owns it and its
  protected access-control list grants full control to the user alone.\<close>

theorem ensured_directory_private:
  assumes "ensure_private_dir h p w = (Inr (), w')" and "canonical_path (h_windows h) p"
  shows "\<exists>a. lookup w' p = Some (Directory a) \<and> private_attr h a"
proof (cases "h_windows h")
  case True
  have found: "\<exists>a. lookup w' p = Some (Directory a) \<and> private_attr h a"
    if "open_directory_with_descriptor h p False None v = (Inr d, v1)" "validate_found_dir h d v1 = (Inr (), w')" for v d v1
    using open_directory_desc_path [OF that(1)] validate_private_dir_handle_Inr [OF that(2) [unfolded validate_found_dir_def] True]
      canonical_absolute_normalized [OF assms(2)] by auto
  have created: "\<exists>a. lookup w' p = Some (Directory a) \<and> private_attr h a"
    if "create_private_directory h p sd v = (Inr d, v1)" "validate_private_dir_handle h d v1 = (Inr (), w')" for sd v d v1
    using create_private_directory_path [OF that(1) assms(2)] validate_private_dir_handle_Inr [OF that(2) True] by auto
  from assms(1) True obtain r w1 where
    opened: "open_directory_with_descriptor h p False None w = (r, w1)" and
    rest: "(case r of Inr d \<Rightarrow> validate_found_dir h d
     | Inl e \<Rightarrow>
         bindM (ensureM (e = NotFound) e) (\<lambda>_.
         bindM (private_security_descriptor h) (\<lambda>sd.
         bindM (tryM (create_private_directory h p sd)) (\<lambda>created. case created of
           Inr d \<Rightarrow> validate_private_dir_handle h d
         | Inl e' \<Rightarrow>
             bindM (ensureM (e' = AlreadyExists) e') (\<lambda>_.
             bindM (open_directory_with_descriptor h p False None) (\<lambda>d. validate_found_dir h d)))))) w1 = (Inr (), w')"
    by (auto simp: ensure_private_dir_def ensure_private_dir_windows_def bindM_return_iff)
  show ?thesis
  proof (cases r)
    case (Inl e)
    with rest obtain sd w2 c w3 where
      made: "create_private_directory h p sd w2 = (c, w3)" and
      rest: "(case c of Inr d \<Rightarrow> validate_private_dir_handle h d
         | Inl e' \<Rightarrow>
             bindM (ensureM (e' = AlreadyExists) e') (\<lambda>_.
             bindM (open_directory_with_descriptor h p False None) (\<lambda>d. validate_found_dir h d))) w3 = (Inr (), w')"
      by (auto simp: bindM_return_iff ensureM_apply split: if_split_asm)
    show ?thesis
      by (cases c) (use made rest in \<open>auto simp: bindM_return_iff ensureM_apply intro: found created split: if_split_asm\<close>)
  qed (use opened rest found in auto)
next
  case False
  have checked: "\<exists>a. lookup w' p = Some (Directory a) \<and> private_attr h a"
    if "symlink_metadata p v = (Inr n, w')" "validate_private_dir h n = Inr ()" for v n
    using symlink_metadata_Inr [OF that(1)] validate_private_dir_Inr [OF that(2) False] by auto
  from assms(1) False obtain r w1 where
    found: "symlink_metadata p w = (r, w1)" and
    rest: "(case r of Inr n \<Rightarrow> liftE (validate_private_dir h n)
     | Inl e \<Rightarrow>
         bindM (ensureM (e = NotFound) e) (\<lambda>_.
         bindM (create_dir_all h 0x1C0 p) (\<lambda>_.
         bindM (set_permissions p 0x1C0) (\<lambda>_.
         bindM (symlink_metadata p) (\<lambda>n. liftE (validate_private_dir h n)))))) w1 = (Inr (), w')"
    by (auto simp: ensure_private_dir_def ensure_private_dir_unix_def bindM_return_iff)
  show ?thesis
    by (cases r) (use found rest in \<open>auto simp: bindM_return_iff ensureM_apply liftE_apply intro: checked
        split: if_split_asm\<close>)
qed

subsection \<open>A missing private directory is created\<close>

lemma sddl_okE:
  assumes "sddl_ok h" and "h_windows h"
  obtains d where "h_sddl h (private_sddl (h_sid h)) = Some d"
    "private_attr h ((new_attr h 0x1FF)\<lparr>at_security := d\<rparr>)"
  using assms by (auto simp: sddl_ok_def private_attr_def new_attr_def)

text \<open>A private directory passes the check of its handle.\<close>

lemma calm_validate_handle:
  assumes "calm w" and "h_windows h" and "lookup w p = Some (Directory a)" and "private_attr h a"
  shows "validate_private_dir_handle h p w = (Inr (), w)"
proof -
  from assms(2,4) obtain e where e: "\<not> at_reparse a" "sd_dacl (at_security a) = Some [e]" "full_control_ace e"
    "ace_sid e = h_sid h" "sd_owner (at_security a) = Some (h_sid h)" "sd_control (at_security a) AND SE_DACL_PROTECTED \<noteq> 0"
    by (auto simp: private_attr_def)
  have "validate_private_dacl h p w = (Inr (), w)"
    using assms(1,3) e by (simp add: validate_private_dacl_def run_simps current_user_sid_def ensureM_apply node_security_def)
  with assms(1,3) e(1) show ?thesis
    by (simp add: validate_private_dir_handle_def run_simps ensureM_apply)
qed

theorem ensured_directory_private_witness:
  "\<exists>w'. ensure_private_dir windows_host [Prefix ''C:'', RootDir, Normal ''app''] windows_world = (Inr (), w')
     \<and> (\<exists>a. lookup w' [Prefix ''C:'', RootDir, Normal ''app''] = Some (Directory a) \<and> private_attr windows_host a)"
proof -
  let ?p = "[Prefix ''C:'', RootDir, Normal ''app'']"
  obtain a where a: "lookup windows_world ?p = Some (Directory a)" "private_attr windows_host a"
    using windows_world_app by blast
  have can: "canonical_path (h_windows windows_host) ?p" by (simp add: windows_host_facts)
  have "walk_windows windows_host FileOpen None [Prefix ''C:'', RootDir] [''app''] windows_world = (Inr ?p, windows_world)"
  proof -
    have "real_dir windows_world q" if "prefix q ?p" "strict_prefix [Prefix ''C:'', RootDir] q" for q
    proof -
      from that have "q = ?p" by (auto simp: prefix_Cons strict_prefix_def)
      then show ?thesis by (simp add: windows_world_facts)
    qed
    with calm_walk [OF windows_world_facts(1), of FileOpen "[''app'']" "[Prefix ''C:'', RootDir]" windows_host None]
    show ?thesis by (simp add: wide_length_def)
  qed
  then have "open_directory_with_descriptor windows_host ?p False None windows_world = (Inr ?p, windows_world)"
    using windows_world_facts(1,2) canonical_absolute_normalized [OF can]
    by (simp add: open_directory_with_descriptor_def run_simps liftE_apply)
  then have run: "ensure_private_dir windows_host ?p windows_world = (Inr (), windows_world)"
    using calm_validate_handle [OF windows_world_facts(1) windows_host_facts(1) a] windows_host_facts(1) windows_world_facts(1)
    by (simp add: ensure_private_dir_def ensure_private_dir_windows_def validate_found_dir_def run_simps tryM_def)
  from ensured_directory_private [OF run can] run show ?thesis by blast
qed

lemma calm_private_descriptor:
  "calm w \<Longrightarrow> h_sddl h (private_sddl (h_sid h)) = Some d \<Longrightarrow> private_security_descriptor h w = (Inr d, w)"
  by (simp add: private_security_descriptor_def current_user_sid_def run_simps ok_orE_def liftE_apply)

text \<open>C23: on a healthy host, where every directory above it is real, a private directory that does not exist
  is created, and by the policy's own measure it is private; nothing else changes. On Unix the mask of the
  process is made up for; on Windows the host must read the text of the descriptor as the code means it.\<close>

theorem missing_private_dir_created:
  assumes "calm w" and "canonical_path (h_windows h) (join d n)" and "lookup w (join d n) = None"
    and above: "\<And>q. prefix q d \<Longrightarrow> RootDir \<in> set q \<Longrightarrow> real_dir w q"
    and names: "\<And>m. Normal m \<in> set (join d n) \<Longrightarrow> 2 * wide_length m < 2 ^ 16" and "h_windows h \<Longrightarrow> sddl_ok h"
  shows "\<exists>w' a. ensure_private_dir h (join d n) w = (Inr (), w') \<and> lookup w' = (lookup w)(join d n \<mapsto> Directory a)
     \<and> private_attr h a"
proof (cases "h_windows h")
  case False
  obtain ns where d: "d = RootDir # map Normal ns"
    using assms(2) False unfolding canonical_join_iff by (auto elim!: canonical_cases dest!: normals_names)
  have cd: "create_dir_all h 0x1C0 (join d n) w = (Inr (), put (join d n) (Directory (new_attr h 0x1C0)) w)"
  proof -
    have "create_dir_from h 0x1C0 [RootDir] (map Normal (ns @ [n])) w
       = (Inr (), put (join ([RootDir] @ map Normal ns) n) (Directory (new_attr h 0x1C0)) w)"
      using assms(1) above assms(3) by (intro calm_create_dir) (auto simp: d dest: set_mono_prefix)
    then show ?thesis by (simp add: create_dir_all_def d join_def)
  qed
  let ?a = "(new_attr h 0x1C0)\<lparr>at_mode := 0x1C0\<rparr>"
  have "ensure_private_dir h (join d n) w = (Inr (), put (join d n) (Directory ?a) (put (join d n) (Directory (new_attr h 0x1C0)) w))"
    using assms(1,3) False
    by (simp add: ensure_private_dir_def ensure_private_dir_unix_def run_simps tryM_def ensureM_apply cd liftE_apply
        validate_private_dir_def new_attr_def)
  moreover have "private_attr h ?a" using False by (simp add: private_attr_def new_attr_def)
  ultimately show ?thesis by (auto simp: fun_eq_iff)
next
  case True
  obtain x ns where d: "d = Prefix x # RootDir # map Normal ns"
    using assms(2) True unfolding canonical_join_iff by (auto elim!: canonical_cases dest!: normals_names)
  let ?r = "[Prefix x, RootDir]"
  have real: "real_dir w q" if "prefix q (?r @ map Normal ns)" "prefix ?r q" for q
    using above [of q] that by (auto simp: d dest: set_mono_prefix)
  have names': "\<forall>m\<in>set (ns @ [n]). 2 * wide_length m < 2 ^ 16" using names by (auto simp: d join_def)
  have "absolute_normalized h (join d n) = join d n" "absolute_normalized h d = d"
    using assms(2) unfolding canonical_join_iff by (simp_all add: canonical_absolute_normalized)
  then have split: "split_root [] [] (absolute_normalized h (join d n)) = Inr (?r, ns @ [n])"
    "split_root [] [] (absolute_normalized h d) = Inr (?r, ns)"
    using split_root_names [of ?r "[]" "ns @ [n]"] split_root_names [of ?r "[]" ns] by (simp_all add: d join_def)
  have "open_directory_with_descriptor h (join d n) False None w = (Inl NotFound, w)"
  proof -
    have "walk_windows h FileOpen None ?r (ns @ [n]) w = (Inl NotFound, w)"
      by (rule calm_walk_missing [OF assms(1) names']) (use real assms(3) in \<open>simp_all add: d join_def strict_prefix_def\<close>)
    with real [of ?r] assms(1) show ?thesis
      by (simp add: open_directory_with_descriptor_def split run_simps liftE_apply)
  qed
  note missing = this
  obtain sd where sd: "h_sddl h (private_sddl (h_sid h)) = Some sd"
    and priv: "private_attr h ((new_attr h 0x1FF)\<lparr>at_security := sd\<rparr>)"
    using sddl_okE assms(6) True by blast
  let ?a = "(new_attr h 0x1FF)\<lparr>at_security := sd\<rparr>"
  let ?w = "put (join d n) (Directory ?a) w"
  have "create_private_directory h (join d n) sd w = (Inr (join d n), ?w)"
  proof -
    have "open_directory_with_descriptor h d True (Some sd) w = (Inr d, w)"
    proof -
      have "walk_windows h FileOpenIf (Some sd) ?r ns w = (Inr d, w)"
        using calm_walk [OF assms(1), of FileOpenIf ns ?r h "Some sd"] real names' by (simp add: d strict_prefix_def)
      with real [of ?r] assms(1) show ?thesis
        by (simp add: open_directory_with_descriptor_def split run_simps liftE_apply)
    qed
    moreover have "open_relative h d n FileCreate DirectoryFile (Some sd) w = (Inr (join d n), ?w)"
      using assms(1,3) names' real_dir_parent [OF above [of d]]
      by (simp add: calm_open_relative new_object_def d)
    moreover have "validate_directory (join d n) ?w = (Inr (), ?w)"
      by (rule calm_validate_directory) (simp_all add: calm_put assms(1) real_dir_def new_attr_def)
    ultimately show ?thesis
      using \<open>absolute_normalized h (join d n) = join d n\<close>
      by (simp add: create_private_directory_def ok_orE_def run_simps returnM_apply liftE_apply)
  qed
  moreover have "validate_private_dir_handle h (join d n) ?w = (Inr (), ?w)"
    by (rule calm_validate_handle [OF _ True _ priv]) (simp_all add: calm_put assms(1))
  ultimately have "ensure_private_dir h (join d n) w = (Inr (), ?w)"
    using missing True calm_private_descriptor [OF assms(1) sd]
    by (simp add: ensure_private_dir_def ensure_private_dir_windows_def run_simps tryM_def ensureM_apply)
  moreover have "lookup ?w = (lookup w)(join d n \<mapsto> Directory ?a)" by (simp add: fun_eq_iff)
  ultimately show ?thesis using priv by blast
qed

theorem missing_private_dir_created_witness:
  "\<exists>w' a. ensure_private_dir windows_host [Prefix ''C:'', RootDir, Normal ''data''] windows_world = (Inr (), w')
     \<and> lookup w' [Prefix ''C:'', RootDir, Normal ''data''] = Some (Directory a) \<and> private_attr windows_host a"
proof -
  let ?d = "[Prefix ''C:'', RootDir]"
  have p: "join ?d ''data'' = [Prefix ''C:'', RootDir, Normal ''data'']" by (simp add: join_def)
  have "\<exists>w' a. ensure_private_dir windows_host (join ?d ''data'') windows_world = (Inr (), w')
      \<and> lookup w' = (lookup windows_world)(join ?d ''data'' \<mapsto> Directory a) \<and> private_attr windows_host a"
  proof (rule missing_private_dir_created)
    show "real_dir windows_world q" if "prefix q ?d" "RootDir \<in> set q" for q
    proof -
      from that have "q = ?d" by (auto simp: prefix_Cons)
      then show ?thesis by (simp add: windows_world_facts)
    qed
    show "2 * wide_length m < 2 ^ 16" if "Normal m \<in> set (join ?d ''data'')" for m
    proof -
      from that have "m = ''data''" by (simp add: join_def)
      then show ?thesis by (simp add: wide_length_def)
    qed
  qed (simp_all add: p windows_world_facts windows_host_facts)
  then show ?thesis unfolding p by fastforce
qed

end
