(* ===== verification/Launcher.thy ===== *)
theory Launcher
  imports Executable
begin

text \<open>
  The Windows launcher (\<open>run_windows_launcher\<close> of \<^verbatim>\<open>src/src/fs/executable.rs\<close>): the program under \<^verbatim>\<open>bin\<close> that
  reads the selector and starts the payload it names. What the process was started as, its arguments and
  the starting of a child (which runs to its end and may change the world) are the machine's.
\<close>

record process =
  p_host :: host
  current_exe :: "io_kind + path"
  args_os :: "string list"
  run_child :: "path \<Rightarrow> string list \<Rightarrow> (world, io_kind, int option) comp"

definition run_windows_launcher :: "('v, 'z) lib_scheme \<Rightarrow> process \<Rightarrow> string \<Rightarrow> int io" where
  "run_windows_launcher lib pr name =
     (if \<not> h_windows (p_host pr) then throwM Unsupported
      else
        let h = p_host pr in
        bindM (liftE (current_exe pr)) (\<lambda>launcher.
        bindM (liftE (ok_orE (parent launcher) InvalidData)) (\<lambda>bin.
        bindM (open_directory h bin False) (\<lambda>d.
        bindM (directory_is_case_sensitive h d) (\<lambda>sensitive.
        bindM (ensureM (\<not> (sensitive \<and> file_name bin \<noteq> Some ''bin'')) InvalidData) (\<lambda>_.
        bindM (liftE (ok_orE (Option.bind (parent launcher) parent) InvalidData)) (\<lambda>root.
        bindM (lock_regular h (join root ''active'')) (\<lambda>active_lock.
        bindM (read_handle active_lock) (\<lambda>contents.
        let active = take 129 contents in
        bindM (ensureM (length active \<le> 128) InvalidData) (\<lambda>_.
        bindM (liftE (resolve_launcher_v1_payload lib launcher active name)) (\<lambda>payload.
        bindM (lock_regular h payload) (\<lambda>_.
        bindM (run_child pr payload (drop 1 (args_os pr))) (\<lambda>code.
        liftE (ok_orE code OtherIo))))))))))))))"

end
