(* ===== verification/Launcher_Properties.thy ===== *)
theory Launcher_Properties
  imports Launcher Fs_Properties Security_Properties
begin

text \<open>
  The launcher: whatever \<^verbatim>\<open>active\<close> holds and whatever fails, the only program it starts is a payload in a
  version directory of its own installation, and on a healthy machine it starts exactly the payload of
  the version the installer selected, with the arguments it was given.
\<close>

subsection \<open>The text of the selector\<close>

text \<open>Characters of versions are not trimmed, and are ASCII.\<close>

lemma white_space_not_semver:
  "w \<in> set white_space \<Longrightarrow> w \<noteq> [] \<and> \<not> semver_char (hd w) \<and> \<not> semver_char (last w)"
proof -
  have "list_all (\<lambda>w. w \<noteq> [] \<and> \<not> semver_char (hd w) \<and> \<not> semver_char (last w)) white_space" by code_simp
  then show "w \<in> set white_space \<Longrightarrow> w \<noteq> [] \<and> \<not> semver_char (hd w) \<and> \<not> semver_char (last w)"
    by (simp add: list_all_iff)
qed

lemma version_trimmed: "semver_ok lib \<Longrightarrow> is_trimmed (version_string lib v)"
  unfolding is_trimmed_def list_all_iff
proof (intro ballI conjI notI)
  fix w assume ok: "semver_ok lib" and w: "w \<in> set white_space"
  note ws = white_space_not_semver [OF w]
  show False if "prefix w (version_string lib v)"
  proof -
    have "hd w \<in> set (version_string lib v)" using that ws by (metis hd_in_set set_mono_prefix subsetD)
    with semver_okD(3) [OF ok] ws show False by blast
  qed
  show False if "suffix w (version_string lib v)"
  proof -
    have "last w \<in> set (version_string lib v)" using that ws by (metis last_in_set set_mono_suffix subsetD)
    with semver_okD(3) [OF ok] ws show False by blast
  qed
qed

lemma semver_char_ascii: "semver_char c \<Longrightarrow> (of_char c :: nat) < 128"
  by (auto simp: semver_char_def is_ascii_digit_def is_ascii_alphabetic_def)

lemma version_utf8: "semver_ok lib \<Longrightarrow> from_utf8 (version_string lib v) = Some (version_string lib v)"
  unfolding from_utf8_def by (auto intro!: utf8_ascii semver_char_ascii dest: semver_okD(3))

lemma uppercase_bin: "to_ascii_uppercase ''bin'' = ''BIN''"
  by code_simp

text \<open>The launcher runs what the installer selected: from the text the installer writes into
  \<^verbatim>\<open>active\<close>, a launcher directly under \<^verbatim>\<open>bin\<close> of the same root derives the very payload path of that
  version, provided the version is at most 128 bytes long and the payload has a plain name.\<close>

lemma payload_of_selected:
  assumes "semver_ok e" and "length (version_string e v) \<le> 128" and "is_safe_basename (host_payload_name e) True"
  shows "resolve_launcher_v1_payload e (join (bin_dir e) name) (version_string e v) (host_payload_name e)
    = Inr (version_payload e v)"
  using assms semver_okD(1,2) [OF assms(1), of v] version_trimmed [OF assms(1)] version_utf8 [OF assms(1)]
  by (simp add: resolve_launcher_v1_payload_def bin_dir_def uppercase_bin version_payload_def version_dir_def
      versions_dir_def)

text \<open>C26: the installer does not bound the length of a version it selects, but on Windows neither the
  launcher nor the installer itself can read a selector of more than 128 bytes: once such a version is
  selected, the program does not start and every operation that reads the selector fails.\<close>

theorem long_version_unreadable:
  fixes e :: "('v, 'z) env_scheme"
  assumes "canonical_path True (e_root e)" and "h_windows (e_host e)"
    and "lookup w (active_path e) = Some (RegularFile a (version_string e v))" and "128 < length (version_string e v)"
  shows "(\<exists>k. fst (read_pointer_unlocked e w) = Inl k)
    \<and> (\<exists>k. resolve_launcher_v1_payload e launcher (version_string e v) payload = Inl k)"
proof -
  have "False" if "read_pointer_unlocked e w = (Inr c, w')" for c w'
    using read_pointer_windows_exact [of e w c w'] that assms
    by (cases c) (simp_all add: read_pointer_unlocked_def)
  then have "\<exists>k. fst (read_pointer_unlocked e w) = Inl k"
    by (metis prod.collapse old.sum.exhaust)
  moreover have "\<exists>k. resolve_launcher_v1_payload e launcher (version_string e v) payload = Inl k"
    using assms(4) by (cases "resolve_launcher_v1_payload e launcher (version_string e v) payload")
      (auto simp: resolve_launcher_v1_payload_def dest!: from_utf8_Some split: if_splits)
  ultimately show ?thesis ..
qed

definition long_version_env :: "nat env" where
  "long_version_env = (sample_env [])\<lparr>version_string := (\<lambda>v. replicate 129 (CHR ''1'')),
     e_root := [Prefix ''C:'', RootDir, Normal ''data''], e_host := (e_host (sample_env []))\<lparr>h_windows := True\<rparr>\<rparr>"

definition long_version_world :: world where
  "long_version_world = put [Prefix ''C:'', RootDir, Normal ''data'', Normal ''active'']
     (RegularFile (new_attr (e_host long_version_env) 0x180) (replicate 129 (CHR ''1''))) (sample_world [])"

theorem long_version_unreadable_witness:
  "\<exists>k. fst (read_pointer_unlocked long_version_env long_version_world) = Inl k"
proof -
  have "canonical_path True (e_root long_version_env)" "h_windows (e_host long_version_env)"
    "lookup long_version_world (active_path long_version_env)
       = Some (RegularFile (new_attr (e_host long_version_env) 0x180) (version_string long_version_env 0))"
    "128 < length (version_string long_version_env 0)"
    by (simp_all add: long_version_env_def long_version_world_def lookup_put active_path_def join_def)
  from long_version_unreadable [OF this] show ?thesis by blast
qed

text \<open>Whatever \<^verbatim>\<open>active\<close> holds, a launcher that accepts it runs a file directly in a version directory
  below the root above its own \<^verbatim>\<open>bin\<close> directory: the text is exactly a canonical version of at most 128
  bytes, and the payload a plain name.\<close>

lemma launcher_is_confined:
  assumes "resolve_launcher_v1_payload lib launcher active payload = Inr p"
  shows "\<exists>bin root v. parent launcher = Some bin \<and> parent bin = Some root \<and> version_string lib v = active \<and> length active \<le> 128
     \<and> p = root @ [Normal ''versions'', Normal active, Normal payload]
     \<and> CHR ''/'' \<notin> set payload \<and> CHR 0x5C \<notin> set payload \<and> payload \<notin> {[], ''.'', ''..''}"
  using assms
  by (auto simp: resolve_launcher_v1_payload_def is_safe_basename_def join_def split: if_splits dest!: from_utf8_Some)

subsection \<open>Locking a file\<close>

lemma validate_regular_Inr:
  "validate_regular p w = (Inr u, w')
   \<Longrightarrow> lookup w' = lookup w \<and> (\<exists>a b. lookup w p = Some (RegularFile a b) \<and> \<not> at_reparse a)"
  by (auto simp: validate_regular_def bindM_return_iff ensureM_apply dest!: symlink_metadata_Inr elim!: is_file_cases
      split: if_splits)

text \<open>A file that was locked is a regular one behind real directories only.\<close>

lemma lock_regular_Inr:
  assumes "lock_regular h (join d n) w = (Inr f, w')" and "canonical_path (h_windows h) d" and "h_windows h"
  shows "f = join d n \<and> lookup w' = lookup w \<and> (\<exists>a b. lookup w f = Some (RegularFile a b) \<and> \<not> at_reparse a)
     \<and> (\<forall>q. prefix q d \<and> RootDir \<in> set q \<longrightarrow> real_dir w q)"
proof -
  from split_root_canonical [of h "join d n"] assms(2,3) obtain x ms where
    p: "join d n = Prefix x # RootDir # map Normal ms" and
    split: "split_root [] [] (absolute_normalized h (join d n)) = Inr ([Prefix x, RootDir], ms)"
    by (metis canonical_join)
  from p obtain ns where ms: "ms = ns @ [n]" and d: "d = Prefix x # RootDir # map Normal ns"
    by (cases ms rule: rev_cases) (auto simp: join_def append_eq_Cons_conv)
  from assms(1) split ms obtain r w1 d' w2 w3 u where
    r: "open_root [Prefix x, RootDir] w = (Inr r, w1)" and
    walk: "walk_windows h FileOpen None r ns w1 = (Inr d', w2)" and
    open_file: "open_relative h d' n FileOpen NonDirectoryFile None w2 = (Inr f, w3)" and
    valid: "validate_regular f w3 = (Inr u, w')"
    by (auto simp: lock_regular_def bindM_return_iff liftE_apply ensureM_apply returnM_apply)
  have root: "real_dir w [Prefix x, RootDir]"
    using r by (auto simp: open_root_def bindM_return_iff returnM_apply real_dir_def elim!: io_cases
        dest!: validate_directory_Inr split: option.splits)
  note rr = open_root_Inr [OF r]
  from walk_windows_path [OF walk] rr have d': "d' = d" by (simp add: d)
  from walk_windows_real [OF walk] rr d' have real: "lookup w2 = lookup w"
    "\<And>q. prefix q d \<Longrightarrow> strict_prefix [Prefix x, RootDir] q \<Longrightarrow> real_dir w q" by (auto simp: real_dir_def)
  have "real_dir w q" if "prefix q d" "RootDir \<in> set q" for q
  proof (cases "q = [Prefix x, RootDir]")
    case False
    from that have "prefix [Prefix x, RootDir] q" by (auto simp: d prefix_Cons)
    with False that(1) show ?thesis by (intro real(2)) (auto simp: strict_prefix_def)
  qed (simp add: root)
  with lookup_open_existing [OF open_file] validate_regular_Inr [OF valid] real(1) d' show ?thesis by auto
qed

lemma calm_lock_regular:
  assumes "calm w" and "canonical_path (h_windows h) d" and "h_windows h"
    and "\<And>q. prefix q d \<Longrightarrow> RootDir \<in> set q \<Longrightarrow> real_dir w q"
    and "lookup w (join d n) = Some (RegularFile a b)" and "\<not> at_reparse a"
    and "\<And>m. Normal m \<in> set (join d n) \<Longrightarrow> 2 * wide_length m < 2 ^ 16"
  shows "lock_regular h (join d n) w = (Inr (join d n), w)"
proof -
  from split_root_canonical [of h "join d n"] assms(2,3) obtain x ms where
    p: "join d n = Prefix x # RootDir # map Normal ms" and
    split: "split_root [] [] (absolute_normalized h (join d n)) = Inr ([Prefix x, RootDir], ms)"
    by (metis canonical_join)
  from p obtain ns where ms: "ms = ns @ [n]" and d: "d = Prefix x # RootDir # map Normal ns"
    by (cases ms rule: rev_cases) (auto simp: join_def append_eq_Cons_conv)
  have names: "\<forall>m\<in>set (ns @ [n]). 2 * wide_length m < 2 ^ 16" using assms(7) by (auto simp: p ms)
  have real: "real_dir w q" if "prefix q d" "prefix [Prefix x, RootDir] q" for q
    using assms(4) [OF that(1)] that(2) by (auto dest: set_mono_prefix)
  have "walk_windows h FileOpen None [Prefix x, RootDir] ns w = (Inr d, w)"
    using calm_walk [OF assms(1), of FileOpen ns "[Prefix x, RootDir]" h None] real names by (simp add: d strict_prefix_def)
  moreover have "open_root [Prefix x, RootDir] w = (Inr [Prefix x, RootDir], w)"
    using real [of "[Prefix x, RootDir]"] by (intro calm_open_root assms(1)) (simp add: d)
  moreover have "open_relative h d n FileOpen NonDirectoryFile None w = (Inr (join d n), w)"
    using names assms(1,5) by (simp add: calm_open_relative opens_as_def)
  moreover have "validate_regular (join d n) w = (Inr (), w)"
    using assms(1,5,6) by (simp add: validate_regular_def run_simps ensureM_apply)
  ultimately show ?thesis
    by (simp add: lock_regular_def split ms run_bind liftE_apply ensureM_apply returnM_apply)
qed

subsection \<open>What is started\<close>

definition launched :: "('v, 'z) lib_scheme \<Rightarrow> process \<Rightarrow> string \<Rightarrow> path io" where
  "launched lib pr name =
     (let h = p_host pr in
      bindM (liftE (current_exe pr)) (\<lambda>launcher.
      bindM (liftE (ok_orE (parent launcher) InvalidData)) (\<lambda>bin.
      bindM (open_directory h bin False) (\<lambda>d.
      bindM (directory_is_case_sensitive h d) (\<lambda>sensitive.
      bindM (ensureM (\<not> (sensitive \<and> file_name bin \<noteq> Some ''bin'')) InvalidData) (\<lambda>_.
      bindM (liftE (ok_orE (Option.bind (parent launcher) parent) InvalidData)) (\<lambda>root.
      bindM (lock_regular h (join root ''active'')) (\<lambda>f.
      bindM (read_handle f) (\<lambda>contents.
      bindM (ensureM (length (take 129 contents) \<le> 128) InvalidData) (\<lambda>_.
      bindM (liftE (resolve_launcher_v1_payload lib launcher (take 129 contents) name)) (\<lambda>payload.
      bindM (lock_regular h payload) (\<lambda>_. returnM payload))))))))))))"

definition child_outcome :: "io_kind + int option \<Rightarrow> io_kind + int" where
  "child_outcome c = bindE c (\<lambda>code. ok_orE code OtherIo)"

lemma run_windows_launcher_split:
  assumes "h_windows (p_host pr)"
  shows "run_windows_launcher lib pr name w = (case launched lib pr name w of
       (Inl k, v) \<Rightarrow> (Inl k, v)
     | (Inr p, v) \<Rightarrow> (case run_child pr p (drop 1 (args_os pr)) v of (c, v') \<Rightarrow> (child_outcome c, v')))"
proof -
  have child: "bindM (run_child pr p (drop 1 (args_os pr))) (\<lambda>code. liftE (ok_orE code OtherIo)) v
      = (case run_child pr p (drop 1 (args_os pr)) v of (c, v') \<Rightarrow> (child_outcome c, v'))" for p v
    by (simp add: bindM_def child_outcome_def liftE_apply bindE_def split: prod.splits sum.splits)
  have "run_windows_launcher lib pr name = bindM (launched lib pr name) (\<lambda>p.
      bindM (run_child pr p (drop 1 (args_os pr))) (\<lambda>code. liftE (ok_orE code OtherIo)))"
    using assms by (simp add: run_windows_launcher_def launched_def Let_def bindM_assoc)
  then show ?thesis
    by (simp add: bindM_def [of "launched lib pr name"] child [unfolded One_nat_def] split: prod.splits sum.splits)
qed

lemma touches_launched: "touches S (launched lib pr name)"
  unfolding launched_def Let_def by (intro touches_intros)

lemma read_handle_Inr_same: "read_handle p w = (Inr b, w') \<Longrightarrow> lookup w' = lookup w \<and> (\<exists>a. lookup w p = Some (RegularFile a b))"
  unfolding read_handle_def by (erule io_cases) (auto split: option.splits node.splits)

lemma canonical_parents:
  assumes "canonical_path b p" and "parent p = Some q"
  shows "canonical_path b q"
  using assms canonical_parent by blast

lemma launched_Inr:
  assumes "launched lib pr name w = (Inr p, w')" and win: "h_windows (p_host pr)"
    and exe: "current_exe pr = Inr launcher" "canonical_path True launcher"
  shows "lookup w' = lookup w \<and> (\<exists>bin root v a. parent launcher = Some bin \<and> parent bin = Some root
     \<and> lookup w (join root ''active'') = Some (RegularFile a (version_string lib v)) \<and> length (version_string lib v) \<le> 128
     \<and> p = root @ [Normal ''versions'', Normal (version_string lib v), Normal name]
     \<and> CHR ''/'' \<notin> set name \<and> CHR 0x5C \<notin> set name \<and> name \<notin> {[], ''.'', ''..''}
     \<and> (\<exists>a b. lookup w p = Some (RegularFile a b) \<and> \<not> at_reparse a)
     \<and> (\<forall>q. strict_prefix q p \<and> RootDir \<in> set q \<longrightarrow> real_dir w q))"
proof -
  let ?h = "p_host pr"
  from assms(1) exe(1) obtain bin root f w1 w2 contents w3 g where
    par: "parent launcher = Some bin" "parent bin = Some root" and w1: "lookup w1 = lookup w" and
    f: "lock_regular ?h (join root ''active'') w1 = (Inr f, w2)" and
    contents: "read_handle f w2 = (Inr contents, w3)" "length (take 129 contents) \<le> 128" and
    p: "resolve_launcher_v1_payload lib launcher (take 129 contents) name = Inr p" and
    g: "lock_regular ?h p w3 = (Inr g, w')"
  proof -
    from assms(1) exe(1) obtain bin root d u u' f w1 w2 contents w3 g cs where
      *: "parent launcher = Some bin" "parent bin = Some root" "open_directory ?h bin False w = (Inr d, u)"
      "directory_is_case_sensitive ?h d u = (Inr cs, w1)" "lock_regular ?h (join root ''active'') w1 = (Inr f, w2)"
      "read_handle f w2 = (Inr contents, w3)" "length (take 129 contents) \<le> 128"
      "resolve_launcher_v1_payload lib launcher (take 129 contents) name = Inr p" "lock_regular ?h p w3 = (Inr g, w')"
      by (auto simp: launched_def Let_def bindM_return_iff liftE_apply ok_orE_def ensureM_apply returnM_apply
          split: option.splits if_splits)
    have "lookup u = lookup w" using touchesD [OF touches_open_directory [of "{}"] *(3)] by (simp add: fun_eq_iff)
    moreover have "lookup w1 = lookup u" using touchesD [OF touches_validate(1) [of "{}"] *(4)] by (simp add: fun_eq_iff)
    ultimately have w1: "lookup w1 = lookup w" by simp
    show ?thesis by (rule that [OF *(1,2) w1 *(5,6,7,8,9)])
  qed
  have can: "canonical_path (h_windows ?h) root"
    using canonical_parents [OF canonical_parents [OF exe(2) par(1)] par(2)] win by simp
  note active = lock_regular_Inr [OF f can win]
  note read = read_handle_Inr_same [OF contents(1)]
  have short: "take 129 contents = contents" using contents(2) by simp
  from launcher_is_confined [OF p] par short obtain v where v: "version_string lib v = contents" "length contents \<le> 128"
    "p = root @ [Normal ''versions'', Normal contents, Normal name]"
    "CHR ''/'' \<notin> set name" "CHR 0x5C \<notin> set name" "name \<notin> {[], ''.'', ''..''}"
    by auto
  let ?d = "join (join root ''versions'') contents"
  have pj: "p = join ?d name" using v(3) by (simp add: join_def)
  have "canonical_path (h_windows ?h) ?d" using can by simp
  note payload = lock_regular_Inr [OF g [unfolded pj] this win]
  have dirs: "strict_prefix q p \<longleftrightarrow> prefix q ?d" for q
    unfolding pj by (rule strict_prefix_join)
  have same: "lookup w2 = lookup w" "lookup w3 = lookup w" "lookup w' = lookup w" and f': "f = join root ''active''" and g': "g = p"
    using active read payload w1 pj by simp_all
  obtain a where a: "lookup w (join root ''active'') = Some (RegularFile a (version_string lib v))"
    using read same f' v(1) by auto
  have regular: "\<exists>a b. lookup w p = Some (RegularFile a b) \<and> \<not> at_reparse a" using payload same g' by metis
  have real: "\<forall>q. strict_prefix q p \<and> RootDir \<in> set q \<longrightarrow> real_dir w q"
    using payload same by (simp add: dirs real_dir_def)
  show ?thesis
    by (intro conjI same(3), rule exI [of _ bin], rule exI [of _ root], rule exI [of _ v], rule exI [of _ a])
      (intro conjI regular real a par v(4,5,6); simp add: v(1,2,3))
qed

lemma calm_launched:
  fixes e :: "('v, 'z) env_scheme"
  assumes "calm w" and "h_windows (e_host e)" and "canonical_path True (e_root e)" and "semver_ok e"
    and "p_host pr = e_host e" and "current_exe pr = Inr (join (bin_dir e) name)"
    and "points_to e v (lookup w (selector_path e))" and "length (version_string e v) \<le> 128"
    and "lookup w (version_payload e v) = Some (RegularFile a b)" and "\<not> at_reparse a"
    and "is_safe_basename (host_payload_name e) True"
    and dirs: "\<And>q. RootDir \<in> set q \<Longrightarrow> prefix q (bin_dir e) \<or> prefix q (version_dir e v) \<Longrightarrow> real_dir w q"
    and "\<And>f b. lookup w (active_path e) = Some (RegularFile f b) \<Longrightarrow> \<not> at_reparse f"
    and names: "\<And>m. Normal m \<in> set (version_payload e v) \<Longrightarrow> 2 * wide_length m < 2 ^ 16"
  shows "launched e pr (host_payload_name e) w = (Inr (version_payload e v), w)"
proof -
  let ?h = "e_host e"
  have can: "canonical_path (h_windows ?h) (e_root e)" using assms(2,3) by simp
  have root_names: "2 * wide_length m < 2 ^ 16" if "Normal m \<in> set (e_root e)" for m
    using that names by (simp add: version_payload_def version_dir_def versions_dir_def join_def)
  obtain f where f: "lookup w (active_path e) = Some (RegularFile f (version_string e v))" "\<not> at_reparse f"
    using assms(2,7,13) by (auto simp: points_to_def selector_path_def)
  have bin: "open_directory ?h (bin_dir e) False w = (Inr (bin_dir e), w)"
  proof -
    have "canonical_path (h_windows ?h) (bin_dir e)" using can by (simp add: bin_dir_def)
    from split_root_canonical [OF this assms(2)] obtain x ns where
      b: "bin_dir e = Prefix x # RootDir # map Normal ns"
      "split_root [] [] (absolute_normalized ?h (bin_dir e)) = Inr ([Prefix x, RootDir], ns)" by metis
    have real: "real_dir w q" if "prefix q (bin_dir e)" "prefix [Prefix x, RootDir] q" for q
      using dirs [of q] that by (auto dest: set_mono_prefix)
    have "2 * wide_length m < 2 ^ 16" if "m \<in> set ns" for m
    proof -
      from that b(1) have "Normal m \<in> set (bin_dir e)" by simp
      then have "Normal m \<in> set (e_root e) \<or> m = ''bin''" by (auto simp: bin_dir_def join_def)
      then show ?thesis using root_names by (auto simp: wide_length_def)
    qed
    with real b(1) have "walk_windows ?h FileOpen None [Prefix x, RootDir] ns w = (Inr (bin_dir e), w)"
      using calm_walk [OF assms(1), of FileOpen ns "[Prefix x, RootDir]" ?h None] by (simp add: strict_prefix_def)
    moreover have "open_root [Prefix x, RootDir] w = (Inr [Prefix x, RootDir], w)"
      using real [of "[Prefix x, RootDir]"] b(1) by (intro calm_open_root assms(1)) simp
    ultimately show ?thesis
      by (simp add: open_directory_def assms(2) open_directory_with_descriptor_def b(2) run_bind liftE_apply)
  qed
  have active: "lock_regular ?h (active_path e) w = (Inr (active_path e), w)"
    unfolding active_path_def
  proof (rule calm_lock_regular [OF assms(1) can assms(2) _ f [unfolded active_path_def]])
    show "real_dir w q" if "prefix q (e_root e)" "RootDir \<in> set q" for q
      using dirs that by (simp add: bin_dir_def join_def)
    show "2 * wide_length m < 2 ^ 16" if "Normal m \<in> set (join (e_root e) ''active'')" for m
      using that root_names by (auto simp: join_def wide_length_def)
  qed
  have payload: "lock_regular ?h (version_payload e v) w = (Inr (version_payload e v), w)"
    unfolding version_payload_def
  proof (rule calm_lock_regular [OF assms(1) _ assms(2) _ assms(9) [unfolded version_payload_def] assms(10)])
    show "canonical_path (h_windows ?h) (version_dir e v)" using can by (simp add: version_dir_def versions_dir_def)
  qed (use dirs names in \<open>simp_all add: version_payload_def\<close>)
  have resolve: "resolve_launcher_v1_payload e (join (bin_dir e) name) (version_string e v) (host_payload_name e)
      = Inr (version_payload e v)"
    using payload_of_selected [OF assms(4,8,11)] .
  show ?thesis
    using assms(1,8) f(1) bin active payload resolve
    by (simp add: launched_def Let_def assms(5,6) run_simps liftE_apply ok_orE_def directory_is_case_sensitive_def ensureM_apply
        returnM_apply active_path_def bin_dir_def [of e] cong: run_bind_cong)
qed

text \<open>A Windows machine on which version 1.0.7 is selected.\<close>

definition launcher_env :: "nat env" where
  "launcher_env = (sample_env [])\<lparr>e_root := [Prefix ''C:'', RootDir, Normal ''data''], e_host := windows_host\<rparr>"

definition in_data :: "string list \<Rightarrow> path" where
  "in_data ns = [Prefix ''C:'', RootDir, Normal ''data''] @ map Normal ns"

definition launcher_world :: world where
  "launcher_world =
     (let a = \<lparr>at_uid = 0, at_mode = 0x1ED, at_nlink = 1, at_reparse = False, at_security = private_descriptor\<rparr>
      in (sample_world [])\<lparr>files := [([Prefix ''C:'', RootDir], Directory a), (in_data [], Directory a),
           (in_data [''bin''], Directory a), (in_data [''versions''], Directory a),
           (in_data [''versions'', ''1.0.7''], Directory a), (in_data [''active''], RegularFile a ''1.0.7''),
           (in_data [''versions'', ''1.0.7'', ''demo.exe''], RegularFile a ''program'')]\<rparr>)"

definition launcher_process :: process where
  "launcher_process = \<lparr>p_host = windows_host, current_exe = Inr (in_data [''bin'', ''demo.exe'']),
     args_os = [''demo'', ''--help''],
     run_child = (\<lambda>p args w. (Inr (if p = in_data [''versions'', ''1.0.7'', ''demo.exe''] \<and> args = [''--help''] then Some 3 else None), w))\<rparr>"

lemma launcher_env_facts:
  "version_string launcher_env = sample_version_string" "version_parse launcher_env = sample_version_parse" "e_host launcher_env = windows_host"
  "e_root launcher_env = [Prefix ''C:'', RootDir, Normal ''data'']" "h_windows windows_host"
  "host_payload_name launcher_env = ''demo.exe''" "is_safe_basename ''demo.exe'' True"
  "version_dir launcher_env 7 = in_data [''versions'', ''1.0.7'']"
  "version_payload launcher_env 7 = in_data [''versions'', ''1.0.7'', ''demo.exe'']"
  "bin_dir launcher_env = in_data [''bin'']" "active_path launcher_env = in_data [''active'']"
  "selector_path launcher_env = in_data [''active'']"
proof -
  show safe: "is_safe_basename ''demo.exe'' True" by code_simp
  show name: "host_payload_name launcher_env = ''demo.exe''"
    by (simp add: host_payload_name_def launcher_env_def payload_name_def sample_app_def windows_host_def)
qed (simp_all add: launcher_env_def in_data_def windows_host_def version_dir_def versions_dir_def version_payload_def
    host_payload_name_def payload_name_def sample_app_def bin_dir_def active_path_def selector_path_def sample_version join_def)

lemma launcher_world_facts:
  "calm launcher_world"
  "\<exists>a. lookup launcher_world (in_data [''active'']) = Some (RegularFile a ''1.0.7'') \<and> \<not> at_reparse a"
  "\<exists>a b. lookup launcher_world (in_data [''versions'', ''1.0.7'', ''demo.exe'']) = Some (RegularFile a b) \<and> \<not> at_reparse a"
  "q \<in> {[Prefix ''C:'', RootDir], in_data [], in_data [''bin''], in_data [''versions''], in_data [''versions'', ''1.0.7'']}
    \<Longrightarrow> real_dir launcher_world q"
  by (auto simp: calm_def plain_def launcher_world_def sample_world_def Let_def lookup_def real_dir_def in_data_def
      split: if_splits)

lemma launcher_world_dirs:
  assumes "RootDir \<in> set q" and "prefix q (bin_dir launcher_env) \<or> prefix q (version_dir launcher_env 7)"
  shows "real_dir launcher_world q"
  using assms by (intro launcher_world_facts(4)) (auto simp: launcher_env_facts in_data_def prefix_Cons)

lemma launcher_env_names: "Normal m \<in> set (version_payload launcher_env 7) \<Longrightarrow> 2 * wide_length m < 2 ^ 16"
  by (auto simp: launcher_env_facts in_data_def wide_length_def)

lemma launcher_env_process:
  "canonical_path True (e_root launcher_env)" "semver_ok launcher_env" "p_host launcher_process = e_host launcher_env"
  "current_exe launcher_process = Inr (join (bin_dir launcher_env) ''demo.exe'')"
  "points_to launcher_env 7 (lookup launcher_world (selector_path launcher_env))"
  "length (version_string launcher_env 7) \<le> 128"
  using sample_semver_ok launcher_world_facts(2)
  by (auto simp: launcher_env_facts semver_ok_def launcher_process_def join_def in_data_def points_to_def sample_version)

text \<open>C24: whatever \<^verbatim>\<open>active\<close> holds and whatever system call fails, the launcher changes nothing and the only
  program it ever starts is a regular file, behind real directories only, directly in a version directory
  of its own installation: the version is the text of \<^verbatim>\<open>active\<close>, canonical and at most 128 bytes long. The
  result is the child's: its exit code if it has one.\<close>

theorem launcher_starts_confined:
  assumes "run_windows_launcher lib pr name w = (r, w')" and "current_exe pr = Inr launcher" and "canonical_path True launcher"
  shows "(\<exists>k. r = Inl k \<and> lookup w' = lookup w) \<or>
    (\<exists>bin root v p w1 c. parent launcher = Some bin \<and> parent bin = Some root
      \<and> (\<exists>a. lookup w (join root ''active'') = Some (RegularFile a (version_string lib v))) \<and> length (version_string lib v) \<le> 128
      \<and> p = root @ [Normal ''versions'', Normal (version_string lib v), Normal name]
      \<and> CHR ''/'' \<notin> set name \<and> CHR 0x5C \<notin> set name \<and> name \<notin> {[], ''.'', ''..''}
      \<and> (\<exists>a b. lookup w p = Some (RegularFile a b) \<and> \<not> at_reparse a)
      \<and> (\<forall>q. strict_prefix q p \<and> RootDir \<in> set q \<longrightarrow> real_dir w q)
      \<and> lookup w1 = lookup w \<and> run_child pr p (drop 1 (args_os pr)) w1 = (c, w') \<and> r = child_outcome c)"
proof (cases "h_windows (p_host pr)")
  case False
  with assms(1) show ?thesis by (auto simp: run_windows_launcher_def throwM_apply)
next
  case True
  obtain l w1 where l: "launched lib pr name w = (l, w1)" by fastforce
  have same: "lookup w1 = lookup w" using touchesD [OF touches_launched [of "{}"] l] by (simp add: fun_eq_iff)
  show ?thesis
  proof (cases l)
    case (Inl k)
    with assms(1) l same show ?thesis by (auto simp: run_windows_launcher_split [OF True])
  next
    case (Inr p)
    obtain c v where c: "run_child pr p (drop 1 (args_os pr)) w1 = (c, v)" by fastforce
    with assms(1) l Inr have r: "r = child_outcome c" "w' = v" by (simp_all add: run_windows_launcher_split [OF True])
    from launched_Inr [OF l [unfolded Inr] True assms(2,3)] c r show ?thesis by blast
  qed
qed

lemma launcher_sample_run:
  "run_windows_launcher launcher_env launcher_process ''demo.exe'' launcher_world = (Inr 3, launcher_world)"
proof -
  obtain a b where f: "lookup launcher_world (in_data [''versions'', ''1.0.7'', ''demo.exe'']) = Some (RegularFile a b)" "\<not> at_reparse a"
    using launcher_world_facts(3) by blast
  have "launched launcher_env launcher_process ''demo.exe'' launcher_world = (Inr (version_payload launcher_env 7), launcher_world)"
    using calm_launched [OF launcher_world_facts(1) _ launcher_env_process, of a b] f launcher_world_facts(2) launcher_world_dirs
      launcher_env_names by (auto simp: launcher_env_facts)
  then show ?thesis
    by (simp add: run_windows_launcher_split launcher_process_def launcher_env_facts child_outcome_def ok_orE_def)
qed

theorem launcher_starts_confined_witness:
  "\<exists>bin root v p w1 c. run_windows_launcher launcher_env launcher_process ''demo.exe'' launcher_world = (child_outcome c, launcher_world)
     \<and> parent (in_data [''bin'', ''demo.exe'']) = Some bin \<and> parent bin = Some root
     \<and> p = root @ [Normal ''versions'', Normal (version_string launcher_env v), Normal ''demo.exe'']
     \<and> run_child launcher_process p [''--help''] w1 = (c, launcher_world)"
proof -
  have exe: "current_exe launcher_process = Inr (in_data [''bin'', ''demo.exe''])" "canonical_path True (in_data [''bin'', ''demo.exe''])"
    by (simp_all add: launcher_process_def in_data_def)
  have args: "drop 1 (args_os launcher_process) = [''--help'']" by (simp add: launcher_process_def)
  from launcher_starts_confined [OF launcher_sample_run exe] obtain bin root v p w1 c where
    "parent (in_data [''bin'', ''demo.exe'']) = Some bin" "parent bin = Some root"
    "p = root @ [Normal ''versions'', Normal (version_string launcher_env v), Normal ''demo.exe'']"
    "run_child launcher_process p [''--help''] w1 = (c, launcher_world)" "Inr 3 = child_outcome c"
    unfolding args by blast
  with launcher_sample_run show ?thesis by metis
qed

text \<open>C25: on a healthy Windows machine the launcher starts exactly what the installer selected: with the
  selector pointing to a version of at most 128 bytes, whose payload is a regular file behind real
  directories, a launcher directly under \<^verbatim>\<open>bin\<close> of the same root runs that payload with the arguments it got
  itself, and ends as the child does.\<close>

theorem launcher_runs_selected:
  fixes e :: "('v, 'z) env_scheme"
  assumes "calm w" and "h_windows (e_host e)" and "canonical_path True (e_root e)" and "semver_ok e"
    and "p_host pr = e_host e" and "current_exe pr = Inr (join (bin_dir e) name)"
    and "points_to e v (lookup w (selector_path e))" and "length (version_string e v) \<le> 128"
    and "lookup w (version_payload e v) = Some (RegularFile a b)" and "\<not> at_reparse a"
    and "is_safe_basename (host_payload_name e) True"
    and dirs: "\<And>q. RootDir \<in> set q \<Longrightarrow> prefix q (bin_dir e) \<or> prefix q (version_dir e v) \<Longrightarrow> real_dir w q"
    and "\<And>f b. lookup w (active_path e) = Some (RegularFile f b) \<Longrightarrow> \<not> at_reparse f"
    and names: "\<And>m. Normal m \<in> set (version_payload e v) \<Longrightarrow> 2 * wide_length m < 2 ^ 16"
  shows "run_windows_launcher e pr (host_payload_name e) w
     = (case run_child pr (version_payload e v) (drop 1 (args_os pr)) w of (c, w') \<Rightarrow> (child_outcome c, w'))"
  using calm_launched [OF assms] assms(2,5) by (simp add: run_windows_launcher_split)

theorem launcher_runs_selected_witness:
  "run_windows_launcher launcher_env launcher_process ''demo.exe'' launcher_world = (Inr 3, launcher_world)"
proof -
  obtain a b where f: "lookup launcher_world (in_data [''versions'', ''1.0.7'', ''demo.exe'']) = Some (RegularFile a b)" "\<not> at_reparse a"
    using launcher_world_facts(3) by blast
  have "run_windows_launcher launcher_env launcher_process ''demo.exe'' launcher_world
      = (case run_child launcher_process (version_payload launcher_env 7) (drop 1 (args_os launcher_process)) launcher_world of
           (c, w') \<Rightarrow> (child_outcome c, w'))"
    using launcher_runs_selected [OF launcher_world_facts(1) _ launcher_env_process, of a b] f launcher_world_facts(2)
      launcher_world_dirs launcher_env_names by (auto simp: launcher_env_facts)
  then show ?thesis by (simp add: launcher_process_def launcher_env_facts child_outcome_def ok_orE_def)
qed

end
