(* ===== verification/Spec2Isabelle.thy ===== *)
theory Spec2Isabelle
  imports Release_Properties Archive_Properties Download_Properties Fs_Properties Self_Test_Properties
    Installation_Properties Tool_Witnesses Security_Properties Launcher_Properties
begin

text \<open>
  A verification library for \<^verbatim>\<open>relswap\<close>, a Rust library with which a command-line program installs and
  updates itself from signed releases. Paths below are relative to the crate, \<^verbatim>\<open>src/\<close>.

  \<^bold>\<open>The program.\<close> A release is a manifest (JSON: version, expiry, one archive per target with sizes and
  SHA-256 digests), an envelope of detached Ed25519 signatures over the manifest's bytes, and the
  archives. An \<open>Installation\<close> downloads the metadata, verifies signatures and expiry, downloads the
  archive, checks it against the manifest, extracts it into a staging directory, verifies the result
  where it lies, renames it to its version directory and switches the command to it: on Unix a symbolic
  link, on Windows the text file \<^verbatim>\<open>active\<close> that a launcher reads. A journal (\<^verbatim>\<open>pending-activation.json\<close>) is written
  before the switch and removed after \<^verbatim>\<open>install.json\<close> has followed; every operation begins with the recovery of an
  interrupted one.

  \<^bold>\<open>Theories and sources.\<close>

  \<^item> \<open>Prelude\<close>: sums as results, codec laws, the 64-bit bounds and list lemmas the others share.
  \<^item> \<open>App\<close>: \<^verbatim>\<open>src/app.rs\<close> and \<^verbatim>\<open>src/release/target.rs\<close>; names of a program, targets, archive names.
  \<^item> \<open>Release\<close>: \<^verbatim>\<open>src/release/mod.rs\<close>; limits, the bounded read, streamed hashing.
  \<^item> \<open>Manifest\<close> and \<open>Signature\<close>: \<^verbatim>\<open>src/release/manifest.rs\<close> and \<^verbatim>\<open>src/release/signature.rs\<close>.
  \<^item> \<open>Monad\<close>: computations over a world that can fail and stop, their Hoare triples (\<open>valid P m Q E\<close>: from
    \<open>P\<close>, a normal return ends in \<open>Q\<close> and every other end in \<open>E\<close>) and \<open>touches S m\<close>: \<open>m\<close> changes no path outside \<open>S\<close>.
  \<^item> \<open>Fs\<close>: the calls of \<^verbatim>\<open>std::fs\<close> over a map from paths to nodes; \<open>Windows_Handles\<close>: the module
    \<open>windows_handle\<close> of \<^verbatim>\<open>src/fs/executable.rs\<close>, opening relative to a directory handle; \<open>Security\<close>:
    \<^verbatim>\<open>src/fs/security.rs\<close>, private directories by owner and mode or by a security descriptor; \<open>Executable\<close>:
    the rest of \<^verbatim>\<open>src/fs/executable.rs\<close>, component-wise opening without links, temporary files, atomic
    replacement, renames that do not replace; \<open>Launcher\<close>: \<open>run_windows_launcher\<close> of the same file.
  \<^item> \<open>Archive\<close>: \<^verbatim>\<open>src/release/archive.rs\<close>; the tar and zip inspections, extraction with roll-back.
  \<^item> \<open>Download\<close>: \<^verbatim>\<open>src/release/download.rs\<close>; URLs of a release, redirects, verified metadata, the body
    readers.
  \<^item> \<open>Install_State\<close>: \<^verbatim>\<open>src/install/mod.rs\<close> and \<^verbatim>\<open>src/install/journal.rs\<close>; layout, configuration, the selector,
    the documents and their validation, the lock file.
  \<^item> \<open>Ownership\<close>: the verification of version directories and of the command's and launcher's ownership,
    in \<^verbatim>\<open>src/install/activation.rs\<close> and \<^verbatim>\<open>src/install/recovery.rs\<close>.
  \<^item> \<open>Self_Test\<close>: \<open>run_self_test\<close> of \<^verbatim>\<open>src/install/activation.rs\<close> with the containment of the child; a \<open>probe\<close> holds
    what the operating system's calls return. \<open>Self_Test_Readers\<close>: the two threads that read the child's output,
    \<open>spawn_self_test_reader\<close> and \<open>reserve_output\<close>, interleaving with the receiver as a step relation, and its invariant.
  \<^item> \<open>Activation\<close>, \<open>Recovery\<close>, \<open>Installer\<close>: the pipeline that switches versions, crash recovery
    (\<^verbatim>\<open>src/install/recovery.rs\<close>) and the public operations (\<^verbatim>\<open>src/install/activation.rs\<close>).
  \<^item> \<open>Durable\<close>: the locale \<open>durable_cell\<close>, a file that is read, written atomically and survives a crash, and its
    interpretations by the selector, the journal and \<^verbatim>\<open>install.json\<close>; the paths each step may touch.
  \<^item> \<open>History\<close>: sequences of public operations; \<open>Authenticity\<close>: what the selected version's directory
    holds.
  \<^item> \<open>Tool_Arguments\<close>, \<open>Tool\<close>, \<open>Tool_Commands\<close>: \<^verbatim>\<open>src/bin/relswap.rs\<close>, the tool that prepares a release: its
    command line, key generation and archive probes, and the commands \<^verbatim>\<open>manifest\<close>, \<^verbatim>\<open>sign\<close>, \<^verbatim>\<open>verify\<close>
    and \<^verbatim>\<open>trust-check\<close> with the dispatch in \<open>run\<close>.
  \<^item> \<open>Sample\<close>, \<open>Sample_Installation\<close>, \<open>Sample_Tool\<close>: a concrete program, toy codecs and cryptography, a server, a
    machine and a release directory on which the theorems are instantiated.
  \<^item> \<open>Calm\<close>: worlds in which every system call succeeds and no path is a symbolic link; operations run there
    by rewriting.
  \<^item> \<open>Release_Properties\<close>, \<open>Archive_Properties\<close>, \<open>Download_Properties\<close>, \<open>Fs_Properties\<close>, \<open>Security_Properties\<close>,
    \<open>Launcher_Properties\<close>, \<open>Self_Test_Properties\<close>,
    \<open>Installation_Properties\<close>, \<open>Tool_Properties\<close>, \<open>Tool_Manifest_Properties\<close>: the properties, each with a witness at
    a concrete input where it has hypotheses; those of the tool's commands, with the runs they rest on, are in
    \<open>Tool_Witnesses\<close>.

  \<^bold>\<open>State and effects.\<close> A \<open>world\<close> holds the nodes of the file system, the schedule of system-call outcomes, the counter of
  temporary names, the random bytes, the clock and the position in the server's responses. Every system call
  first consumes one outcome of the schedule: \<open>IoOk\<close> runs it, \<open>IoFail n\<close> makes it return an
  error after a partial effect of size \<open>n\<close> (a write of \<open>n\<close> bytes), \<open>IoCrash\<close> ends the process
  at this point: every later system call fails and no node changes any more. A theorem over all worlds
  therefore speaks about every place at which a call can fail or the process can be killed. Errors are values of \<open>release_error\<close>, \<open>install_error\<close> and \<open>io_error\<close>, as in the code.

  \<^bold>\<open>What is assumed.\<close> What is not in this repository is a parameter of the record \<open>lib\<close> and its
  extensions \<open>alib\<close>, \<open>env\<close> (the installer) and \<open>tlib\<close> (the tool): SHA-256, Ed25519, Base64, serde's JSON codecs, RFC 3339, semver's parsing and order, gzip, tar
  header fields, the zip directory, URLs, the HTTP agent. A theorem names what it uses of them as hypotheses:
  \<open>semver_ok\<close> (printing is inverse to parsing), \<open>json_ok\<close> and \<open>manifest_json_ok\<close> (a document written is read back),
  \<open>layout_ok\<close> (the configuration validates), \<open>env_ok\<close> (all three), \<open>platform_ok\<close> (the target and the
  payload's name are the host's), \<open>rooted\<close> (no journal below a root that does not exist), \<open>crypto_ok\<close> (Base64 and
  signatures are accepted by their inverses), \<open>documents_ok\<close> (the Base64 alphabet, a key document with a newline
  is read back), \<open>plain\<close> (no symbolic links), \<open>calm\<close> (that, and every system call succeeds), \<open>sddl_ok\<close> (Windows
  reads the text of the private descriptor as the code means it).

  \<^bold>\<open>Loops and bounds.\<close> Loops over a reader recurse over its remaining reads and end by a measure.
  The walk of \<open>sync_regular_files\<close> recurses over directories; it runs with one unit of fuel per node of the file
  system, and a directory's children are nodes below it. Sizes are 64-bit words with the code's
  checked additions; clock arithmetic is over unbounded integers, as the code's types cannot overflow
  for representable dates.

  \<^bold>\<open>Not modelled.\<close> Test modules; the code for platforms that are neither Unix nor Windows; the field deserializers
  of the JSON documents (\<open>deserialize_canonical_version\<close>), which are inside the JSON codecs; symbolic links among the ancestors
  of a path: a path is looked up as it is spelled, only its last component is followed where the call follows it (the
  component-wise opening of \<open>Executable\<close> and \<open>Windows_Handles\<close> enters real directories only); that Windows finds a name in another case too; what a directory without a descriptor of its own
  inherits (the checks refuse it as unprotected); mutual exclusion by the lock file (a history is a sequence of operations, not an interleaving); \<open>Display\<close> and \<open>From\<close>
  implementations; what the tool prints, its help text and its Windows build.
\<close>

end
